(* ===== verification/Prelude.thy ===== *)
theory Prelude
  imports Main "HOL-Library.List_Lexorder" "HOL-Library.Char_ord" "HOL-Library.Sublist"
begin

text \<open>
  The vocabulary every component shares: error values and results, instants of time,
  the few functions of Go's \<^verbatim>\<open>strings\<close> and \<^verbatim>\<open>strconv\<close> packages the sources call, and SQL tables
  as lists of rows with the statements \<^verbatim>\<open>SELECT\<close>, \<^verbatim>\<open>UPDATE\<close> and \<^verbatim>\<open>DELETE\<close> over them.

  The collection \<open>op_defs\<close> gathers the definitions a component's proofs unfold,
  \<open>res_simps\<close> the rules that take a sequence of fallible steps apart, and \<open>inv_intros\<close>
  the preservation lemmas of the store invariant.
\<close>

named_theorems op_defs \<open>definitions of operations, unfolded together\<close>
named_theorems res_simps \<open>rules that decompose sequences of fallible steps\<close>
named_theorems inv_intros \<open>preservation of the store invariant\<close>

section \<open>Errors and results\<close>

text \<open>
  The error values of \<^verbatim>\<open>internal/control\<close> (auth.go, credentials.go, http.go), those of the
  database driver and the file system the code tests for (no row, a violated constraint, a
  missing file), the joined identity conflict of \<^verbatim>\<open>RenewNodeSession\<close>, and every other \<^verbatim>\<open>errors.New\<close> by its message.
\<close>

datatype go_error =
    ErrUnauthorized
  | ErrRateLimited
  | ErrForbidden
  | ErrInvalid
  | ErrConflict
  | ErrIdentityUnavailable
  | InputError string string
  | ErrNoRows
  | ErrConstraint
  | ErrNotExist
  | ErrIdentityConflict
  | ErrMsg string

type_synonym 'a result = "go_error + 'a"

text \<open>Sequencing: \<^verbatim>\<open>x, err := f(); if err != nil { return err }\<close>.\<close>

definition bindE :: "'e + 'a \<Rightarrow> ('a \<Rightarrow> 'e + 'b) \<Rightarrow> 'e + 'b" where
  "bindE r f = (case r of Inl e \<Rightarrow> Inl e | Inr x \<Rightarrow> f x)"

text \<open>A guard: \<^verbatim>\<open>if b { return err }\<close>.\<close>

definition failIf :: "bool \<Rightarrow> 'e \<Rightarrow> 'e + unit" where
  "failIf b e = (if b then Inl e else Inr ())"

lemma bindE_simps [simp]:
  "bindE (Inl e) f = Inl e"
  "bindE (Inr x) f = f x"
  by (simp_all add: bindE_def)

lemma bindE_Inr_iff [res_simps]: "bindE r f = Inr y \<longleftrightarrow> (\<exists>x. r = Inr x \<and> f x = Inr y)"
  by (cases r) auto

lemma bindE_Inl_iff: "bindE r f = Inl e \<longleftrightarrow> r = Inl e \<or> (\<exists>x. r = Inr x \<and> f x = Inl e)"
  by (cases r) auto

lemma failIf_Inr_iff [res_simps]: "failIf b e = Inr u \<longleftrightarrow> \<not> b"
  by (cases u) (simp add: failIf_def)

lemma failIf_Inl_iff: "failIf b e = Inl e' \<longleftrightarrow> b \<and> e' = e"
  by (auto simp: failIf_def)

lemma failIf_simps [simp]:
  "failIf True e = Inl e"
  "failIf False e = Inr ()"
  by (simp_all add: failIf_def)

lemma bindE_cong [fundef_cong]:
  "r = r' \<Longrightarrow> (\<And>x. r' = Inr x \<Longrightarrow> f x = g x) \<Longrightarrow> bindE r f = bindE r' g"
  by (cases r') auto

text \<open>Running a list of fallible steps from left to right, stopping at the first error.\<close>

fun foldE :: "('a \<Rightarrow> 's \<Rightarrow> 'e + 's) \<Rightarrow> 'a list \<Rightarrow> 's \<Rightarrow> 'e + 's" where
  "foldE f [] s = Inr s"
| "foldE f (x # xs) s = bindE (f x s) (foldE f xs)"

lemma foldE_append: "foldE f (xs @ ys) s = bindE (foldE f xs s) (foldE f ys)"
  by (induction xs arbitrary: s) (auto simp: bindE_def split: sum.splits)

lemma foldE_invariant:
  assumes "foldE f xs s = Inr s'" and "P s"
    and "\<And>x t t'. x \<in> set xs \<Longrightarrow> P t \<Longrightarrow> f x t = Inr t' \<Longrightarrow> P t'"
  shows "P s'"
  using assms
proof (induction xs arbitrary: s)
  case Nil
  then show ?case by simp
next
  case (Cons x xs)
  from Cons.prems(1) obtain t where t: "f x s = Inr t" and rest: "foldE f xs t = Inr s'"
    by (auto simp: res_simps)
  from t Cons.prems(2,3) have "P t" by auto
  with rest show ?case using Cons.IH Cons.prems(3) by auto
qed

text \<open>A list of fallible lookups, all of which must succeed.\<close>

fun mapE :: "('a \<Rightarrow> 'e + 'b) \<Rightarrow> 'a list \<Rightarrow> 'e + 'b list" where
  "mapE f [] = Inr []"
| "mapE f (x # xs) = bindE (f x) (\<lambda>y. bindE (mapE f xs) (\<lambda>ys. Inr (y # ys)))"

lemma mapE_Inr_map: "mapE (\<lambda>x. Inr (f x)) xs = Inr (map f xs)"
  by (induction xs) auto

lemma mapE_Inr_set: "mapE f xs = Inr ys \<Longrightarrow> y \<in> set ys \<Longrightarrow> \<exists>x\<in>set xs. f x = Inr y"
  by (induction xs arbitrary: ys) (auto simp: res_simps)

section \<open>Time\<close>

text \<open>
  A \<^verbatim>\<open>time.Time\<close> is the instant it denotes, in nanoseconds since the Unix epoch, in UTC: the
  code compares instants and stores them in seconds. \<open>zero_time\<close> is Go's zero time
  (1 January of year 1), on which \<^verbatim>\<open>IsZero\<close> holds. \<^verbatim>\<open>Unix\<close> and \<^verbatim>\<open>Truncate(time.Second)\<close>
  round towards the past.
\<close>

type_synonym time = int

definition second :: int where
  "second = 1000000000"

definition zero_time :: time where
  "zero_time = - 62135596800 * 1000000000"

definition unix_time :: "int \<Rightarrow> time" where
  "unix_time s = s * 1000000000"

definition unix :: "time \<Rightarrow> int" where
  "unix t = t div 1000000000"

definition truncate_second :: "time \<Rightarrow> time" where
  "truncate_second t = unix_time (unix t)"

lemma unix_unix_time [simp]: "unix (unix_time s) = s"
  by (simp add: unix_def unix_time_def)

lemma truncate_second_le: "truncate_second t \<le> t"
  by (simp add: truncate_second_def unix_def unix_time_def minus_mod_eq_div_mult [symmetric])

lemma truncate_second_unix_time [simp]: "truncate_second (unix_time s) = unix_time s"
  by (simp add: truncate_second_def)

lemma unix_time_mono: "unix_time a \<le> unix_time b \<longleftrightarrow> a \<le> b"
  by (simp add: unix_time_def)

lemma unix_time_less: "unix_time a < unix_time b \<longleftrightarrow> a < b"
  by (simp add: unix_time_def)

text \<open>Comparing in seconds agrees with comparing instants when one side is a whole second.\<close>

lemma not_before_unix_time: "\<not> t < unix_time s \<longleftrightarrow> s \<le> unix t"
proof
  assume "\<not> t < unix_time s"
  then have "unix (unix_time s) \<le> unix t"
    unfolding unix_def by (intro zdiv_mono1) simp_all
  then show "s \<le> unix t" by simp
next
  assume "s \<le> unix t"
  then have "unix_time s \<le> truncate_second t"
    by (simp add: truncate_second_def unix_time_mono)
  then show "\<not> t < unix_time s"
    using truncate_second_le [of t] by simp
qed

section \<open>Integers of fixed width\<close>

text \<open>
  Revisions, budgets and counters are \<^verbatim>\<open>uint64\<close> or SQLite's signed 64-bit integers; they are
  natural numbers here, and the bounds the code checks are written out. Products of
  durations are \<^verbatim>\<open>int64\<close> products, which wrap.
\<close>

definition MaxInt64 :: nat where
  "MaxInt64 = 9223372036854775807"

definition wrap_int64 :: "int \<Rightarrow> int" where
  "wrap_int64 x = (x + 2 ^ 63) mod 2 ^ 64 - 2 ^ 63"

lemma wrap_int64_id: "- (2 ^ 63) \<le> x \<Longrightarrow> x < 2 ^ 63 \<Longrightarrow> wrap_int64 x = x"
  by (simp add: wrap_int64_def)

section \<open>Strings\<close>

text \<open>
  A Go string is its bytes. \<open>TrimSpace\<close> strips the encodings of the code points with the
  property White\_Space from both ends. \<open>ToLower\<close> lowers ASCII letters and the two code
  points beyond ASCII that Go maps to an ASCII letter (the Kelvin sign and the dotted
  capital I); it leaves other bytes alone, which no caller accepts.
\<close>

definition space_seqs :: "string list" where
  "space_seqs =
     [[CHR 0x09], [CHR 0x0A], [CHR 0x0B], [CHR 0x0C], [CHR 0x0D], [CHR 0x20],
      [CHR 0xC2, CHR 0x85], [CHR 0xC2, CHR 0xA0], [CHR 0xE1, CHR 0x9A, CHR 0x80],
      [CHR 0xE2, CHR 0x80, CHR 0x80], [CHR 0xE2, CHR 0x80, CHR 0x81],
      [CHR 0xE2, CHR 0x80, CHR 0x82], [CHR 0xE2, CHR 0x80, CHR 0x83],
      [CHR 0xE2, CHR 0x80, CHR 0x84], [CHR 0xE2, CHR 0x80, CHR 0x85],
      [CHR 0xE2, CHR 0x80, CHR 0x86], [CHR 0xE2, CHR 0x80, CHR 0x87],
      [CHR 0xE2, CHR 0x80, CHR 0x88], [CHR 0xE2, CHR 0x80, CHR 0x89],
      [CHR 0xE2, CHR 0x80, CHR 0x8A], [CHR 0xE2, CHR 0x80, CHR 0xA8],
      [CHR 0xE2, CHR 0x80, CHR 0xA9], [CHR 0xE2, CHR 0x80, CHR 0xAF],
      [CHR 0xE2, CHR 0x81, CHR 0x9F], [CHR 0xE3, CHR 0x80, CHR 0x80]]"

function strip :: "string list \<Rightarrow> string \<Rightarrow> string" where
  "strip ps s =
     (case find (\<lambda>p. p \<noteq> [] \<and> prefix p s) ps of
        None \<Rightarrow> s
      | Some p \<Rightarrow> strip ps (drop (length p) s))"
  by pat_completeness auto
termination
proof (relation "measure (\<lambda>(ps, s). length s)")
  fix ps :: "string list" and s p :: string
  assume "find (\<lambda>p. p \<noteq> [] \<and> prefix p s) ps = Some p"
  then have "p \<noteq> [] \<and> prefix p s"
    by (auto simp: find_Some_iff)
  then show "((ps, drop (length p) s), (ps, s)) \<in> measure (\<lambda>(ps, s). length s)"
    by (cases s) (auto simp: prefix_def)
qed simp

declare strip.simps [simp del]

definition TrimSpace :: "string \<Rightarrow> string" where
  "TrimSpace s = rev (strip (map rev space_seqs) (rev (strip space_seqs s)))"

text \<open>Printable ASCII is left alone.\<close>

definition is_graph :: "char \<Rightarrow> bool" where
  "is_graph c \<longleftrightarrow> CHR 0x21 \<le> c \<and> c \<le> CHR 0x7E"

lemma strip_id: "list_all (\<lambda>p. p \<noteq> [] \<and> \<not> is_graph (hd p)) ps \<Longrightarrow> list_all is_graph s \<Longrightarrow> strip ps s = s"
proof -
  assume ps: "list_all (\<lambda>p. p \<noteq> [] \<and> \<not> is_graph (hd p)) ps" and s: "list_all is_graph s"
  have "find (\<lambda>p. p \<noteq> [] \<and> prefix p s) ps = None"
  proof -
    have "\<not> prefix p s" if "p \<in> set ps" for p
      using ps s that by (cases p; cases s) (auto simp: list_all_iff)
    then show ?thesis by (auto simp: find_None_iff)
  qed
  then show ?thesis by (simp add: strip.simps)
qed

lemma TrimSpace_id: "list_all is_graph s \<Longrightarrow> TrimSpace s = s"
  unfolding TrimSpace_def
  by (subst (2) strip_id, simp_all add: space_seqs_def is_graph_def less_eq_char_def)
    (subst strip_id, simp_all add: is_graph_def less_eq_char_def list_all_iff)

definition lower_char :: "char \<Rightarrow> char" where
  "lower_char c = (if CHR ''A'' \<le> c \<and> c \<le> CHR ''Z'' then char_of (of_char c + 32 :: nat) else c)"

fun ToLower :: "string \<Rightarrow> string" where
  "ToLower [] = []"
| "ToLower (c # cs) =
     (if c = CHR 0xE2 \<and> take 2 cs = [CHR 0x84, CHR 0xAA] then CHR ''k'' # ToLower (drop 2 cs)
      else if c = CHR 0xC4 \<and> take 1 cs = [CHR 0xB0] then CHR ''i'' # ToLower (drop 1 cs)
      else lower_char c # ToLower cs)"

definition TrimSuffix :: "string \<Rightarrow> string \<Rightarrow> string" where
  "TrimSuffix s suf = (if suffix suf s then take (length s - length suf) s else s)"

text \<open>\<^verbatim>\<open>strings.Split\<close> at a one-byte separator: one more piece than there are separators.\<close>

fun split_at :: "char \<Rightarrow> string \<Rightarrow> string list" where
  "split_at d [] = [[]]"
| "split_at d (c # cs) =
     (if c = d then [] # split_at d cs
      else (case split_at d cs of [] \<Rightarrow> [[c]] | p # ps \<Rightarrow> (c # p) # ps))"

lemma split_at_not_Nil [simp]: "split_at d s \<noteq> []"
  by (cases s) (auto split: list.splits)

text \<open>Joining the pieces with the separator gives the string back.\<close>

fun join_at :: "char \<Rightarrow> string list \<Rightarrow> string" where
  "join_at d [] = []"
| "join_at d [p] = p"
| "join_at d (p # ps) = p @ d # join_at d ps"

lemma join_split: "join_at d (split_at d s) = s"
proof (induction s)
  case Nil
  then show ?case by simp
next
  case (Cons c cs)
  then show ?case
    by (cases "split_at d cs"; cases "tl (split_at d cs)") (auto simp: neq_Nil_conv)
qed

definition is_lower_digit :: "char \<Rightarrow> bool" where
  "is_lower_digit c \<longleftrightarrow> CHR ''a'' \<le> c \<and> c \<le> CHR ''z'' \<or> CHR ''0'' \<le> c \<and> c \<le> CHR ''9''"

definition is_alnum :: "char \<Rightarrow> bool" where
  "is_alnum c \<longleftrightarrow> is_lower_digit c \<or> CHR ''A'' \<le> c \<and> c \<le> CHR ''Z''"

definition is_hex :: "char \<Rightarrow> bool" where
  "is_hex c \<longleftrightarrow> CHR ''0'' \<le> c \<and> c \<le> CHR ''9'' \<or> CHR ''a'' \<le> c \<and> c \<le> CHR ''f''
     \<or> CHR ''A'' \<le> c \<and> c \<le> CHR ''F''"

text \<open>\<^verbatim>\<open>hex.DecodeString\<close> succeeds on an even number of hexadecimal digits.\<close>

definition hex_ok :: "string \<Rightarrow> bool" where
  "hex_ok s \<longleftrightarrow> even (length s) \<and> list_all is_hex s"

section \<open>Decimal integers as text\<close>

definition digit_char :: "nat \<Rightarrow> char" where
  "digit_char d = char_of (48 + d)"

definition char_digit :: "char \<Rightarrow> nat option" where
  "char_digit c = (if CHR ''0'' \<le> c \<and> c \<le> CHR ''9'' then Some (of_char c - 48) else None)"

fun show_nat :: "nat \<Rightarrow> string" where
  "show_nat n = (if n < 10 then [digit_char n] else show_nat (n div 10) @ [digit_char (n mod 10)])"

declare show_nat.simps [simp del]

definition FormatInt :: "int \<Rightarrow> string" where
  "FormatInt i = (if i < 0 then CHR ''-'' # show_nat (nat (- i)) else show_nat (nat i))"

fun read_digits :: "string \<Rightarrow> nat \<Rightarrow> nat option" where
  "read_digits [] acc = Some acc"
| "read_digits (c # cs) acc =
     (case char_digit c of None \<Rightarrow> None | Some d \<Rightarrow> read_digits cs (10 * acc + d))"

text \<open>\<^verbatim>\<open>strconv.ParseInt(s, 10, 64)\<close>: an optional sign, at least one digit, in range.\<close>

definition ParseInt :: "string \<Rightarrow> int option" where
  "ParseInt s =
     (let neg = (take 1 s = ''-''); ds = (if neg \<or> take 1 s = ''+'' then drop 1 s else s)
      in if ds = [] then None
         else (case read_digits ds 0 of
             None \<Rightarrow> None
           | Some n \<Rightarrow> (let i = (if neg then - int n else int n)
                        in if - (2 ^ 63) \<le> i \<and> i < 2 ^ 63 then Some i else None)))"

lemma char_digit_digit_char [simp]: "d < 10 \<Longrightarrow> char_digit (digit_char d) = Some d"
  by (simp add: char_digit_def digit_char_def less_eq_char_def)

lemma read_digits_append:
  "read_digits (xs @ ys) acc =
     (case read_digits xs acc of None \<Rightarrow> None | Some a \<Rightarrow> read_digits ys a)"
  by (induction xs arbitrary: acc) (auto split: option.splits)

lemma read_show_nat: "read_digits (show_nat n) 0 = Some n"
proof (induction n rule: show_nat.induct)
  case (1 n)
  show ?case
  proof (cases "n < 10")
    case True
    then show ?thesis by (simp add: show_nat.simps [of n])
  next
    case False
    with "1.IH" show ?thesis
      by (simp add: show_nat.simps [of n] read_digits_append)
  qed
qed

lemma show_nat_starts_with_digit: "\<exists>d ds. show_nat n = digit_char d # ds \<and> d < 10"
proof (induction n rule: show_nat.induct)
  case (1 n)
  then show ?case
    by (cases "n < 10") (force simp: show_nat.simps [of n])+
qed

lemma digit_char_sign:
  assumes "d < 10"
  shows "digit_char d \<noteq> CHR ''-'' \<and> digit_char d \<noteq> CHR ''+''"
proof -
  have "char_digit CHR ''-'' = None" and "char_digit CHR ''+'' = None"
    by (simp_all add: char_digit_def less_eq_char_def)
  with char_digit_digit_char [OF assms] show ?thesis by auto
qed

text \<open>Parsing what was printed gives the number back.\<close>

lemma ParseInt_FormatInt:
  assumes "0 \<le> i" and "i < 2 ^ 63"
  shows "ParseInt (FormatInt i) = Some i"
proof -
  obtain d ds where sh: "show_nat (nat i) = digit_char d # ds" and d: "d < 10"
    using show_nat_starts_with_digit by blast
  have "read_digits (digit_char d # ds) 0 = Some (nat i)"
    using read_show_nat [of "nat i"] by (simp add: sh)
  with assms sh digit_char_sign [OF d] show ?thesis
    by (simp add: FormatInt_def ParseInt_def Let_def)
qed

section \<open>Tables\<close>

text \<open>
  A table is the list of its rows in insertion order. \<open>query_row\<close> is \<^verbatim>\<open>QueryRow(...).Scan\<close>: the
  first row that satisfies the condition, or \<^verbatim>\<open>sql.ErrNoRows\<close>.
\<close>

definition query_row :: "('r \<Rightarrow> bool) \<Rightarrow> 'r list \<Rightarrow> 'r result" where
  "query_row P xs = (case find P xs of None \<Rightarrow> Inl ErrNoRows | Some r \<Rightarrow> Inr r)"

definition update_where :: "('r \<Rightarrow> bool) \<Rightarrow> ('r \<Rightarrow> 'r) \<Rightarrow> 'r list \<Rightarrow> 'r list" where
  "update_where P f xs = map (\<lambda>r. if P r then f r else r) xs"

definition delete_where :: "('r \<Rightarrow> bool) \<Rightarrow> 'r list \<Rightarrow> 'r list" where
  "delete_where P xs = filter (\<lambda>r. \<not> P r) xs"

text \<open>
  An insertion into a table with a key: it fails on a second row with the key. The
  upsert \<^verbatim>\<open>ON CONFLICT ... DO UPDATE\<close> changes the row that is there.
\<close>

definition insert_row :: "('r \<Rightarrow> 'k) \<Rightarrow> 'r \<Rightarrow> 'r list \<Rightarrow> 'r list result" where
  "insert_row k r xs = (if k r \<in> k ` set xs then Inl ErrConstraint else Inr (xs @ [r]))"

definition upsert_row :: "('r \<Rightarrow> 'k) \<Rightarrow> 'r \<Rightarrow> ('r \<Rightarrow> 'r) \<Rightarrow> 'r list \<Rightarrow> 'r list" where
  "upsert_row k r f xs =
     (if k r \<in> k ` set xs then update_where (\<lambda>x. k x = k r) f xs else xs @ [r])"

definition unique :: "('r \<Rightarrow> 'k) \<Rightarrow> 'r list \<Rightarrow> bool" where
  "unique k xs \<longleftrightarrow> distinct (map k xs)"

lemma query_row_Inr [res_simps]: "query_row P xs = Inr r \<longleftrightarrow> find P xs = Some r"
  by (simp add: query_row_def split: option.splits)

lemma query_row_InrD: "query_row P xs = Inr r \<Longrightarrow> r \<in> set xs \<and> P r"
  by (auto simp: query_row_def find_Some_iff split: option.splits)

lemma query_row_Inl: "query_row P xs = Inl e \<Longrightarrow> e = ErrNoRows \<and> (\<forall>r\<in>set xs. \<not> P r)"
  by (auto simp: query_row_def find_None_iff split: option.splits)

lemma find_SomeD: "find P xs = Some r \<Longrightarrow> r \<in> set xs \<and> P r"
  by (auto simp: find_Some_iff)

lemma update_where_Nil [simp]: "update_where P f [] = []"
  by (simp add: update_where_def)

lemma update_where_Cons [simp]:
  "update_where P f (r # xs) = (if P r then f r else r) # update_where P f xs"
  by (simp add: update_where_def)

lemma set_update_where: "set (update_where P f xs) = (\<lambda>r. if P r then f r else r) ` set xs"
  by (simp add: update_where_def)

lemma set_delete_where [simp]: "set (delete_where P xs) = {r \<in> set xs. \<not> P r}"
  by (simp add: delete_where_def)

lemma map_update_where: "(\<And>r. k (f r) = k r) \<Longrightarrow> map k (update_where P f xs) = map k xs"
  by (induction xs) auto

lemma image_update_where: "(\<And>r. k (f r) = k r) \<Longrightarrow> k ` set (update_where P f xs) = k ` set xs"
  by (metis image_set map_update_where)

lemma unique_Nil [simp]: "unique k []"
  by (simp add: unique_def)

lemma unique_update_where: "(\<And>r. k (f r) = k r) \<Longrightarrow> unique k (update_where P f xs) = unique k xs"
  by (simp add: unique_def map_update_where)

lemma unique_delete_where: "unique k xs \<Longrightarrow> unique k (delete_where P xs)"
  by (simp add: unique_def delete_where_def distinct_map_filter)

lemma unique_append: "unique k (xs @ [r]) \<longleftrightarrow> unique k xs \<and> k r \<notin> k ` set xs"
  by (auto simp: unique_def)

lemma insert_row_Inr [res_simps]:
  "insert_row k r xs = Inr ys \<longleftrightarrow> k r \<notin> k ` set xs \<and> ys = xs @ [r]"
  by (auto simp: insert_row_def)

lemma unique_upsert_row: "k r = k' \<Longrightarrow> (\<And>x. k (f x) = k x) \<Longrightarrow> unique k xs \<Longrightarrow> unique k (upsert_row k r f xs)"
  by (simp add: upsert_row_def unique_update_where unique_append)

lemma uniqueD: "unique k xs \<Longrightarrow> r \<in> set xs \<Longrightarrow> r' \<in> set xs \<Longrightarrow> k r = k r' \<Longrightarrow> r = r'"
  by (auto simp: unique_def distinct_map inj_on_def)

text \<open>A row is found under its key, whatever else the table holds.\<close>

lemma find_unique: "unique k xs \<Longrightarrow> r \<in> set xs \<Longrightarrow> find (\<lambda>x. k x = k r) xs = Some r"
proof (induction xs)
  case Nil
  then show ?case by simp
next
  case (Cons y ys)
  then show ?case by (auto simp: unique_def)
qed

lemma find_Some_unique:
  assumes "unique k xs" and "r \<in> set xs" and "P r" and "\<And>x. P x \<Longrightarrow> k x = k r"
  shows "find P xs = Some r"
proof (cases "find P xs")
  case None
  with assms(2,3) show ?thesis by (simp add: find_None_iff)
next
  case (Some x)
  with assms show ?thesis using find_SomeD [OF Some] by (metis uniqueD)
qed

lemma find_update_where:
  assumes "\<And>r. k (f r) = k r"
  shows "find (\<lambda>x. k x = a) (update_where (\<lambda>x. k x = b) f xs) =
    (if a = b then map_option f (find (\<lambda>x. k x = a) xs) else find (\<lambda>x. k x = a) xs)"
  by (induction xs) (auto simp: assms)

lemma find_delete_where:
  "find (\<lambda>x. k x = a) (delete_where (\<lambda>x. k x = b) xs) =
    (if a = b then None else find (\<lambda>x. k x = a) xs)"
  by (induction xs) (auto simp: delete_where_def)

lemma find_append: "find P (xs @ ys) = (case find P xs of None \<Rightarrow> find P ys | Some r \<Rightarrow> Some r)"
  by (induction xs) auto

lemma find_None_image: "find (\<lambda>x. k x = a) xs = None \<longleftrightarrow> a \<notin> k ` set xs"
  by (auto simp: find_None_iff)

lemma distinct_map_concat:
  assumes "distinct (map h xs)" and "\<And>x. x \<in> set xs \<Longrightarrow> distinct (map f (K x))"
    and "\<And>x y. x \<in> set xs \<Longrightarrow> y \<in> set xs \<Longrightarrow> h x \<noteq> h y \<Longrightarrow> f ` set (K x) \<inter> f ` set (K y) = {}"
  shows "distinct (map f (concat (map K xs)))"
  using assms
proof (induction xs)
  case Nil
  then show ?case by simp
next
  case (Cons x xs)
  have "f ` set (K x) \<inter> f ` set (K y) = {}" if "y \<in> set xs" for y
  proof (rule Cons.prems(3))
    show "h x \<noteq> h y" using Cons.prems(1) that by (metis distinct.simps(2) image_eqI list.map(2) set_map)
  qed (use that in simp_all)
  then have "f ` set (K x) \<inter> f ` set (concat (map K xs)) = {}" by (fastforce simp: image_iff)
  with Cons show ?case by simp
qed

lemma set_map_filter: "y \<in> set (List.map_filter f xs) \<longleftrightarrow> (\<exists>x\<in>set xs. f x = Some y)"
  by (induction xs) (auto simp: map_filter_simps split: option.splits)

lemma distinct_map_filter_key:
  "distinct (map k xs) \<Longrightarrow> (\<And>x y. f x = Some y \<Longrightarrow> k' y = k x) \<Longrightarrow> distinct (map k' (List.map_filter f xs))"
proof (induction xs)
  case Nil
  then show ?case by (simp add: map_filter_simps)
next
  case (Cons x xs)
  show ?case
  proof (cases "f x")
    case None
    with Cons show ?thesis by (simp add: map_filter_simps)
  next
    case (Some y)
    have "k' y \<notin> k' ` set (List.map_filter f xs)"
    proof
      assume "k' y \<in> k' ` set (List.map_filter f xs)"
      then obtain z x' where "k' y = k' z" "x' \<in> set xs" "f x' = Some z" by (auto simp: set_map_filter)
      with Cons.prems(2) [OF Some] Cons.prems(2) [of x' z] have "k x = k x'" by simp
      with Cons.prems(1) \<open>x' \<in> set xs\<close> show False by auto
    qed
    with Cons Some show ?thesis by (simp add: map_filter_simps)
  qed
qed

lemma distinct_map_sort_key: "distinct (map k (sort_key h xs)) \<longleftrightarrow> distinct (map k xs)"
  by (simp add: distinct_map)

section \<open>Scans with a set of keys seen so far\<close>

text \<open>
  Several validators walk a list with a \<^verbatim>\<open>seen\<close> map: an element is refused when it is bad in
  itself or when its key was seen. \<open>scan_unique\<close> is that loop; it returns the keys seen.
\<close>

fun scan_unique :: "('a \<Rightarrow> 'k) \<Rightarrow> ('a \<Rightarrow> bool) \<Rightarrow> 'e \<Rightarrow> 'a list \<Rightarrow> 'k list \<Rightarrow> 'e + 'k list" where
  "scan_unique k bad e [] seen = Inr seen"
| "scan_unique k bad e (x # xs) seen =
     (if bad x \<or> k x \<in> set seen then Inl e else scan_unique k bad e xs (k x # seen))"

lemma scan_unique_Inr:
  "scan_unique k bad e xs seen = Inr seen' \<longleftrightarrow>
     list_all (\<lambda>x. \<not> bad x) xs \<and> distinct (map k xs) \<and> k ` set xs \<inter> set seen = {}
     \<and> seen' = rev (map k xs) @ seen"
  by (induction xs arbitrary: seen) auto

lemma scan_unique_Inl: "scan_unique k bad e xs seen = Inl e' \<Longrightarrow> e' = e"
  by (induction xs arbitrary: seen) (auto split: if_splits)

end
