(* ===== verification/Protocol.thy ===== *)
theory Protocol
  imports Prelude "HOL-Library.Word"
begin

text \<open>
  The messages controller and nodes exchange and the checks both sides make of them:
  \<^verbatim>\<open>internal/cluster/protocol.go\<close>, \<^verbatim>\<open>control.go\<close> and \<^verbatim>\<open>enrollment.go\<close>.

  JSON documents are the values they carry: a column or a message written by
  \<^verbatim>\<open>json.Marshal\<close> holds the value, equal documents are equal values, and a document that
  does not decode is \<open>None\<close>. Where the code bounds the length of a document, the length
  of Go's encoding is computed (\<open>policy_size\<close>).
\<close>

section \<open>Data\<close>

record device_key =
  dk_NodePublic :: string
  dk_NotAfter :: time

record grant_policy =
  gp_GrantID :: string
  gp_GrantRevision :: nat
  gp_TailnetID :: string
  gp_LastIdentitySuccess :: time
  gp_IdentityUntil :: time
  gp_ControlUntil :: time
  gp_ExplicitUntil :: time
  gp_Keys :: "device_key list"

record tailnet_qos =
  tq_TailnetID :: string
  tq_Group :: string
  tq_Weight :: nat
  tq_MaxBPS :: nat

record qos_policy =
  q_BudgetBPS :: nat
  q_OwnerWeight :: nat
  q_SharedWeight :: nat
  q_SharedMaxBPS :: nat
  q_Tailnets :: "tailnet_qos list"

record policy =
  p_ClusterID :: string
  p_NodeID :: string
  p_Revision :: nat
  p_GeneratedAt :: time
  p_Grants :: "grant_policy list"
  p_QoS :: qos_policy

datatype ack_state = AckReceived | AckApplied | AckNack | AckOther string

record policy_ack =
  ack_Revision :: nat
  ack_State :: ack_state
  ack_Usable :: bool
  ack_Error :: string

record tailnet_traffic =
  tt_CounterID :: nat
  tt_TailnetID :: string
  tt_RX :: nat
  tt_TX :: nat
  tt_Relayed :: nat
  tt_Queued :: nat

record node_report =
  nr_LocalMaxBudgetBPS :: "nat option"
  nr_EffectiveBudgetBPS :: "nat option"
  nr_Revision :: nat
  nr_Usable :: bool
  nr_ObservedAt :: time
  nr_Traffic :: "tailnet_traffic list"
  nr_ActiveConnections :: "nat option"

record node_heartbeat =
  hb_NodeID :: string
  hb_LeaseUntil :: time
  hb_DesiredRevision :: nat
  hb_IntervalMillis :: int

record node_challenge =
  ch_Purpose :: string
  ch_ClusterID :: string
  ch_NodeID :: string
  ch_Domain :: string
  ch_Nonce :: string
  ch_ExpiresAt :: time
  ch_PublicKey :: string
  ch_InstanceID :: string

record enrollment_request =
  er_Code :: string
  er_Challenge :: node_challenge
  er_Signature :: string

record node_session =
  ses_ClusterID :: string
  ses_NodeID :: string
  ses_InstanceID :: string
  ses_Token :: string
  ses_ExpiresAt :: time
  ses_LeaseUntil :: time

record oauth_credential =
  oc_ClientID :: string
  oc_ClientSecret :: string

text \<open>
  The functions of other packages the code calls: Tailscale's \<^verbatim>\<open>key.NodePublic\<close> (its text
  form, its zero value), SHA-256 of a token and of a document, Ed25519 over the signed
  challenge, AES-GCM with additional data, and bcrypt. They are a parameter of every
  definition that uses them.
\<close>

record env =
  np_unmarshal :: "string \<Rightarrow> string option"
  np_is_zero :: "string \<Rightarrow> bool"
  np_string :: "string \<Rightarrow> string"
  tokenHash :: "string \<Rightarrow> string"
  requestDigest :: "enrollment_request \<Rightarrow> string"
  sha256_policy :: "policy \<Rightarrow> 256 word"
  ed_public :: "string \<Rightarrow> string"
  ed_sign :: "string \<Rightarrow> node_challenge \<Rightarrow> string"
  ed_verify :: "string \<Rightarrow> node_challenge \<Rightarrow> string \<Rightarrow> bool"
  seal_session :: "node_session \<Rightarrow> string \<Rightarrow> string \<Rightarrow> string"
  open_session :: "string \<Rightarrow> string \<Rightarrow> node_session option"
  seal_credential :: "oauth_credential \<Rightarrow> string \<Rightarrow> string \<Rightarrow> string"
  open_credential :: "string \<Rightarrow> string \<Rightarrow> oauth_credential option"
  bcrypt_hash :: "string \<Rightarrow> string \<Rightarrow> string"
  bcrypt_compare :: "string \<Rightarrow> string \<Rightarrow> bool"

section \<open>Deadlines\<close>

text \<open>\<^verbatim>\<open>EffectiveUntil\<close>: the loop over the three optional deadlines.\<close>

definition EffectiveUntil :: "grant_policy \<Rightarrow> device_key \<Rightarrow> time" where
  "EffectiveUntil g k =
     fold (\<lambda>d until. if d \<noteq> zero_time \<and> d < until then d else until)
       [gp_ControlUntil g, gp_ExplicitUntil g, dk_NotAfter k] (gp_IdentityUntil g)"

text \<open>
  Its specification: the least of the identity deadline and those of the other three
  that are set.
\<close>

definition set_deadlines :: "grant_policy \<Rightarrow> device_key \<Rightarrow> time set" where
  "set_deadlines g k = insert (gp_IdentityUntil g)
     {d. d \<noteq> zero_time \<and> (d = gp_ControlUntil g \<or> d = gp_ExplicitUntil g \<or> d = dk_NotAfter k)}"

lemma finite_set_deadlines [simp]: "finite (set_deadlines g k)"
proof -
  have "set_deadlines g k \<subseteq>
    {gp_IdentityUntil g, gp_ControlUntil g, gp_ExplicitUntil g, dk_NotAfter k}"
    by (auto simp: set_deadlines_def)
  then show ?thesis by (rule finite_subset) simp
qed

lemma EffectiveUntil_in: "EffectiveUntil g k \<in> set_deadlines g k"
  by (auto simp: EffectiveUntil_def set_deadlines_def)

lemma EffectiveUntil_le: "d \<in> set_deadlines g k \<Longrightarrow> EffectiveUntil g k \<le> d"
  by (auto simp: EffectiveUntil_def set_deadlines_def)

lemma EffectiveUntil_Min: "EffectiveUntil g k = Min (set_deadlines g k)"
  by (intro Min_eqI [symmetric]) (auto intro: EffectiveUntil_in EffectiveUntil_le)

text \<open>A key is live while its deadline has not come.\<close>

definition key_live :: "time \<Rightarrow> grant_policy \<Rightarrow> device_key \<Rightarrow> bool" where
  "key_live now g k \<longleftrightarrow> now < EffectiveUntil g k"

lemma key_live_iff: "key_live now g k \<longleftrightarrow> Ball (set_deadlines g k) (\<lambda>d. now < d)"
  unfolding key_live_def EffectiveUntil_Min by (subst Min_gr_iff) (auto simp: set_deadlines_def)

section \<open>Validation\<close>

definition validID :: "string \<Rightarrow> bool" where
  "validID s \<longleftrightarrow> s \<noteq> [] \<and> length s \<le> 128 \<and> TrimSpace s = s"

definition validWeight :: "nat \<Rightarrow> bool" where
  "validWeight w \<longleftrightarrow> 0 < w \<and> w \<le> 1024"

definition validCeiling :: "nat \<Rightarrow> bool" where
  "validCeiling bps \<longleftrightarrow> bps = 0 \<or> 8 \<le> bps \<and> bps \<le> MaxInt64"

definition badRule :: "tailnet_qos \<Rightarrow> bool" where
  "badRule t \<longleftrightarrow> tq_TailnetID t = [] \<or> 128 < length (tq_TailnetID t)
     \<or> TrimSpace (tq_TailnetID t) \<noteq> tq_TailnetID t
     \<or> tq_Group t \<noteq> ''owner'' \<and> tq_Group t \<noteq> ''shared''
     \<or> \<not> validWeight (tq_Weight t) \<or> \<not> validCeiling (tq_MaxBPS t)"

definition ValidateQoS :: "qos_policy \<Rightarrow> unit result" where
  "ValidateQoS q =
     (if q_BudgetBPS q < 8 \<or> MaxInt64 < q_BudgetBPS q \<or> \<not> validCeiling (q_SharedMaxBPS q)
         \<or> \<not> validWeight (q_OwnerWeight q) \<or> \<not> validWeight (q_SharedWeight q)
      then Inl (ErrMsg ''invalid policy budget or group weight'')
      else if 4096 < length (q_Tailnets q) then Inl (ErrMsg ''too many bandwidth rules'')
      else bindE (scan_unique tq_TailnetID badRule (ErrMsg ''invalid tailnet bandwidth rule'')
                    (q_Tailnets q) [])
             (\<lambda>_. Inr ()))"

text \<open>The loop over a grant's keys, with the public keys of the policy seen so far.\<close>

fun validate_keys :: "env \<Rightarrow> device_key list \<Rightarrow> string list \<Rightarrow> string list result" where
  "validate_keys E [] keys = Inr keys"
| "validate_keys E (k # ks) keys =
     (case np_unmarshal E (dk_NodePublic k) of
        None \<Rightarrow> Inl (ErrMsg ''invalid or duplicate device public key'')
      | Some public \<Rightarrow>
          if np_is_zero E public \<or> public \<in> set keys
          then Inl (ErrMsg ''invalid or duplicate device public key'')
          else if 65536 < length (public # keys) then Inl (ErrMsg ''too many policy device keys'')
          else validate_keys E ks (public # keys))"

text \<open>The loop over the grants, with the tailnets, grant ids and keys seen so far.\<close>

fun validate_grants ::
    "env \<Rightarrow> grant_policy list \<Rightarrow> string list \<Rightarrow> string list \<Rightarrow> string list
      \<Rightarrow> (string list \<times> string list \<times> string list) result" where
  "validate_grants E [] tailnets grants keys = Inr (tailnets, grants, keys)"
| "validate_grants E (g # gs) tailnets grants keys =
     (if \<not> validID (gp_GrantID g) \<or> \<not> validID (gp_TailnetID g) \<or> gp_GrantRevision g = 0
         \<or> gp_TailnetID g \<in> set tailnets \<or> gp_GrantID g \<in> set grants
      then Inl (ErrMsg ''invalid or duplicate grant identity'')
      else if gp_LastIdentitySuccess g = zero_time \<or> gp_IdentityUntil g = zero_time
              \<or> gp_ControlUntil g = zero_time \<or> gp_IdentityUntil g < gp_LastIdentitySuccess g
      then Inl (ErrMsg ''invalid grant identity deadlines'')
      else bindE (validate_keys E (gp_Keys g) keys)
             (\<lambda>keys'. validate_grants E gs (gp_TailnetID g # tailnets) (gp_GrantID g # grants) keys'))"

definition ValidatePolicy :: "env \<Rightarrow> policy \<Rightarrow> string \<Rightarrow> string \<Rightarrow> unit result" where
  "ValidatePolicy E p clusterID nodeID =
     (if \<not> validID (p_ClusterID p) \<or> \<not> validID (p_NodeID p) \<or> p_ClusterID p \<noteq> clusterID
         \<or> p_NodeID p \<noteq> nodeID \<or> p_Revision p = 0 \<or> p_GeneratedAt p = zero_time
      then Inl (ErrMsg ''invalid policy identity or revision'')
      else bindE (ValidateQoS (p_QoS p)) (\<lambda>_.
        if 4096 < length (p_Grants p) \<or> 4096 < length (q_Tailnets (p_QoS p))
        then Inl (ErrMsg ''too many policy tailnets'')
        else bindE (validate_grants E (p_Grants p) [] [] []) (\<lambda>(tailnets, grants, keys).
          bindE (scan_unique tq_TailnetID (\<lambda>t. tq_TailnetID t \<notin> set tailnets)
                   (ErrMsg ''invalid tailnet bandwidth rule'') (q_Tailnets (p_QoS p)) [])
            (\<lambda>seen. failIf (length seen \<noteq> length tailnets)
                      (ErrMsg ''missing tailnet bandwidth rule'')))))"

section \<open>What a valid policy is\<close>

definition qos_valid :: "qos_policy \<Rightarrow> bool" where
  "qos_valid q \<longleftrightarrow> 8 \<le> q_BudgetBPS q \<and> q_BudgetBPS q \<le> MaxInt64 \<and> validCeiling (q_SharedMaxBPS q)
     \<and> validWeight (q_OwnerWeight q) \<and> validWeight (q_SharedWeight q)
     \<and> length (q_Tailnets q) \<le> 4096 \<and> distinct (map tq_TailnetID (q_Tailnets q))
     \<and> list_all (\<lambda>t. \<not> badRule t) (q_Tailnets q)"

definition policy_keys :: "policy \<Rightarrow> device_key list" where
  "policy_keys p = concat (map gp_Keys (p_Grants p))"

definition key_ok :: "env \<Rightarrow> device_key \<Rightarrow> bool" where
  "key_ok E k \<longleftrightarrow> (case np_unmarshal E (dk_NodePublic k) of None \<Rightarrow> False | Some public \<Rightarrow> \<not> np_is_zero E public)"

definition key_public :: "env \<Rightarrow> device_key \<Rightarrow> string" where
  "key_public E k = (case np_unmarshal E (dk_NodePublic k) of None \<Rightarrow> [] | Some public \<Rightarrow> public)"

definition grant_ok :: "grant_policy \<Rightarrow> bool" where
  "grant_ok g \<longleftrightarrow> validID (gp_GrantID g) \<and> validID (gp_TailnetID g) \<and> gp_GrantRevision g \<noteq> 0
     \<and> gp_LastIdentitySuccess g \<noteq> zero_time \<and> gp_IdentityUntil g \<noteq> zero_time
     \<and> gp_ControlUntil g \<noteq> zero_time \<and> gp_LastIdentitySuccess g \<le> gp_IdentityUntil g"

definition policy_valid :: "env \<Rightarrow> policy \<Rightarrow> string \<Rightarrow> string \<Rightarrow> bool" where
  "policy_valid E p clusterID nodeID \<longleftrightarrow>
     validID clusterID \<and> validID nodeID \<and> p_ClusterID p = clusterID \<and> p_NodeID p = nodeID
     \<and> p_Revision p \<noteq> 0 \<and> p_GeneratedAt p \<noteq> zero_time
     \<and> qos_valid (p_QoS p) \<and> length (p_Grants p) \<le> 4096
     \<and> list_all grant_ok (p_Grants p)
     \<and> distinct (map gp_TailnetID (p_Grants p)) \<and> distinct (map gp_GrantID (p_Grants p))
     \<and> list_all (key_ok E) (policy_keys p) \<and> distinct (map (key_public E) (policy_keys p))
     \<and> length (policy_keys p) \<le> 65536
     \<and> tq_TailnetID ` set (q_Tailnets (p_QoS p)) = gp_TailnetID ` set (p_Grants p)"

lemma ValidateQoS_iff: "ValidateQoS q = Inr u \<longleftrightarrow> qos_valid q"
  by (auto simp: ValidateQoS_def qos_valid_def res_simps scan_unique_Inr)

lemma validate_keys_iff:
  assumes "length keys \<le> 65536"
  shows "validate_keys E ks keys = Inr keys' \<longleftrightarrow>
     list_all (key_ok E) ks \<and> distinct (map (key_public E) ks)
     \<and> key_public E ` set ks \<inter> set keys = {} \<and> length ks + length keys \<le> 65536
     \<and> keys' = rev (map (key_public E) ks) @ keys"
  using assms
proof (induction ks arbitrary: keys)
  case Nil
  then show ?case by auto
next
  case (Cons k ks)
  show ?case
  proof (cases "np_unmarshal E (dk_NodePublic k)")
    case None
    then show ?thesis by (simp add: key_ok_def)
  next
    case (Some public)
    then have pub: "key_public E k = public" by (simp add: key_public_def)
    show ?thesis
    proof (cases "np_is_zero E public \<or> public \<in> set keys \<or> 65536 < length (public # keys)")
      case True
      with Some pub show ?thesis by (auto simp: key_ok_def)
    next
      case False
      with Some have "validate_keys E (k # ks) keys = validate_keys E ks (public # keys)"
        by simp
      also have "\<dots> = Inr keys' \<longleftrightarrow> list_all (key_ok E) (k # ks) \<and> distinct (map (key_public E) (k # ks))
          \<and> key_public E ` set (k # ks) \<inter> set keys = {} \<and> length (k # ks) + length keys \<le> 65536
          \<and> keys' = rev (map (key_public E) (k # ks)) @ keys"
        using False pub Cons.IH [of "public # keys"] key_ok_def [of E k] Some by auto
      finally show ?thesis .
    qed
  qed
qed

lemma validate_keys_length:
  "validate_keys E ks keys = Inr keys' \<Longrightarrow> length keys \<le> 65536 \<Longrightarrow> length keys' \<le> 65536"
  by (simp add: validate_keys_iff)

lemma validate_grants_iff:
  assumes "length keys \<le> 65536"
  shows "validate_grants E gs tailnets grants keys = Inr (tailnets', grants', keys') \<longleftrightarrow>
     list_all grant_ok gs
     \<and> distinct (map gp_TailnetID gs) \<and> gp_TailnetID ` set gs \<inter> set tailnets = {}
     \<and> distinct (map gp_GrantID gs) \<and> gp_GrantID ` set gs \<inter> set grants = {}
     \<and> list_all (key_ok E) (concat (map gp_Keys gs))
     \<and> distinct (map (key_public E) (concat (map gp_Keys gs)))
     \<and> key_public E ` set (concat (map gp_Keys gs)) \<inter> set keys = {}
     \<and> length (concat (map gp_Keys gs)) + length keys \<le> 65536
     \<and> tailnets' = rev (map gp_TailnetID gs) @ tailnets \<and> grants' = rev (map gp_GrantID gs) @ grants
     \<and> keys' = rev (map (key_public E) (concat (map gp_Keys gs))) @ keys"
  using assms
proof (induction gs arbitrary: tailnets grants keys)
  case Nil
  then show ?case by auto
next
  case (Cons g gs)
  show ?case
  proof (cases "validate_keys E (gp_Keys g) keys")
    case (Inl e)
    then have "\<not> (list_all (key_ok E) (gp_Keys g) \<and> distinct (map (key_public E) (gp_Keys g))
        \<and> key_public E ` set (gp_Keys g) \<inter> set keys = {} \<and> length (gp_Keys g) + length keys \<le> 65536)"
      using validate_keys_iff [OF Cons.prems, of E "gp_Keys g"] by fastforce
    with Inl show ?thesis by (auto simp: bindE_def)
  next
    case (Inr keys1)
    note k1 = Inr [unfolded validate_keys_iff [OF Cons.prems]]
    have "length keys1 \<le> 65536" using Inr Cons.prems by (rule validate_keys_length)
    note IH = Cons.IH [OF this]
    show ?thesis
    proof (cases "grant_ok g \<and> gp_TailnetID g \<notin> set tailnets \<and> gp_GrantID g \<notin> set grants")
      case True
      with Inr have eq: "validate_grants E (g # gs) tailnets grants keys =
          validate_grants E gs (gp_TailnetID g # tailnets) (gp_GrantID g # grants) keys1"
        by (simp add: grant_ok_def)
      define K where "K = concat (map gp_Keys gs)"
      then have K: "concat (map gp_Keys (g # gs)) = gp_Keys g @ K" by simp
      show ?thesis
        unfolding eq IH K K_def [symmetric] using True k1 by auto
    next
      case False
      then have "\<exists>e. validate_grants E (g # gs) tailnets grants keys = Inl e"
        by (auto simp: grant_ok_def)
      with False show ?thesis by auto
    qed
  qed
qed

text \<open>Lists of distinct ids, one inside the other, have the same length when they are the same set.\<close>

lemma distinct_subset_length_iff:
  "distinct xs \<Longrightarrow> distinct ys \<Longrightarrow> set xs \<subseteq> set ys \<Longrightarrow> length xs = length ys \<longleftrightarrow> set xs = set ys"
  by (metis card_subset_eq distinct_card finite_set)

lemma ValidatePolicy_valid:
  "ValidatePolicy E p clusterID nodeID = Inr u \<longleftrightarrow> policy_valid E p clusterID nodeID"
proof -
  let ?rules = "map tq_TailnetID (q_Tailnets (p_QoS p))"
  let ?tailnets = "map gp_TailnetID (p_Grants p)"
  have "ValidatePolicy E p clusterID nodeID = Inr u \<longleftrightarrow>
      validID clusterID \<and> validID nodeID \<and> p_ClusterID p = clusterID \<and> p_NodeID p = nodeID
      \<and> p_Revision p \<noteq> 0 \<and> p_GeneratedAt p \<noteq> zero_time
      \<and> qos_valid (p_QoS p) \<and> length (p_Grants p) \<le> 4096
      \<and> list_all grant_ok (p_Grants p)
      \<and> distinct ?tailnets \<and> distinct (map gp_GrantID (p_Grants p))
      \<and> list_all (key_ok E) (policy_keys p) \<and> distinct (map (key_public E) (policy_keys p))
      \<and> length (policy_keys p) \<le> 65536
      \<and> distinct ?rules \<and> set ?rules \<subseteq> set ?tailnets \<and> length ?rules = length ?tailnets"
    by (auto simp: ValidatePolicy_def policy_keys_def res_simps ValidateQoS_iff validate_grants_iff
        scan_unique_Inr list_all_iff qos_valid_def split: if_splits)
  also have "\<dots> \<longleftrightarrow> policy_valid E p clusterID nodeID"
    using distinct_subset_length_iff [of ?rules ?tailnets]
    by (auto simp: policy_valid_def qos_valid_def)
  finally show ?thesis .
qed

section \<open>The length of an encoded policy, and decoding one\<close>

definition json_char_len :: "char \<Rightarrow> nat" where
  "json_char_len c =
     (if c = CHR 0x22 \<or> c = CHR 0x5C \<or> c = CHR 0x08 \<or> c = CHR 0x0C \<or> c = CHR 0x0A \<or> c = CHR 0x0D
         \<or> c = CHR 0x09 then 2
      else if c < CHR 0x20 \<or> c = CHR ''<'' \<or> c = CHR ''>'' \<or> c = CHR 0x26 then 6 else 1)"

definition json_string_len :: "string \<Rightarrow> nat" where
  "json_string_len s = 2 + sum_list (map json_char_len s)"

definition json_nat_len :: "nat \<Rightarrow> nat" where
  "json_nat_len n = length (show_nat n)"

text \<open>
  A time is quoted RFC 3339 in UTC with the fraction's trailing zeros dropped:
  twenty characters, and a point and up to nine digits when there is a fraction.
\<close>

fun fraction_digits :: "nat \<Rightarrow> nat \<Rightarrow> nat" where
  "fraction_digits 0 n = 0"
| "fraction_digits (Suc w) n = (if n mod 10 = 0 then fraction_digits w (n div 10) else Suc w)"

definition json_time_len :: "time \<Rightarrow> nat" where
  "json_time_len t =
     22 + (let f = nat (t mod 1000000000) in if f = 0 then 0 else Suc (fraction_digits 9 f))"

text \<open>An object: braces, commas, and each field with its quoted name and a colon; an array: brackets and commas.\<close>

definition json_object_len :: "(string \<times> nat) list \<Rightarrow> nat" where
  "json_object_len fs = 2 + sum_list (map (\<lambda>(n, l). length n + 3 + l) fs) + (length fs - 1)"

definition json_array_len :: "nat list \<Rightarrow> nat" where
  "json_array_len ls = 2 + sum_list ls + (length ls - 1)"

definition device_key_size :: "device_key \<Rightarrow> nat" where
  "device_key_size k = json_object_len
     [(''node_public'', json_string_len (dk_NodePublic k)), (''not_after'', json_time_len (dk_NotAfter k))]"

definition grant_policy_size :: "grant_policy \<Rightarrow> nat" where
  "grant_policy_size g = json_object_len
     [(''grant_id'', json_string_len (gp_GrantID g)), (''grant_revision'', json_nat_len (gp_GrantRevision g)),
      (''tailnet_id'', json_string_len (gp_TailnetID g)),
      (''last_identity_success'', json_time_len (gp_LastIdentitySuccess g)),
      (''identity_until'', json_time_len (gp_IdentityUntil g)),
      (''control_until'', json_time_len (gp_ControlUntil g)),
      (''explicit_until'', json_time_len (gp_ExplicitUntil g)),
      (''keys'', json_array_len (map device_key_size (gp_Keys g)))]"

definition tailnet_qos_size :: "tailnet_qos \<Rightarrow> nat" where
  "tailnet_qos_size t = json_object_len
     [(''tailnet_id'', json_string_len (tq_TailnetID t)), (''group'', json_string_len (tq_Group t)),
      (''weight'', json_nat_len (tq_Weight t)), (''max_bps'', json_nat_len (tq_MaxBPS t))]"

definition qos_policy_size :: "qos_policy \<Rightarrow> nat" where
  "qos_policy_size q = json_object_len
     [(''budget_bps'', json_nat_len (q_BudgetBPS q)), (''owner_weight'', json_nat_len (q_OwnerWeight q)),
      (''shared_weight'', json_nat_len (q_SharedWeight q)),
      (''shared_max_bps'', json_nat_len (q_SharedMaxBPS q)),
      (''tailnets'', json_array_len (map tailnet_qos_size (q_Tailnets q)))]"

definition policy_size :: "policy \<Rightarrow> nat" where
  "policy_size p = json_object_len
     [(''cluster_id'', json_string_len (p_ClusterID p)), (''node_id'', json_string_len (p_NodeID p)),
      (''revision'', json_nat_len (p_Revision p)), (''generated_at'', json_time_len (p_GeneratedAt p)),
      (''grants'', json_array_len (map grant_policy_size (p_Grants p))),
      (''qos'', qos_policy_size (p_QoS p))]"

definition MaxPolicyBytes :: nat where
  "MaxPolicyBytes = 8388608"

text \<open>
  \<^verbatim>\<open>DecodePolicy\<close> of a text, given by its length and the policy it is the document of:
  \<open>None\<close> for a text that is not exactly one policy document.
\<close>

definition DecodePolicy :: "env \<Rightarrow> nat \<Rightarrow> policy option \<Rightarrow> string \<Rightarrow> string \<Rightarrow> policy result" where
  "DecodePolicy E len body clusterID nodeID =
     (if MaxPolicyBytes < len then Inl (ErrMsg ''policy unreadable or too large'')
      else case body of
        None \<Rightarrow> Inl (ErrMsg ''decode policy'')
      | Some p \<Rightarrow> bindE (ValidatePolicy E p clusterID nodeID) (\<lambda>_. Inr p))"

lemma DecodePolicy_Inr:
  "DecodePolicy E len body clusterID nodeID = Inr p \<longleftrightarrow>
     body = Some p \<and> len \<le> MaxPolicyBytes \<and> policy_valid E p clusterID nodeID"
  by (auto simp: DecodePolicy_def res_simps ValidatePolicy_valid split: option.splits)

section \<open>Challenges and the node's domain responder\<close>

text \<open>
  A challenge is signed as its JSON text, which determines it; for the proof over the
  node's own domain the purpose is replaced first.
\<close>

definition DomainSigning :: "node_challenge \<Rightarrow> node_challenge" where
  "DomainSigning c = c\<lparr>ch_Purpose := ''domain''\<rparr>"

record domain_responder =
  dr_privateKey :: string
  dr_challenge :: "node_challenge option"

definition NewDomainResponder :: "string \<Rightarrow> domain_responder" where
  "NewDomainResponder key = \<lparr>dr_privateKey = key, dr_challenge = None\<rparr>"

definition SetChallenge :: "node_challenge \<Rightarrow> domain_responder \<Rightarrow> domain_responder" where
  "SetChallenge c h = h\<lparr>dr_challenge := Some c\<rparr>"

text \<open>
  \<^verbatim>\<open>ServeHTTP\<close>: the signature, or \<open>None\<close> for \<^verbatim>\<open>http.NotFound\<close>. Before the first
  \<^verbatim>\<open>SetChallenge\<close> the nonce is empty, which is \<open>None\<close> here.
\<close>

definition DomainResponder_ServeHTTP ::
    "env \<Rightarrow> domain_responder \<Rightarrow> time \<Rightarrow> string \<Rightarrow> string \<Rightarrow> string \<Rightarrow> string option" where
  "DomainResponder_ServeHTTP E h now httpMethod rawQuery path =
     (case dr_challenge h of
        None \<Rightarrow> None
      | Some c \<Rightarrow>
          if httpMethod \<noteq> ''GET'' \<or> rawQuery \<noteq> [] \<or> ch_Nonce c = []
             \<or> path \<noteq> ''/cluster/v1/domain-challenge/'' @ ch_Nonce c \<or> \<not> now < ch_ExpiresAt c
             \<or> CHR ''/'' \<in> set (ch_Nonce c)
          then None
          else Some (ed_sign E (dr_privateKey h) (DomainSigning c)))"

lemma ServeHTTP_Some:
  "DomainResponder_ServeHTTP E h now httpMethod rawQuery path = Some sig \<Longrightarrow>
     \<exists>c. dr_challenge h = Some c \<and> path = ''/cluster/v1/domain-challenge/'' @ ch_Nonce c
       \<and> ch_Nonce c \<noteq> [] \<and> now < ch_ExpiresAt c \<and> sig = ed_sign E (dr_privateKey h) (DomainSigning c)"
  by (auto simp: DomainResponder_ServeHTTP_def split: option.splits if_splits)

section \<open>A concrete instance\<close>

text \<open>
  Concrete functions for the parameter, with the behaviour the sources rely on, and a small
  policy: the inputs on which the hypotheses of the properties are shown to hold.
\<close>

definition sample_env :: env where
  "sample_env = \<lparr>
     np_unmarshal = (\<lambda>s. if take 8 s = ''nodekey:'' then Some (drop 8 s) else None),
     np_is_zero = (\<lambda>k. k = ''00''), np_string = (\<lambda>k. ''nodekey:'' @ k),
     tokenHash = (\<lambda>s. CHR ''h'' # s), requestDigest = (\<lambda>r. er_Code r @ er_Signature r),
     sha256_policy = (\<lambda>p. of_nat (p_Revision p)),
     ed_public = (\<lambda>k. k), ed_sign = (\<lambda>k c. take 64 (k @ ch_Purpose c @ ch_Nonce c @ replicate 64 CHR '' '')),
     ed_verify = (\<lambda>k c sig. sig = take 64 (k @ ch_Purpose c @ ch_Nonce c @ replicate 64 CHR '' '')),
     seal_session = (\<lambda>ses nonce aad. ses_Token ses), open_session = (\<lambda>c aad.
       Some \<lparr>ses_ClusterID = ''c'', ses_NodeID = ''n'', ses_InstanceID = ''i'', ses_Token = c,
         ses_ExpiresAt = unix_time 3900, ses_LeaseUntil = unix_time 390\<rparr>),
     seal_credential = (\<lambda>c nonce aad. oc_ClientID c @ CHR ''|'' # oc_ClientSecret c),
     open_credential = (\<lambda>c aad. (case split_at CHR ''|'' c of
        [i, k] \<Rightarrow> Some \<lparr>oc_ClientID = i, oc_ClientSecret = k\<rparr> | _ \<Rightarrow> None)),
     bcrypt_hash = (\<lambda>p salt. p), bcrypt_compare = (\<lambda>h p. h = p)\<rparr>"

definition sample_grant :: grant_policy where
  "sample_grant = \<lparr>gp_GrantID = ''g1'', gp_GrantRevision = 3, gp_TailnetID = ''t1'',
     gp_LastIdentitySuccess = unix_time 100, gp_IdentityUntil = unix_time 1000,
     gp_ControlUntil = unix_time 900, gp_ExplicitUntil = zero_time,
     gp_Keys = [\<lparr>dk_NodePublic = ''nodekey:a1'', dk_NotAfter = zero_time\<rparr>,
                \<lparr>dk_NodePublic = ''nodekey:b2'', dk_NotAfter = unix_time 500\<rparr>]\<rparr>"

definition sample_qos :: qos_policy where
  "sample_qos = \<lparr>q_BudgetBPS = 1000, q_OwnerWeight = 8, q_SharedWeight = 2, q_SharedMaxBPS = 0,
     q_Tailnets = [\<lparr>tq_TailnetID = ''t1'', tq_Group = ''shared'', tq_Weight = 1, tq_MaxBPS = 0\<rparr>]\<rparr>"

definition sample_policy :: policy where
  "sample_policy = \<lparr>p_ClusterID = ''c'', p_NodeID = ''n'', p_Revision = 7, p_GeneratedAt = unix_time 200,
     p_Grants = [sample_grant], p_QoS = sample_qos\<rparr>"

lemmas sample_defs = sample_policy_def sample_grant_def sample_qos_def sample_env_def unix_time_def zero_time_def

lemma sample_policy_valid: "policy_valid sample_env sample_policy ''c'' ''n''"
  by (simp add: sample_defs policy_valid_def validID_def qos_valid_def grant_ok_def key_ok_def key_public_def
      policy_keys_def badRule_def validWeight_def validCeiling_def MaxInt64_def TrimSpace_id is_graph_def
      less_eq_char_def)

lemma sample_policy_size: "policy_size sample_policy \<le> MaxPolicyBytes"
  by (simp add: sample_defs policy_size_def grant_policy_size_def device_key_size_def qos_policy_size_def
      tailnet_qos_size_def json_object_len_def json_array_len_def json_string_len_def json_char_len_def
      json_time_len_def json_nat_len_def show_nat.simps MaxPolicyBytes_def less_char_def)

section \<open>Properties\<close>

text \<open>C2: \<^verbatim>\<open>ValidatePolicy\<close> accepts exactly the policies bound to the cluster and node asked
  for that are well formed: a revision and a time, a valid budget, bounded numbers of grants
  and keys, no tailnet, grant or device key twice, every deadline set and in order, every
  key parseable, and one bandwidth rule per granted tailnet and none else.\<close>

theorem ValidatePolicy_exact:
  "ValidatePolicy E p clusterID nodeID = Inr () \<longleftrightarrow> policy_valid E p clusterID nodeID"
  by (rule ValidatePolicy_valid)

text \<open>C3: \<^verbatim>\<open>EffectiveUntil\<close> is the least of the deadlines that are set: the identity deadline
  always counts, the control deadline, the explicit one and the key's own expiry count unless
  they are the zero time. A key may therefore be used only while every deadline lies ahead.\<close>

theorem EffectiveUntil_least:
  "EffectiveUntil g k = Min (insert (gp_IdentityUntil g)
     {d \<in> {gp_ControlUntil g, gp_ExplicitUntil g, dk_NotAfter k}. d \<noteq> zero_time})"
proof -
  have "set_deadlines g k = insert (gp_IdentityUntil g)
      {d \<in> {gp_ControlUntil g, gp_ExplicitUntil g, dk_NotAfter k}. d \<noteq> zero_time}"
    by (auto simp: set_deadlines_def)
  then show ?thesis by (simp add: EffectiveUntil_Min)
qed

end
