(* ===== verification/Cache.thy ===== *)
theory Cache
  imports Protocol
begin

text \<open>
  The node's policy cache, \<^verbatim>\<open>internal/cluster/cache.go\<close>: a snapshot file and the watermark
  file that guards it against being rolled back. Each file is replaced by a rename, so a
  replacement happens completely or not at all; \<open>write_outcome\<close> says how far one got, and
  a crash between the two replacements of \<^verbatim>\<open>saveCacheAt\<close> leaves the files as a second
  replacement that failed before its rename does.

  The interface of the cache to the control loop is the locale \<open>guarded_cache\<close>: what was
  accepted never decreases, and what is loaded is what was accepted last.
\<close>

section \<open>Files\<close>

record cache_watermark =
  wm_ClusterID :: string
  wm_NodeID :: string
  wm_Revision :: nat
  wm_Digest :: string
  wm_ObservedAt :: time

text \<open>
  The bytes of the snapshot file by what the code reads of them: their digest, their
  number, and the policy they decode to. The watermark file is absent, something that does
  not decode (or is longer than 4096 bytes), or a watermark.
\<close>

record snapshot_file =
  sf_digest :: string
  sf_len :: nat
  sf_policy :: "policy option"

record cache_files =
  cf_watermark :: "cache_watermark option option"
  cf_snapshot :: "snapshot_file option"

datatype write_outcome = Written | FailedBefore | FailedAfter

section \<open>Operations\<close>

definition hex_char :: "4 word \<Rightarrow> char" where
  "hex_char n = (''0123456789abcdef'' ! unat n)"

text \<open>\<^verbatim>\<open>hex.EncodeToString\<close> of the 32 bytes of a digest, high nibble first.\<close>

definition hex_digest :: "256 word \<Rightarrow> string" where
  "hex_digest w = map (\<lambda>i. hex_char (ucast (drop_bit (4 * i) w))) (rev [0..<64])"

definition cacheDigest :: "env \<Rightarrow> policy \<Rightarrow> string" where
  "cacheDigest E p = hex_digest (sha256_policy E p)"

definition validNodeToken :: "string \<Rightarrow> bool" where
  "validNodeToken s \<longleftrightarrow> hex_ok s \<and> length s = 64"

definition valid_watermark :: "cache_watermark \<Rightarrow> bool" where
  "valid_watermark m \<longleftrightarrow> wm_ClusterID m \<noteq> [] \<and> wm_NodeID m \<noteq> [] \<and> wm_Revision m \<noteq> 0
     \<and> validNodeToken (wm_Digest m) \<and> wm_ObservedAt m \<noteq> zero_time"

definition readCacheWatermark :: "cache_files \<Rightarrow> cache_watermark result" where
  "readCacheWatermark fs =
     (case cf_watermark fs of
        None \<Rightarrow> Inl ErrNotExist
      | Some None \<Rightarrow> Inl (ErrMsg ''invalid cache watermark'')
      | Some (Some m) \<Rightarrow> if valid_watermark m then Inr m else Inl (ErrMsg ''invalid cache watermark''))"

text \<open>
  \<^verbatim>\<open>writeCacheFile\<close>: the rename is the commit point; the directory is synchronised after it.
\<close>

definition writeCacheFile :: "write_outcome \<Rightarrow> ('f \<Rightarrow> 'f) \<Rightarrow> 'f \<Rightarrow> unit result \<times> 'f" where
  "writeCacheFile w replace fs =
     (case w of
        Written \<Rightarrow> (Inr (), replace fs)
      | FailedBefore \<Rightarrow> (Inl (ErrMsg ''write failed''), fs)
      | FailedAfter \<Rightarrow> (Inl (ErrMsg ''directory sync failed''), replace fs))"

definition put_watermark :: "cache_watermark \<Rightarrow> cache_files \<Rightarrow> cache_files" where
  "put_watermark m fs = fs\<lparr>cf_watermark := Some (Some m)\<rparr>"

definition put_snapshot :: "env \<Rightarrow> policy \<Rightarrow> cache_files \<Rightarrow> cache_files" where
  "put_snapshot E p fs =
     fs\<lparr>cf_snapshot := Some \<lparr>sf_digest = cacheDigest E p, sf_len = policy_size p, sf_policy = Some p\<rparr>\<rparr>"

text \<open>
  The part of \<^verbatim>\<open>saveCacheAt\<close> before the first write: the watermark it is going to write.
\<close>

definition next_watermark ::
    "env \<Rightarrow> string \<Rightarrow> policy \<Rightarrow> time \<Rightarrow> cache_files \<Rightarrow> cache_watermark result" where
  "next_watermark E path p now fs =
     (if path = [] \<or> now = zero_time then Inl (ErrMsg ''invalid cache location or clock'')
      else bindE (ValidatePolicy E p (p_ClusterID p) (p_NodeID p)) (\<lambda>_.
        if MaxPolicyBytes < policy_size p then Inl (ErrMsg ''invalid cache policy'')
        else bindE
          (case readCacheWatermark fs of
             Inl e \<Rightarrow>
               if e = ErrNotExist
               then (if cf_snapshot fs \<noteq> None then Inl (ErrMsg ''cache watermark missing'')
                     else Inr \<lparr>wm_ClusterID = p_ClusterID p, wm_NodeID = p_NodeID p, wm_Revision = 0,
                               wm_Digest = [], wm_ObservedAt = now\<rparr>)
               else Inl e
           | Inr m \<Rightarrow> Inr m)
          (\<lambda>m.
            if wm_ClusterID m \<noteq> p_ClusterID p \<or> wm_NodeID m \<noteq> p_NodeID p \<or> p_Revision p < wm_Revision m
               \<or> p_Revision p = wm_Revision m \<and> cacheDigest E p \<noteq> wm_Digest m
            then Inl (ErrMsg ''cache identity or revision conflict'')
            else if now < wm_ObservedAt m - 5 * second then Inl (ErrMsg ''node clock moved backwards'')
            else Inr (m\<lparr>wm_ObservedAt := max now (wm_ObservedAt m), wm_Revision := p_Revision p,
                        wm_Digest := cacheDigest E p\<rparr>))))"

definition saveCacheAt ::
    "env \<Rightarrow> string \<Rightarrow> policy \<Rightarrow> time \<Rightarrow> write_outcome \<Rightarrow> write_outcome \<Rightarrow> cache_files
      \<Rightarrow> unit result \<times> cache_files" where
  "saveCacheAt E path p now w1 w2 fs =
     (case next_watermark E path p now fs of
        Inl e \<Rightarrow> (Inl e, fs)
      | Inr m \<Rightarrow>
          (case writeCacheFile w1 (put_watermark m) fs of
             (Inl e, fs1) \<Rightarrow> (Inl e, fs1)
           | (Inr _, fs1) \<Rightarrow> writeCacheFile w2 (put_snapshot E p) fs1))"

definition LoadCache ::
    "env \<Rightarrow> string \<Rightarrow> string \<Rightarrow> time \<Rightarrow> write_outcome \<Rightarrow> cache_files \<Rightarrow> policy result \<times> cache_files" where
  "LoadCache E clusterID nodeID now w fs =
     (if now = zero_time then (Inl (ErrMsg ''invalid cache clock''), fs)
      else case readCacheWatermark fs of
        Inl e \<Rightarrow> (Inl e, fs)
      | Inr m \<Rightarrow>
          if wm_ClusterID m \<noteq> clusterID \<or> wm_NodeID m \<noteq> nodeID \<or> now < wm_ObservedAt m - 5 * second
          then (Inl (ErrMsg ''cache binding or clock conflict''), fs)
          else case cf_snapshot fs of
            None \<Rightarrow> (Inl ErrNotExist, fs)
          | Some f \<Rightarrow>
              if MaxPolicyBytes < sf_len f \<or> sf_digest f \<noteq> wm_Digest m
              then (Inl (ErrMsg ''cache snapshot does not match watermark''), fs)
              else case DecodePolicy E (sf_len f) (sf_policy f) clusterID nodeID of
                Inl e \<Rightarrow> (Inl (ErrMsg ''invalid cached policy''), fs)
              | Inr p \<Rightarrow>
                  if p_Revision p \<noteq> wm_Revision m then (Inl (ErrMsg ''invalid cached policy''), fs)
                  else if wm_ObservedAt m < now
                  then (case writeCacheFile w (put_watermark (m\<lparr>wm_ObservedAt := now\<rparr>)) fs of
                          (Inl e, fs1) \<Rightarrow> (Inl e, fs1)
                        | (Inr _, fs1) \<Rightarrow> (Inr p, fs1))
                  else (Inr p, fs))"

text \<open>
  \<^verbatim>\<open>os.Remove(path)\<close> of \<^verbatim>\<open>RunControl\<close> after an identity conflict takes the snapshot only;
  \<^verbatim>\<open>RemoveCache\<close>, when the node leaves its cluster, takes both files.
\<close>

definition remove_snapshot :: "cache_files \<Rightarrow> cache_files" where
  "remove_snapshot fs = fs\<lparr>cf_snapshot := None\<rparr>"

definition RemoveCache :: "string \<Rightarrow> bool \<Rightarrow> bool \<Rightarrow> bool \<Rightarrow> cache_files \<Rightarrow> unit result \<times> cache_files" where
  "RemoveCache path failSnapshot failWatermark failSync fs =
     (if path = [] then (Inl (ErrMsg ''invalid cache location''), fs)
      else (if failSnapshot \<or> failWatermark then Inl (ErrMsg ''remove failed'')
            else if failSync then Inl (ErrMsg ''directory sync failed'') else Inr (),
            \<lparr>cf_watermark = (if failWatermark then cf_watermark fs else None),
             cf_snapshot = (if failSnapshot then cf_snapshot fs else None)\<rparr>))"

section \<open>Digests\<close>

lemma is_hex_hex_char: "is_hex (hex_char n)"
proof -
  have "unat n < 16" using unsigned_less [of n, where ?'a = nat] by simp
  then have "hex_char n \<in> set ''0123456789abcdef''"
    unfolding hex_char_def by (intro nth_mem) simp
  then show ?thesis by (auto simp: is_hex_def less_eq_char_def)
qed

lemma validNodeToken_cacheDigest [simp]: "validNodeToken (cacheDigest E p)"
  by (simp add: validNodeToken_def hex_ok_def cacheDigest_def hex_digest_def list_all_iff is_hex_hex_char)

lemma cacheDigest_not_Nil [simp]: "cacheDigest E p \<noteq> []"
  by (simp add: cacheDigest_def hex_digest_def)

lemma hex_char_inject: "hex_char m = hex_char n \<longleftrightarrow> m = n"
proof
  assume eq: "hex_char m = hex_char n"
  have "distinct ''0123456789abcdef''" by simp
  moreover have "unat m < 16" "unat n < 16" using unsigned_less [of m, where ?'a = nat] unsigned_less [of n, where ?'a = nat] by simp_all
  ultimately have "unat m = unat n" using eq by (simp add: hex_char_def nth_eq_iff_index_eq)
  then show "m = n" by (simp add: word_unat_eq_iff)
qed simp

text \<open>Two snapshots have the same digest text only when SHA-256 gives them the same 256 bits.\<close>

lemma hex_digest_inject: "hex_digest v = hex_digest w \<longleftrightarrow> v = w"
proof
  assume eq: "hex_digest v = hex_digest w"
  have nib: "(ucast (drop_bit (4 * i) v) :: 4 word) = ucast (drop_bit (4 * i) w)" if "i < 64" for i
    using eq that by (auto simp: hex_digest_def hex_char_inject map_eq_conv)
  show "v = w"
  proof (rule bit_word_eqI)
    fix n assume "n < LENGTH(256)"
    then have "n div 4 < 64" by simp
    from nib [OF this] have "bit (ucast (drop_bit (4 * (n div 4)) v) :: 4 word) (n mod 4) =
        bit (ucast (drop_bit (4 * (n div 4)) w) :: 4 word) (n mod 4)" by simp
    then show "bit v n = bit w n"
      by (simp add: bit_simps)
  qed
qed simp

section \<open>The interface of a guarded cache\<close>

text \<open>
  \<open>accepted s\<close> is the binding, revision and digest of the policy accepted last. A step
  never takes it back, and what loads is what was accepted.
\<close>

locale guarded_cache =
  fixes accepted :: "'s \<Rightarrow> ('b \<times> nat \<times> 'd) option"
    and step :: "'s \<Rightarrow> 's \<Rightarrow> bool"
    and loads :: "'s \<Rightarrow> 'b \<Rightarrow> nat \<Rightarrow> 'd \<Rightarrow> bool"
  assumes step_keeps: "step s t \<Longrightarrow> accepted s = Some (b, r, d) \<Longrightarrow>
      \<exists>r' d'. accepted t = Some (b, r', d') \<and> (r < r' \<or> r = r' \<and> d = d')"
    and loads_accepted: "loads s b r d \<Longrightarrow> accepted s = Some (b, r, d)"
begin

lemma steps_keep:
  assumes "step\<^sup>*\<^sup>* s t" and "accepted s = Some (b, r, d)"
  shows "\<exists>r' d'. accepted t = Some (b, r', d') \<and> (r < r' \<or> r = r' \<and> d = d')"
  using assms
proof (induction rule: rtranclp_induct)
  case base
  then show ?case by simp
next
  case (step t u)
  then obtain r' d' where "accepted t = Some (b, r', d')" "r < r' \<or> r = r' \<and> d = d'" by blast
  moreover from step_keeps [OF step.hyps(2) this(1)]
  obtain r'' d'' where "accepted u = Some (b, r'', d'')" "r' < r'' \<or> r' = r'' \<and> d' = d''" by blast
  ultimately show ?case by auto
qed

lemma no_rollback:
  assumes "step\<^sup>*\<^sup>* s t" and "accepted s = Some (b, r, d)" and "loads t b' r' d'"
  shows "b' = b \<and> (r < r' \<or> r = r' \<and> d = d')"
  using steps_keep [OF assms(1,2)] loads_accepted [OF assms(3)] by auto

end

section \<open>The cache implements it\<close>

definition accepted :: "cache_files \<Rightarrow> ((string \<times> string) \<times> nat \<times> string) option" where
  "accepted fs = (case readCacheWatermark fs of Inl _ \<Rightarrow> None
     | Inr m \<Rightarrow> Some ((wm_ClusterID m, wm_NodeID m), wm_Revision m, wm_Digest m))"

text \<open>What the control loop does with its cache between two departures from a cluster.\<close>

inductive cache_step :: "env \<Rightarrow> cache_files \<Rightarrow> cache_files \<Rightarrow> bool" for E where
  Save: "cache_step E fs (snd (saveCacheAt E path p now w1 w2 fs))"
| Load: "cache_step E fs (snd (LoadCache E clusterID nodeID now w fs))"
| Drop: "cache_step E fs (remove_snapshot fs)"

inductive_cases cache_stepE: "cache_step E fs fs'"

text \<open>The snapshot file is a document the cache wrote.\<close>

definition snapshot_intact :: "env \<Rightarrow> cache_files \<Rightarrow> bool" where
  "snapshot_intact E fs \<longleftrightarrow> (case cf_snapshot fs of None \<Rightarrow> True
     | Some f \<Rightarrow> (case sf_policy f of None \<Rightarrow> False | Some p \<Rightarrow> sf_digest f = cacheDigest E p))"

definition cache_loads :: "env \<Rightarrow> cache_files \<Rightarrow> string \<times> string \<Rightarrow> nat \<Rightarrow> string \<Rightarrow> bool" where
  "cache_loads E fs b r d \<longleftrightarrow> snapshot_intact E fs
     \<and> (\<exists>now w p. fst (LoadCache E (fst b) (snd b) now w fs) = Inr p \<and> r = p_Revision p \<and> d = cacheDigest E p)"

lemma readCacheWatermark_Inr [res_simps]:
  "readCacheWatermark fs = Inr m \<longleftrightarrow> cf_watermark fs = Some (Some m) \<and> valid_watermark m"
  by (auto simp: readCacheWatermark_def split: option.splits)

lemma readCacheWatermark_missing:
  "readCacheWatermark fs = Inl ErrNotExist \<longleftrightarrow> cf_watermark fs = None"
  by (auto simp: readCacheWatermark_def split: option.splits)

lemma accepted_Some: "accepted fs = Some (b, r, d) \<longleftrightarrow> (\<exists>m. cf_watermark fs = Some (Some m)
    \<and> valid_watermark m \<and> b = (wm_ClusterID m, wm_NodeID m) \<and> r = wm_Revision m \<and> d = wm_Digest m)"
  unfolding accepted_def readCacheWatermark_def by (auto split: option.splits)

text \<open>The watermark a save is going to write: of the policy, valid, and never older than the one that is there.\<close>

lemma next_watermark_base:
  assumes "next_watermark E path p now fs = Inr m"
  obtains m0 where "m = m0\<lparr>wm_ObservedAt := max now (wm_ObservedAt m0), wm_Revision := p_Revision p,
      wm_Digest := cacheDigest E p\<rparr>"
    and "wm_ClusterID m0 = p_ClusterID p" and "wm_NodeID m0 = p_NodeID p"
    and "wm_Revision m0 < p_Revision p \<or> wm_Revision m0 = p_Revision p \<and> wm_Digest m0 = cacheDigest E p"
    and "now \<noteq> zero_time" and "wm_ObservedAt m0 \<noteq> zero_time"
    and "policy_valid E p (p_ClusterID p) (p_NodeID p)" and "policy_size p \<le> MaxPolicyBytes"
    and "\<forall>m'. readCacheWatermark fs = Inr m' \<longrightarrow> m0 = m'"
proof -
  have base: "ValidatePolicy E p (p_ClusterID p) (p_NodeID p) = Inr ()" "now \<noteq> zero_time"
      "policy_size p \<le> MaxPolicyBytes" "path \<noteq> []"
    using assms by (auto simp: next_watermark_def bindE_Inr_iff split: if_splits)
  then have valid: "policy_valid E p (p_ClusterID p) (p_NodeID p)" by (simp add: ValidatePolicy_valid)
  then have rev: "0 < p_Revision p" by (simp add: policy_valid_def)
  show thesis
  proof (cases "readCacheWatermark fs")
    case (Inl e)
    with assms base valid rev show thesis
      by (intro that [of "\<lparr>wm_ClusterID = p_ClusterID p, wm_NodeID = p_NodeID p, wm_Revision = 0,
            wm_Digest = [], wm_ObservedAt = now\<rparr>"])
        (auto simp: next_watermark_def split: if_splits)
  next
    case (Inr m0)
    then have "wm_ObservedAt m0 \<noteq> zero_time" by (simp add: readCacheWatermark_Inr valid_watermark_def)
    with Inr assms base valid show thesis
      by (intro that [of m0]) (auto simp: next_watermark_def split: if_splits)
  qed
qed

lemma policy_valid_ids:
  "policy_valid E p clusterID nodeID \<Longrightarrow> p_ClusterID p = clusterID \<and> p_NodeID p = nodeID
     \<and> clusterID \<noteq> [] \<and> nodeID \<noteq> [] \<and> 0 < p_Revision p"
  by (simp add: policy_valid_def validID_def)

lemma next_watermark_Inr:
  assumes "next_watermark E path p now fs = Inr m"
  shows "valid_watermark m" and "wm_ClusterID m = p_ClusterID p" and "wm_NodeID m = p_NodeID p"
    and "wm_Revision m = p_Revision p" and "wm_Digest m = cacheDigest E p" and "now \<le> wm_ObservedAt m"
    and "policy_valid E p (p_ClusterID p) (p_NodeID p)" and "policy_size p \<le> MaxPolicyBytes"
proof -
  from assms obtain m0 where "m = m0\<lparr>wm_ObservedAt := max now (wm_ObservedAt m0),
      wm_Revision := p_Revision p, wm_Digest := cacheDigest E p\<rparr>"
    and "wm_ClusterID m0 = p_ClusterID p" and "wm_NodeID m0 = p_NodeID p"
    and "now \<noteq> zero_time" and "wm_ObservedAt m0 \<noteq> zero_time"
    and p: "policy_valid E p (p_ClusterID p) (p_NodeID p)" and size: "policy_size p \<le> MaxPolicyBytes"
    by (rule next_watermark_base)
  with policy_valid_ids [OF p]
  show "valid_watermark m" and "wm_ClusterID m = p_ClusterID p" and "wm_NodeID m = p_NodeID p"
    and "wm_Revision m = p_Revision p" and "wm_Digest m = cacheDigest E p" and "now \<le> wm_ObservedAt m"
    by (simp_all add: valid_watermark_def max_def)
  from p size show "policy_valid E p (p_ClusterID p) (p_NodeID p)" and "policy_size p \<le> MaxPolicyBytes" .
qed

lemma next_watermark_newer:
  assumes "next_watermark E path p now fs = Inr m" and "cf_watermark fs = Some (Some m0)" "valid_watermark m0"
  shows "wm_ClusterID m0 = p_ClusterID p" and "wm_NodeID m0 = p_NodeID p"
    and "wm_Revision m0 < p_Revision p \<or> wm_Revision m0 = p_Revision p \<and> wm_Digest m0 = cacheDigest E p"
    and "wm_ObservedAt m = max now (wm_ObservedAt m0)"
proof -
  have "readCacheWatermark fs = Inr m0" using assms(2,3) by (simp add: readCacheWatermark_Inr)
  moreover from assms(1) obtain m1 where "m = m1\<lparr>wm_ObservedAt := max now (wm_ObservedAt m1),
      wm_Revision := p_Revision p, wm_Digest := cacheDigest E p\<rparr>"
    and "wm_ClusterID m1 = p_ClusterID p" and "wm_NodeID m1 = p_NodeID p"
    and "wm_Revision m1 < p_Revision p \<or> wm_Revision m1 = p_Revision p \<and> wm_Digest m1 = cacheDigest E p"
    and "\<forall>m'. readCacheWatermark fs = Inr m' \<longrightarrow> m1 = m'"
    by (rule next_watermark_base)
  ultimately show "wm_ClusterID m0 = p_ClusterID p" and "wm_NodeID m0 = p_NodeID p"
    and "wm_Revision m0 < p_Revision p \<or> wm_Revision m0 = p_Revision p \<and> wm_Digest m0 = cacheDigest E p"
    and "wm_ObservedAt m = max now (wm_ObservedAt m0)"
    by simp_all
qed

lemma saveCacheAt_accepted:
  assumes "next_watermark E path p now fs = Inr m" and "w1 \<noteq> FailedBefore"
  shows "accepted (snd (saveCacheAt E path p now w1 w2 fs)) =
    Some ((p_ClusterID p, p_NodeID p), p_Revision p, cacheDigest E p)"
  using assms(2) next_watermark_Inr(1-5) [OF assms(1)]
  by (auto simp: saveCacheAt_def assms(1) writeCacheFile_def put_watermark_def put_snapshot_def accepted_def
      readCacheWatermark_def split: write_outcome.splits)

lemma saveCacheAt_unchanged:
  assumes "\<And>m. next_watermark E path p now fs = Inr m \<Longrightarrow> w1 = FailedBefore"
  shows "snd (saveCacheAt E path p now w1 w2 fs) = fs"
  using assms by (auto simp: saveCacheAt_def writeCacheFile_def split: sum.splits)

lemma saveCacheAt_keeps:
  assumes acc: "accepted fs = Some (b, r, d)"
  shows "\<exists>r' d'. accepted (snd (saveCacheAt E path p now w1 w2 fs)) = Some (b, r', d')
    \<and> (r < r' \<or> r = r' \<and> d = d')"
proof (cases "\<exists>m. next_watermark E path p now fs = Inr m \<and> w1 \<noteq> FailedBefore")
  case True
  then obtain m where m: "next_watermark E path p now fs = Inr m" and w1: "w1 \<noteq> FailedBefore" by blast
  from acc obtain m0 where m0: "cf_watermark fs = Some (Some m0)" "valid_watermark m0"
    and eqs: "b = (wm_ClusterID m0, wm_NodeID m0)" "r = wm_Revision m0" "d = wm_Digest m0"
    by (auto simp: accepted_Some)
  show ?thesis
    using next_watermark_newer(1-3) [OF m m0] saveCacheAt_accepted [OF m w1] eqs by auto
next
  case False
  then have "snd (saveCacheAt E path p now w1 w2 fs) = fs"
    by (intro saveCacheAt_unchanged) blast
  with acc show ?thesis by simp
qed

text \<open>Loading writes nothing but the time of the watermark.\<close>

lemma LoadCache_files:
  "snd (LoadCache E clusterID nodeID now w fs) = fs \<or>
   (\<exists>m. readCacheWatermark fs = Inr m \<and> now \<noteq> zero_time
     \<and> snd (LoadCache E clusterID nodeID now w fs) = put_watermark (m\<lparr>wm_ObservedAt := now\<rparr>) fs)"
  by (auto simp: LoadCache_def writeCacheFile_def split: sum.splits option.splits write_outcome.splits)

lemma LoadCache_keeps: "accepted (snd (LoadCache E clusterID nodeID now w fs)) = accepted fs"
  using LoadCache_files [of E clusterID nodeID now w fs]
  by (auto simp: accepted_def readCacheWatermark_Inr)
    (auto simp: readCacheWatermark_def put_watermark_def valid_watermark_def)

lemma LoadCache_Inr:
  assumes "fst (LoadCache E clusterID nodeID now w fs) = Inr p"
  shows "\<exists>m f. cf_watermark fs = Some (Some m) \<and> valid_watermark m \<and> cf_snapshot fs = Some f
    \<and> sf_policy f = Some p \<and> sf_digest f = wm_Digest m \<and> p_Revision p = wm_Revision m
    \<and> wm_ClusterID m = clusterID \<and> wm_NodeID m = nodeID \<and> wm_ObservedAt m - 5 * second \<le> now
    \<and> policy_valid E p clusterID nodeID"
  using assms
  by (auto simp: LoadCache_def readCacheWatermark_Inr DecodePolicy_Inr writeCacheFile_def
      split: if_splits sum.splits option.splits write_outcome.splits)

lemma remove_snapshot_keeps: "accepted (remove_snapshot fs) = accepted fs"
  by (simp add: accepted_def remove_snapshot_def readCacheWatermark_def)

interpretation pc: guarded_cache accepted "cache_step E" "cache_loads E" for E :: env
proof
  fix s t b r d
  assume "cache_step E s t" and acc: "accepted s = Some (b, r, d)"
  then show "\<exists>r' d'. accepted t = Some (b, r', d') \<and> (r < r' \<or> r = r' \<and> d = d')"
    by (cases rule: cache_stepE)
      (auto simp: saveCacheAt_keeps LoadCache_keeps remove_snapshot_keeps)
next
  fix s b r d
  assume "cache_loads E s b r d"
  then show "accepted s = Some (b, r, d)"
    by (auto simp: cache_loads_def accepted_Some snapshot_intact_def dest!: LoadCache_Inr)
qed

lemma cache_step_intact: "cache_step E s t \<Longrightarrow> snapshot_intact E s \<Longrightarrow> snapshot_intact E t"
proof (erule cache_stepE)
  fix path p now w1 w2
  assume "snapshot_intact E s" and t: "t = snd (saveCacheAt E path p now w1 w2 s)"
  then show "snapshot_intact E t"
    by (auto simp: t saveCacheAt_def writeCacheFile_def snapshot_intact_def put_watermark_def put_snapshot_def
        split: sum.splits write_outcome.splits)
next
  fix clusterID nodeID now w
  assume "snapshot_intact E s" and "t = snd (LoadCache E clusterID nodeID now w s)"
  then show "snapshot_intact E t"
    using LoadCache_files [of E clusterID nodeID now w s]
    by (auto simp: snapshot_intact_def put_watermark_def)
qed (simp add: snapshot_intact_def remove_snapshot_def)

lemma cache_steps_intact: "(cache_step E)\<^sup>*\<^sup>* s t \<Longrightarrow> snapshot_intact E s \<Longrightarrow> snapshot_intact E t"
  by (induction rule: rtranclp_induct) (auto intro: cache_step_intact)

lemma LoadCache_saved:
  assumes m: "readCacheWatermark fs = Inr m" "wm_ClusterID m = clusterID" "wm_NodeID m = nodeID"
      "wm_Revision m = p_Revision p" "wm_Digest m = cacheDigest E p" "wm_ObservedAt m - 5 * second \<le> now"
    and f: "cf_snapshot fs = Some \<lparr>sf_digest = cacheDigest E p, sf_len = policy_size p, sf_policy = Some p\<rparr>"
    and p: "policy_size p \<le> MaxPolicyBytes" "policy_valid E p clusterID nodeID" and "now \<noteq> zero_time"
  shows "fst (LoadCache E clusterID nodeID now Written fs) = Inr p"
proof -
  have "DecodePolicy E (policy_size p) (Some p) clusterID nodeID = Inr p"
    using p by (simp add: DecodePolicy_Inr)
  with assms show ?thesis by (auto simp: LoadCache_def writeCacheFile_def)
qed

section \<open>Properties\<close>

text \<open>C1: The cache cannot be rolled back. Once the watermark of a policy is committed (the
  snapshot may or may not have followed, whatever the outcome of its write), then after any
  further saves, loads and snapshot removals, interrupted or not, a policy that loads belongs
  to the same cluster and node and is either newer or has the same revision and the same
  SHA-256 digest.\<close>

theorem cache_no_rollback:
  assumes "snapshot_intact E fs" and "next_watermark E path p now fs = Inr m" and "w1 \<noteq> FailedBefore"
    and steps: "(cache_step E)\<^sup>*\<^sup>* (snd (saveCacheAt E path p now w1 w2 fs)) fs'"
    and load: "fst (LoadCache E clusterID nodeID now' w fs') = Inr q"
  shows "clusterID = p_ClusterID p \<and> nodeID = p_NodeID p
    \<and> (p_Revision p < p_Revision q
       \<or> p_Revision p = p_Revision q \<and> sha256_policy E p = sha256_policy E q)"
proof -
  let ?fs1 = "snd (saveCacheAt E path p now w1 w2 fs)"
  have "snapshot_intact E fs'"
    using cache_steps_intact [OF steps] cache_step_intact [OF cache_step.Save assms(1)] by blast
  with load have "cache_loads E fs' (clusterID, nodeID) (p_Revision q) (cacheDigest E q)"
    by (auto simp: cache_loads_def)
  from pc.no_rollback [OF steps saveCacheAt_accepted [OF assms(2,3)] this] show ?thesis
    by (auto simp: cacheDigest_def hex_digest_inject)
qed

text \<open>C4: A policy that was saved is loaded back: after both replacements the cache returns
  it to the same node as long as the clock is not more than five seconds behind the time
  the watermark observed.\<close>

theorem cache_save_load:
  assumes save: "saveCacheAt E path p now Written Written fs = (Inr (), fs')"
    and mark: "readCacheWatermark fs' = Inr m"
    and clock: "wm_ObservedAt m - 5 * second \<le> now'" "now' \<noteq> zero_time"
  shows "fst (LoadCache E (p_ClusterID p) (p_NodeID p) now' Written fs') = Inr p"
proof -
  from save obtain m1 where m1: "next_watermark E path p now fs = Inr m1"
    by (auto simp: saveCacheAt_def split: sum.splits)
  have fs': "fs' = put_snapshot E p (put_watermark m1 fs)"
    using save by (simp add: saveCacheAt_def m1 writeCacheFile_def)
  with mark have "m = m1" by (auto simp: readCacheWatermark_Inr put_snapshot_def put_watermark_def)
  with fs' next_watermark_Inr [OF m1] mark clock show ?thesis
    by (intro LoadCache_saved [of _ m]) (auto simp: put_snapshot_def)
qed

text \<open>A crash between the two replacements rejects the older snapshot: when the watermark of
  a policy was committed and the replacement of the snapshot did not happen, loading fails
  unless the snapshot that is there already was of the same policy digest.\<close>

theorem cache_crash_rejects_older:
  assumes "next_watermark E path p now fs = Inr m"
    and "\<And>f. cf_snapshot fs = Some f \<Longrightarrow> sf_digest f \<noteq> cacheDigest E p"
  shows "\<exists>e. fst (LoadCache E clusterID nodeID now' w
            (snd (saveCacheAt E path p now Written FailedBefore fs))) = Inl e"
proof (rule ccontr)
  let ?fs1 = "snd (saveCacheAt E path p now Written FailedBefore fs)"
  have fs1: "?fs1 = put_watermark m fs"
    by (simp add: saveCacheAt_def assms(1) writeCacheFile_def)
  assume "\<not> ?thesis"
  then obtain q where "fst (LoadCache E clusterID nodeID now' w ?fs1) = Inr q"
    by (metis sum.exhaust)
  from LoadCache_Inr [OF this] fs1 next_watermark_Inr(5) [OF assms(1)] assms(2) show False
    by (auto simp: put_watermark_def)
qed

subsection \<open>Instances\<close>

definition sample_files :: cache_files where
  "sample_files = \<lparr>cf_watermark = None, cf_snapshot = None\<rparr>"

definition sample_mark :: cache_watermark where
  "sample_mark = \<lparr>wm_ClusterID = ''c'', wm_NodeID = ''n'', wm_Revision = 7,
     wm_Digest = cacheDigest sample_env sample_policy, wm_ObservedAt = unix_time 300\<rparr>"

lemma sample_mark_next:
  "next_watermark sample_env ''p'' sample_policy (unix_time 300) sample_files = Inr sample_mark"
proof -
  have "ValidatePolicy sample_env sample_policy ''c'' ''n'' = Inr ()"
    by (simp add: ValidatePolicy_valid sample_policy_valid)
  moreover have "p_ClusterID sample_policy = ''c''" "p_NodeID sample_policy = ''n''" "p_Revision sample_policy = 7"
    by (simp_all add: sample_policy_def)
  ultimately show ?thesis
    using sample_policy_size
    by (simp add: next_watermark_def sample_files_def readCacheWatermark_def sample_mark_def unix_time_def
        zero_time_def second_def)
qed

definition sample_saved :: cache_files where
  "sample_saved = put_snapshot sample_env sample_policy (put_watermark sample_mark sample_files)"

lemma sample_saved:
  "saveCacheAt sample_env ''p'' sample_policy (unix_time 300) Written Written sample_files = (Inr (), sample_saved)"
  by (simp add: saveCacheAt_def sample_mark_next writeCacheFile_def sample_saved_def)

lemma sample_saved_mark: "readCacheWatermark sample_saved = Inr sample_mark"
  using next_watermark_Inr(1) [OF sample_mark_next]
  by (simp add: readCacheWatermark_Inr sample_saved_def put_snapshot_def put_watermark_def)

lemma sample_load:
  "fst (LoadCache sample_env ''c'' ''n'' (unix_time 301) Written sample_saved) = Inr sample_policy"
  using sample_policy_size sample_policy_valid sample_saved_mark
  by (intro LoadCache_saved [of _ sample_mark])
    (simp_all add: sample_mark_def sample_saved_def put_snapshot_def sample_policy_def unix_time_def second_def
      zero_time_def)

theorem cache_save_load_witness:
  "fst (LoadCache sample_env ''c'' ''n'' (unix_time 301) Written sample_saved) = Inr sample_policy"
  using cache_save_load [OF sample_saved sample_saved_mark, of "unix_time 301"]
  by (simp add: sample_mark_def sample_policy_def unix_time_def second_def zero_time_def)

theorem cache_no_rollback_witness:
  "''c'' = p_ClusterID sample_policy \<and> ''n'' = p_NodeID sample_policy
    \<and> (p_Revision sample_policy < p_Revision sample_policy
       \<or> p_Revision sample_policy = p_Revision sample_policy
         \<and> sha256_policy sample_env sample_policy = sha256_policy sample_env sample_policy)"
proof (rule cache_no_rollback [OF _ sample_mark_next])
  show "snapshot_intact sample_env sample_files" by (simp add: snapshot_intact_def sample_files_def)
  show "Written \<noteq> FailedBefore" by simp
  show "(cache_step sample_env)\<^sup>*\<^sup>* (snd (saveCacheAt sample_env ''p'' sample_policy (unix_time 300)
      Written Written sample_files)) sample_saved"
    by (simp add: sample_saved)
qed (rule sample_load)

theorem cache_crash_rejects_older_witness:
  "\<exists>e. fst (LoadCache sample_env ''c'' ''n'' (unix_time 301) Written
      (snd (saveCacheAt sample_env ''p'' sample_policy (unix_time 300) Written FailedBefore sample_files))) = Inl e"
  by (rule cache_crash_rejects_older [OF sample_mark_next]) (simp add: sample_files_def)

end
