(* ===== verification/Database.thy ===== *)
theory Database
  imports Protocol
begin

text \<open>
  The controller's state: the SQLite tables of \<^verbatim>\<open>internal/control/migrations.go\<close>, the fields of
  \<^verbatim>\<open>Store\<close> (\<^verbatim>\<open>store.go\<close>) the operations read, and the statements every operation is made of.

  A table is the list of its rows. A \<^verbatim>\<open>CHECK\<close> on an enumeration is a datatype where the code
  only compares with the listed values. An operation takes the store and returns either an
  error, which leaves the store as it was (\<^verbatim>\<open>tx.Rollback\<close>), or its result and the store it
  committed. The clock is read once per transaction, as the argument \<open>now\<close>, and the values
  of \<^verbatim>\<open>randomToken\<close> are arguments.
\<close>

section \<open>Rows\<close>

record user_row =
  u_id :: string
  u_username :: string
  u_role :: string
  u_enabled :: bool
  u_password_hash :: string
  u_session_version :: nat

record session_row =
  se_token_hash :: string
  se_user_id :: string
  se_session_version :: nat
  se_csrf_hash :: string
  se_expires_at :: int

record tailnet_row =
  t_id :: string
  t_owner_id :: string
  t_display_name :: string
  t_api_id :: string
  t_enabled :: bool

record credential_row =
  c_tailnet_id :: string
  c_kind :: string
  c_encrypted :: string
  c_status :: string
  c_revision :: nat
  c_refresh_seq :: nat
  c_updated_at :: int
  c_error :: string

text \<open>
  The column \<^verbatim>\<open>keys_json\<close> holds the keys, each with the text form and the expiry of a
  \<^verbatim>\<open>cluster.DeviceKey\<close>; \<open>None\<close> is a text that does not decode.
\<close>

record identity_row =
  i_tailnet_id :: string
  i_revision :: nat
  i_last_success :: int
  i_keys :: "device_key list option"

datatype node_state = Pending | Registered | Ready | Offline | IdentityConflict | DomainPending

record node_row =
  n_id :: string
  n_owner_id :: string
  n_domain :: string
  n_derp_port :: int
  n_stun_port :: int
  n_display_name :: string
  n_region_id :: nat
  n_public_key :: "string option"
  n_state :: node_state
  n_instance_id :: string
  n_lease_until :: int
  n_last_heartbeat :: int
  n_last_error :: string
  n_enabled :: bool
  n_domain_verified_at :: int

record enrollment_row =
  e_node_id :: string
  e_owner_id :: string
  e_code_hash :: string
  e_expires_at :: int
  e_consumed_at :: int
  e_request_hash :: "string option"
  e_response :: "string option"

record node_session_row =
  ns_token_hash :: string
  ns_node_id :: string
  ns_instance_id :: string
  ns_expires_at :: int

datatype grant_state = Requested | OwnerApproved | Active | Cancelled | Rejected | Revoked | Expired

record grant_row =
  g_id :: string
  g_node_id :: string
  g_tailnet_id :: string
  g_state :: grant_state
  g_revision :: nat
  g_explicit_until :: int
  g_last_control_success :: int

text \<open>\<^verbatim>\<open>policy_json\<close> is \<open>None\<close> when it is \<^verbatim>\<open>NULL\<close>, and \<open>Some None\<close> when it does not decode.\<close>

record policy_row =
  pr_node_id :: string
  pr_desired_revision :: nat
  pr_received_revision :: nat
  pr_applied_revision :: nat
  pr_generated_at :: int
  pr_policy :: "policy option option"
  pr_budget_bps :: nat
  pr_owner_weight :: nat
  pr_shared_weight :: nat
  pr_shared_max_bps :: nat
  pr_derper_usable :: bool

record rule_row =
  r_node_id :: string
  r_tailnet_id :: string
  r_group_name :: string
  r_weight :: nat
  r_max_bps :: nat

record audit_row =
  a_actor_id :: string
  a_owner_id :: string
  a_resource_type :: string
  a_resource_id :: string
  a_action :: string
  a_created_at :: int

record event_row =
  ev_owner_id :: string
  ev_resource_type :: string
  ev_resource_id :: string
  ev_kind :: string
  ev_message :: string
  ev_created_at :: int
  ev_resolved_at :: int

record challenge_row =
  nc_nonce_hash :: string
  nc_node_id :: string
  nc_payload :: node_challenge
  nc_expires_at :: int
  nc_used_at :: int

record probe =
  pb_State :: string
  pb_ObservedAt :: time

record node_probes =
  pbs_DERP :: probe
  pbs_STUN :: probe

record observation_row =
  o_node_id :: string
  o_report_instance :: string
  o_report :: "node_report option"
  o_reported_at :: int
  o_probes :: "node_probes option"
  o_previous_report :: "node_report option"

text \<open>
  An entry of \<^verbatim>\<open>policyStreams\<close>: the node, the stream that serves it (streams are numbered),
  and whether its channel \<^verbatim>\<open>changed\<close>, of capacity one, holds a value.
\<close>

record stream_row =
  st_node :: string
  st_id :: nat
  st_changed :: bool

record store =
  users :: "user_row list"
  sessions :: "session_row list"
  tailnets :: "tailnet_row list"
  credentials :: "credential_row list"
  identity_snapshots :: "identity_row list"
  nodes :: "node_row list"
  enrollments :: "enrollment_row list"
  node_sessions :: "node_session_row list"
  grants :: "grant_row list"
  node_policies :: "policy_row list"
  tailnet_rules :: "rule_row list"
  settings :: "(string \<times> string) list"
  audit :: "audit_row list"
  events :: "event_row list"
  node_challenges :: "challenge_row list"
  node_observations :: "observation_row list"
  clusterID :: string
  credentialAEAD :: bool
  policyStreams :: "stream_row list"

section \<open>Statements\<close>

text \<open>\<^verbatim>\<open>ON DELETE CASCADE\<close>: the rows that refer to a node or a tailnet go with it.\<close>

definition delete_node_row :: "string \<Rightarrow> store \<Rightarrow> store" where
  "delete_node_row rid s = s\<lparr>
     nodes := delete_where (\<lambda>n. n_id n = rid) (nodes s),
     enrollments := delete_where (\<lambda>e. e_node_id e = rid) (enrollments s),
     node_sessions := delete_where (\<lambda>r. ns_node_id r = rid) (node_sessions s),
     grants := delete_where (\<lambda>g. g_node_id g = rid) (grants s),
     node_policies := delete_where (\<lambda>p. pr_node_id p = rid) (node_policies s),
     tailnet_rules := delete_where (\<lambda>r. r_node_id r = rid) (tailnet_rules s),
     node_challenges := delete_where (\<lambda>c. nc_node_id c = rid) (node_challenges s),
     node_observations := delete_where (\<lambda>x. o_node_id x = rid) (node_observations s)\<rparr>"

definition delete_tailnet_row :: "string \<Rightarrow> store \<Rightarrow> store" where
  "delete_tailnet_row rid s = s\<lparr>
     tailnets := delete_where (\<lambda>t. t_id t = rid) (tailnets s),
     credentials := delete_where (\<lambda>c. c_tailnet_id c = rid) (credentials s),
     identity_snapshots := delete_where (\<lambda>i. i_tailnet_id i = rid) (identity_snapshots s),
     grants := delete_where (\<lambda>g. g_tailnet_id g = rid) (grants s),
     tailnet_rules := delete_where (\<lambda>r. r_tailnet_id r = rid) (tailnet_rules s)\<rparr>"

text \<open>The two statements that act on a node's own tables, \<^verbatim>\<open>DELETE FROM table WHERE node_id=?\<close> for the four of them.\<close>

definition clear_node_tables :: "string \<Rightarrow> store \<Rightarrow> store" where
  "clear_node_tables rid s = s\<lparr>
     node_sessions := delete_where (\<lambda>r. ns_node_id r = rid) (node_sessions s),
     node_challenges := delete_where (\<lambda>c. nc_node_id c = rid) (node_challenges s),
     enrollments := delete_where (\<lambda>e. e_node_id e = rid) (enrollments s),
     node_observations := delete_where (\<lambda>x. o_node_id x = rid) (node_observations s)\<rparr>"

definition update_node :: "string \<Rightarrow> (node_row \<Rightarrow> node_row) \<Rightarrow> store \<Rightarrow> store" where
  "update_node rid f s = s\<lparr>nodes := update_where (\<lambda>n. n_id n = rid) f (nodes s)\<rparr>"

definition update_policy_row :: "string \<Rightarrow> (policy_row \<Rightarrow> policy_row) \<Rightarrow> store \<Rightarrow> store" where
  "update_policy_row rid f s = s\<lparr>node_policies := update_where (\<lambda>p. pr_node_id p = rid) f (node_policies s)\<rparr>"

text \<open>\<^verbatim>\<open>writeAudit\<close> (auth.go).\<close>

definition writeAudit ::
    "string \<Rightarrow> string \<Rightarrow> string \<Rightarrow> string \<Rightarrow> string \<Rightarrow> time \<Rightarrow> store \<Rightarrow> store" where
  "writeAudit actorID ownerID kind rid action now s = s\<lparr>audit := audit s @
     [\<lparr>a_actor_id = actorID, a_owner_id = ownerID, a_resource_type = kind, a_resource_id = rid,
       a_action = action, a_created_at = unix now\<rparr>]\<rparr>"

definition insert_event ::
    "string \<Rightarrow> string \<Rightarrow> string \<Rightarrow> string \<Rightarrow> string \<Rightarrow> time \<Rightarrow> store \<Rightarrow> store" where
  "insert_event owner kind rid what message now s = s\<lparr>events := events s @
     [\<lparr>ev_owner_id = owner, ev_resource_type = kind, ev_resource_id = rid, ev_kind = what,
       ev_message = message, ev_created_at = unix now, ev_resolved_at = 0\<rparr>]\<rparr>"

definition resolve_events :: "(event_row \<Rightarrow> bool) \<Rightarrow> time \<Rightarrow> store \<Rightarrow> store" where
  "resolve_events P now s = s\<lparr>events :=
     update_where (\<lambda>e. P e \<and> ev_resolved_at e = 0) (\<lambda>e. e\<lparr>ev_resolved_at := unix now\<rparr>) (events s)\<rparr>"

section \<open>Notifications\<close>

text \<open>
  \<^verbatim>\<open>notifyPolicy\<close>, \<^verbatim>\<open>notifyPolicies\<close> (control_stream.go) and \<^verbatim>\<open>closeNodeStream\<close> (node_self.go). A send
  on a channel that is full is dropped. A stream whose \<^verbatim>\<open>done\<close> channel is closed is no longer in
  the table.
\<close>

definition notifyPolicy :: "string \<Rightarrow> store \<Rightarrow> store" where
  "notifyPolicy rid s = s\<lparr>policyStreams :=
     update_where (\<lambda>r. st_node r = rid) (\<lambda>r. r\<lparr>st_changed := True\<rparr>) (policyStreams s)\<rparr>"

definition notifyPolicies :: "store \<Rightarrow> store" where
  "notifyPolicies s = s\<lparr>policyStreams := map (\<lambda>r. r\<lparr>st_changed := True\<rparr>) (policyStreams s)\<rparr>"

definition closeNodeStream :: "string \<Rightarrow> store \<Rightarrow> store" where
  "closeNodeStream rid s = s\<lparr>policyStreams := delete_where (\<lambda>r. st_node r = rid) (policyStreams s)\<rparr>"

definition stream_open :: "string \<Rightarrow> store \<Rightarrow> bool" where
  "stream_open rid s \<longleftrightarrow> list_ex (\<lambda>r. st_node r = rid) (policyStreams s)"

text \<open>\<^verbatim>\<open>Store.Close\<close> stops every stream.\<close>

definition Store_Close :: "store \<Rightarrow> store" where
  "Store_Close s = s\<lparr>policyStreams := []\<rparr>"

section \<open>Actors\<close>

record actor =
  ac_ID :: string
  ac_Username :: string
  ac_Role :: string
  ac_Enabled :: bool

text \<open>The actor of the local administration commands.\<close>

definition local_admin :: actor where
  "local_admin = \<lparr>ac_ID = ''local'', ac_Username = [], ac_Role = ''admin'', ac_Enabled = True\<rparr>"

definition RequireOwner :: "actor \<Rightarrow> string \<Rightarrow> unit result" where
  "RequireOwner actor ownerID =
     failIf (\<not> ac_Enabled actor \<or> ac_ID actor = [] \<or> ac_Role actor \<noteq> ''admin'' \<and> ac_ID actor \<noteq> ownerID)
       ErrForbidden"

definition activeActor :: "store \<Rightarrow> actor \<Rightarrow> unit result" where
  "activeActor s actor =
     (if ac_ID actor = ''local'' then Inr ()
      else case find (\<lambda>u. u_id u = ac_ID actor \<and> u_enabled u) (users s) of
        None \<Rightarrow> Inl ErrForbidden
      | Some u \<Rightarrow> failIf (u_role u \<noteq> ac_Role actor) ErrForbidden)"

text \<open>An actor may act for an owner when it is enabled and is the owner or an administrator.\<close>

definition may_act :: "actor \<Rightarrow> string \<Rightarrow> bool" where
  "may_act actor ownerID \<longleftrightarrow>
     ac_Enabled actor \<and> ac_ID actor \<noteq> [] \<and> (ac_Role actor = ''admin'' \<or> ac_ID actor = ownerID)"

lemma RequireOwner_Inr [res_simps]: "RequireOwner actor ownerID = Inr u \<longleftrightarrow> may_act actor ownerID"
  by (auto simp: RequireOwner_def may_act_def failIf_Inr_iff)

lemma RequireOwner_Inl: "RequireOwner actor ownerID = Inl e \<longleftrightarrow> e = ErrForbidden \<and> \<not> may_act actor ownerID"
  by (auto simp: RequireOwner_def may_act_def failIf_Inl_iff)

text \<open>The queries with a join.\<close>

definition user_enabled :: "store \<Rightarrow> string \<Rightarrow> bool" where
  "user_enabled s rid \<longleftrightarrow> list_ex (\<lambda>u. u_id u = rid \<and> u_enabled u) (users s)"

definition find_node :: "store \<Rightarrow> string \<Rightarrow> node_row option" where
  "find_node s rid = find (\<lambda>n. n_id n = rid) (nodes s)"

definition find_tailnet :: "store \<Rightarrow> string \<Rightarrow> tailnet_row option" where
  "find_tailnet s rid = find (\<lambda>t. t_id t = rid) (tailnets s)"

definition select_node :: "store \<Rightarrow> string \<Rightarrow> node_row result" where
  "select_node s rid = query_row (\<lambda>n. n_id n = rid) (nodes s)"

definition tailnetOwner :: "store \<Rightarrow> actor \<Rightarrow> string \<Rightarrow> string result" where
  "tailnetOwner s actor rid =
     bindE (activeActor s actor) (\<lambda>_.
     bindE (query_row (\<lambda>t. t_id t = rid) (tailnets s)) (\<lambda>t.
     bindE (RequireOwner actor (t_owner_id t)) (\<lambda>_. Inr (t_owner_id t))))"

end
