(* ===== verification/Consistency.thy ===== *)
theory Consistency
  imports Database
begin

text \<open>
  What the schema of \<^verbatim>\<open>migrations.go\<close> and the operations together keep true of the store: keys are
  unique, references are to rows that exist, enumerations and ranges hold, and beyond the
  schema: the revisions of a node's policy are ordered, a stored policy is a valid policy of
  its node with the desired revision, stored device keys are canonical and distinct, a node
  has at most one session, nodes belong to providers and administrators, and only a tailnet
  of the node's owner is in the owner group.

  The invariant is a conjunction of one part per table, each over that table and the keys
  it refers to, so that a statement only has to show the parts of the tables it changes.
\<close>

section \<open>The invariant\<close>

definition nocase :: "string \<Rightarrow> string" where
  "nocase s = map lower_char s"

definition refs :: "('r \<Rightarrow> 'k) \<Rightarrow> 'r list \<Rightarrow> 'k set \<Rightarrow> bool" where
  "refs k rs ks \<longleftrightarrow> k ` set rs \<subseteq> ks"

definition role_ok :: "string \<Rightarrow> bool" where
  "role_ok r \<longleftrightarrow> r = ''admin'' \<or> r = ''provider'' \<or> r = ''member''"

text \<open>Identifiers are random tokens, so none is the one the code reserves for the local administrator.\<close>

definition users_inv :: "user_row list \<Rightarrow> bool" where
  "users_inv us \<longleftrightarrow> unique u_id us \<and> unique (\<lambda>u. nocase (u_username u)) us
     \<and> list_all (\<lambda>u. role_ok (u_role u) \<and> u_id u \<noteq> ''local'') us"

definition sessions_inv :: "string set \<Rightarrow> session_row list \<Rightarrow> bool" where
  "sessions_inv U xs \<longleftrightarrow> unique se_token_hash xs \<and> refs se_user_id xs U"

definition tailnets_inv :: "string set \<Rightarrow> tailnet_row list \<Rightarrow> bool" where
  "tailnets_inv U ts \<longleftrightarrow> unique t_id ts \<and> unique t_api_id ts \<and> refs t_owner_id ts U"

definition credentials_inv :: "string set \<Rightarrow> credential_row list \<Rightarrow> bool" where
  "credentials_inv T cs \<longleftrightarrow> unique c_tailnet_id cs \<and> refs c_tailnet_id cs T"

text \<open>Stored keys: each parses, is written the canonical way, and occurs once.\<close>

definition keys_ok :: "env \<Rightarrow> device_key list \<Rightarrow> bool" where
  "keys_ok E ks \<longleftrightarrow> list_all (\<lambda>k. key_ok E k \<and> np_string E (key_public E k) = dk_NodePublic k) ks
     \<and> distinct (map dk_NodePublic ks)"

definition identities_inv :: "env \<Rightarrow> string set \<Rightarrow> identity_row list \<Rightarrow> bool" where
  "identities_inv E T xs \<longleftrightarrow> unique i_tailnet_id xs \<and> refs i_tailnet_id xs T
     \<and> list_all (\<lambda>i. \<exists>ks. i_keys i = Some ks \<and> keys_ok E ks) xs"

definition port_ok :: "int \<Rightarrow> bool" where
  "port_ok p \<longleftrightarrow> 1 \<le> p \<and> p \<le> 65535"

definition node_ok :: "node_row \<Rightarrow> bool" where
  "node_ok n \<longleftrightarrow> 900 \<le> n_region_id n \<and> n_region_id n \<le> 999 \<and> port_ok (n_derp_port n) \<and> port_ok (n_stun_port n)"

definition nodes_inv :: "string set \<Rightarrow> node_row list \<Rightarrow> bool" where
  "nodes_inv P ns \<longleftrightarrow> unique n_id ns \<and> unique n_domain ns \<and> unique n_region_id ns
     \<and> refs n_owner_id ns P \<and> list_all node_ok ns"

definition enrollments_inv :: "string set \<Rightarrow> enrollment_row list \<Rightarrow> bool" where
  "enrollments_inv N xs \<longleftrightarrow> unique e_node_id xs \<and> unique e_code_hash xs \<and> refs e_node_id xs N"

definition node_sessions_inv :: "string set \<Rightarrow> node_session_row list \<Rightarrow> bool" where
  "node_sessions_inv N xs \<longleftrightarrow> unique ns_token_hash xs \<and> unique ns_node_id xs \<and> refs ns_node_id xs N"

definition grants_inv :: "string set \<Rightarrow> string set \<Rightarrow> grant_row list \<Rightarrow> bool" where
  "grants_inv N T gs \<longleftrightarrow> unique g_id gs \<and> unique (\<lambda>g. (g_node_id g, g_tailnet_id g)) gs
     \<and> refs g_node_id gs N \<and> refs g_tailnet_id gs T"

text \<open>A node's policy row; \<open>cid\<close> is the cluster's identity in the settings.\<close>

definition policy_row_ok :: "env \<Rightarrow> string option \<Rightarrow> policy_row \<Rightarrow> bool" where
  "policy_row_ok E cid r \<longleftrightarrow>
     pr_applied_revision r \<le> pr_received_revision r \<and> pr_received_revision r \<le> pr_desired_revision r
     \<and> pr_desired_revision r \<le> MaxInt64
     \<and> (case pr_policy r of None \<Rightarrow> True
        | Some body \<Rightarrow> \<exists>p c. body = Some p \<and> cid = Some c \<and> policy_valid E p c (pr_node_id r)
            \<and> policy_size p \<le> MaxPolicyBytes \<and> p_Revision p = pr_desired_revision r)
     \<and> 8 \<le> pr_budget_bps r \<and> pr_budget_bps r \<le> MaxInt64 \<and> validCeiling (pr_shared_max_bps r)
     \<and> validWeight (pr_owner_weight r) \<and> validWeight (pr_shared_weight r)"

definition policies_inv :: "env \<Rightarrow> string option \<Rightarrow> string set \<Rightarrow> policy_row list \<Rightarrow> bool" where
  "policies_inv E cid N rs \<longleftrightarrow> unique pr_node_id rs \<and> refs pr_node_id rs N \<and> list_all (policy_row_ok E cid) rs"

text \<open>Rules, over the owners of the nodes and of the tailnets.\<close>

definition rule_ok :: "(string \<times> string) set \<Rightarrow> (string \<times> string) set \<Rightarrow> rule_row \<Rightarrow> bool" where
  "rule_ok NO TO r \<longleftrightarrow> r_node_id r \<in> fst ` NO \<and> r_tailnet_id r \<in> fst ` TO
     \<and> (r_group_name r = ''owner'' \<or> r_group_name r = ''shared'')
     \<and> validWeight (r_weight r) \<and> validCeiling (r_max_bps r)
     \<and> (r_group_name r = ''owner'' \<longrightarrow>
         (\<forall>a b. (r_node_id r, a) \<in> NO \<longrightarrow> (r_tailnet_id r, b) \<in> TO \<longrightarrow> a = b))"

definition rules_inv :: "(string \<times> string) set \<Rightarrow> (string \<times> string) set \<Rightarrow> rule_row list \<Rightarrow> bool" where
  "rules_inv NO TO rs \<longleftrightarrow> unique (\<lambda>r. (r_node_id r, r_tailnet_id r)) rs \<and> list_all (rule_ok NO TO) rs"

definition challenges_inv :: "string set \<Rightarrow> challenge_row list \<Rightarrow> bool" where
  "challenges_inv N cs \<longleftrightarrow> unique nc_nonce_hash cs \<and> refs nc_node_id cs N"

definition observations_inv :: "string set \<Rightarrow> observation_row list \<Rightarrow> bool" where
  "observations_inv N xs \<longleftrightarrow> unique o_node_id xs \<and> refs o_node_id xs N"

definition setting :: "string \<Rightarrow> store \<Rightarrow> string option" where
  "setting k s = map_of (settings s) k"

definition user_ids :: "store \<Rightarrow> string set" where
  "user_ids s = u_id ` set (users s)"

definition provider_ids :: "store \<Rightarrow> string set" where
  "provider_ids s = u_id ` set (filter (\<lambda>u. u_role u \<noteq> ''member'') (users s))"

definition node_ids :: "store \<Rightarrow> string set" where
  "node_ids s = n_id ` set (nodes s)"

definition tailnet_ids :: "store \<Rightarrow> string set" where
  "tailnet_ids s = t_id ` set (tailnets s)"

definition node_owners :: "store \<Rightarrow> (string \<times> string) set" where
  "node_owners s = (\<lambda>n. (n_id n, n_owner_id n)) ` set (nodes s)"

definition tailnet_owners :: "store \<Rightarrow> (string \<times> string) set" where
  "tailnet_owners s = (\<lambda>t. (t_id t, t_owner_id t)) ` set (tailnets s)"

definition db_inv :: "env \<Rightarrow> store \<Rightarrow> bool" where
  "db_inv E s \<longleftrightarrow>
     users_inv (users s) \<and> sessions_inv (user_ids s) (sessions s)
     \<and> tailnets_inv (user_ids s) (tailnets s) \<and> credentials_inv (tailnet_ids s) (credentials s)
     \<and> identities_inv E (tailnet_ids s) (identity_snapshots s)
     \<and> nodes_inv (provider_ids s) (nodes s) \<and> enrollments_inv (node_ids s) (enrollments s)
     \<and> node_sessions_inv (node_ids s) (node_sessions s)
     \<and> grants_inv (node_ids s) (tailnet_ids s) (grants s)
     \<and> policies_inv E (setting ''cluster_id'' s) (node_ids s) (node_policies s)
     \<and> rules_inv (node_owners s) (tailnet_owners s) (tailnet_rules s)
     \<and> challenges_inv (node_ids s) (node_challenges s)
     \<and> observations_inv (node_ids s) (node_observations s)
     \<and> (clusterID s = [] \<or> setting ''cluster_id'' s = Some (clusterID s))
     \<and> unique st_node (policyStreams s)"

lemmas db_sets = user_ids_def provider_ids_def node_ids_def tailnet_ids_def node_owners_def tailnet_owners_def setting_def

section \<open>References and rows under statements\<close>

lemma refs_delete_where: "refs k xs K \<Longrightarrow> refs k (delete_where P xs) K"
  by (auto simp: refs_def)

lemma refs_append: "refs k (xs @ [r]) K \<longleftrightarrow> refs k xs K \<and> k r \<in> K"
  by (auto simp: refs_def)

lemma refs_update_where: "(\<And>r. k (f r) = k r) \<Longrightarrow> refs k (update_where P f xs) K = refs k xs K"
  by (simp add: refs_def image_update_where)

lemma refs_mono: "refs k xs K \<Longrightarrow> K \<subseteq> K' \<Longrightarrow> refs k xs K'"
  by (auto simp: refs_def)

lemma refs_delete_both:
  "refs k xs (p ` set ys) \<Longrightarrow> refs k (delete_where (\<lambda>x. k x = rid) xs) (p ` set (delete_where (\<lambda>y. p y = rid) ys))"
  by (auto simp: refs_def)

lemma list_all_update_where:
  "list_all Q xs \<Longrightarrow> (\<And>r. r \<in> set xs \<Longrightarrow> P r \<Longrightarrow> Q r \<Longrightarrow> Q (f r)) \<Longrightarrow> list_all Q (update_where P f xs)"
  by (auto simp: list_all_iff set_update_where)

lemma list_all_delete_where: "list_all Q xs \<Longrightarrow> list_all Q (delete_where P xs)"
  by (auto simp: list_all_iff)

lemmas row_rules = refs_delete_where refs_append list_all_delete_where unique_delete_where unique_append

section \<open>Preservation, statement by statement\<close>

lemma db_inv_frame [simp]:
  "db_inv E (s\<lparr>audit := x\<rparr>) = db_inv E s"
  "db_inv E (s\<lparr>events := y\<rparr>) = db_inv E s"
  "db_inv E (s\<lparr>credentialAEAD := z\<rparr>) = db_inv E s"
  by (simp_all add: db_inv_def db_sets)

lemma db_inv_log [simp]:
  "db_inv E (writeAudit a ow k rid act now s) = db_inv E s"
  "db_inv E (insert_event ow k rid w m now s) = db_inv E s"
  "db_inv E (resolve_events P now s) = db_inv E s"
  by (simp_all add: writeAudit_def insert_event_def resolve_events_def)

lemma db_inv_streams:
  "db_inv E s \<Longrightarrow> unique st_node xs \<Longrightarrow> db_inv E (s\<lparr>policyStreams := xs\<rparr>)"
  by (simp add: db_inv_def db_sets)

lemma db_inv_notify [simp]:
  "db_inv E (notifyPolicy rid s) = db_inv E s"
  "db_inv E (notifyPolicies s) = db_inv E s"
  by (simp_all add: db_inv_def db_sets notifyPolicy_def notifyPolicies_def unique_def map_update_where o_def)

lemma db_inv_close [inv_intros]: "db_inv E s \<Longrightarrow> db_inv E (closeNodeStream rid s)"
  unfolding closeNodeStream_def
  by (intro db_inv_streams) (auto simp: db_inv_def unique_delete_where)

lemma nodes_inv_mono: "nodes_inv P ns \<Longrightarrow> P \<subseteq> P' \<Longrightarrow> nodes_inv P' ns"
  by (auto simp: nodes_inv_def intro: refs_mono)

text \<open>
  Changing users: their ids and names stay, and whoever owns a node stays a provider or an
  administrator.
\<close>

lemma db_inv_users_update:
  assumes inv: "db_inv E s" and f: "\<And>u. u_id (f u) = u_id u" "\<And>u. u_username (f u) = u_username u"
    and role: "\<And>u. P u \<Longrightarrow> role_ok (u_role u) \<Longrightarrow> role_ok (u_role (f u))"
    and own: "\<And>n u. n \<in> set (nodes s) \<Longrightarrow> u \<in> set (users s) \<Longrightarrow> n_owner_id n = u_id u \<Longrightarrow> P u
      \<Longrightarrow> u_role u \<noteq> ''member'' \<Longrightarrow> u_role (f u) \<noteq> ''member''"
  shows "db_inv E (s\<lparr>users := update_where P f (users s)\<rparr>)"
proof -
  let ?s = "s\<lparr>users := update_where P f (users s)\<rparr>"
  have "n_owner_id n \<in> provider_ids ?s" if n: "n \<in> set (nodes s)" for n
  proof -
    from inv n have "n_owner_id n \<in> provider_ids s" by (auto simp: db_inv_def nodes_inv_def refs_def)
    then obtain u where u: "u \<in> set (users s)" "u_role u \<noteq> ''member''" "u_id u = n_owner_id n"
      by (auto simp: provider_ids_def)
    let ?u = "if P u then f u else u"
    have "?u \<in> set (users ?s)" using u by (simp add: set_update_where)
    moreover have "u_role ?u \<noteq> ''member''" "u_id ?u = n_owner_id n" using own [OF n u(1)] u f by auto
    ultimately show ?thesis unfolding provider_ids_def by (intro image_eqI [of _ _ ?u]) simp_all
  qed
  then have "nodes_inv (provider_ids ?s) (nodes s)"
    using inv by (auto simp: db_inv_def nodes_inv_def refs_def)
  with inv f role show ?thesis
    unfolding db_inv_def user_ids_def node_ids_def tailnet_ids_def node_owners_def tailnet_owners_def setting_def users_inv_def
    by (simp add: image_update_where unique_update_where) (auto simp: list_all_iff set_update_where)
qed

lemma db_inv_users_insert:
  assumes inv: "db_inv E s" and "u_id u \<notin> user_ids s"
    and "nocase (u_username u) \<notin> (\<lambda>v. nocase (u_username v)) ` set (users s)" and "role_ok (u_role u)"
    and "u_id u \<noteq> ''local''"
  shows "db_inv E (s\<lparr>users := users s @ [u]\<rparr>)"
proof -
  have "user_ids s \<subseteq> user_ids (s\<lparr>users := users s @ [u]\<rparr>)"
    and "provider_ids s \<subseteq> provider_ids (s\<lparr>users := users s @ [u]\<rparr>)"
    by (auto simp: user_ids_def provider_ids_def)
  with inv have "sessions_inv (user_ids (s\<lparr>users := users s @ [u]\<rparr>)) (sessions s)"
    and "tailnets_inv (user_ids (s\<lparr>users := users s @ [u]\<rparr>)) (tailnets s)"
    and "nodes_inv (provider_ids (s\<lparr>users := users s @ [u]\<rparr>)) (nodes s)"
    by (auto simp: db_inv_def sessions_inv_def tailnets_inv_def intro: refs_mono nodes_inv_mono)
  with assms show ?thesis
    unfolding db_inv_def node_ids_def tailnet_ids_def node_owners_def tailnet_owners_def setting_def users_inv_def
    by (simp add: unique_append user_ids_def)
qed

lemma db_inv_local: "db_inv E s \<Longrightarrow> ''local'' \<notin> user_ids s"
  by (auto simp: db_inv_def users_inv_def user_ids_def list_all_iff)

lemma provider_ids_sub: "provider_ids s \<subseteq> user_ids s"
  by (auto simp: provider_ids_def user_ids_def)

lemma db_inv_sessions_delete [inv_intros]:
  "db_inv E s \<Longrightarrow> db_inv E (s\<lparr>sessions := delete_where P (sessions s)\<rparr>)"
  unfolding db_inv_def db_sets sessions_inv_def by (simp add: row_rules)

lemma db_inv_sessions_insert [inv_intros]:
  "db_inv E s \<Longrightarrow> se_user_id r \<in> user_ids s \<Longrightarrow> se_token_hash r \<notin> se_token_hash ` set (sessions s)
    \<Longrightarrow> db_inv E (s\<lparr>sessions := sessions s @ [r]\<rparr>)"
  unfolding db_inv_def db_sets sessions_inv_def by (simp add: row_rules)

lemma db_inv_update_node [inv_intros]:
  assumes "db_inv E s" and "\<And>n. n_id (f n) = n_id n" and "\<And>n. n_owner_id (f n) = n_owner_id n"
    and "\<And>n. n_domain (f n) = n_domain n" and "\<And>n. n_region_id (f n) = n_region_id n"
    and "\<And>n. node_ok n \<Longrightarrow> node_ok (f n)"
  shows "db_inv E (update_node rid f s)"
  using assms unfolding db_inv_def db_sets nodes_inv_def update_node_def
  by (simp add: image_update_where unique_update_where refs_update_where list_all_update_where)

lemma db_inv_update_policy_row [inv_intros]:
  assumes "db_inv E s" and "\<And>r. pr_node_id (f r) = pr_node_id r"
    and "\<And>r. r \<in> set (node_policies s) \<Longrightarrow> pr_node_id r = rid \<Longrightarrow> policy_row_ok E (setting ''cluster_id'' s) r
      \<Longrightarrow> policy_row_ok E (setting ''cluster_id'' s) (f r)"
  shows "db_inv E (update_policy_row rid f s)"
  using assms unfolding db_inv_def policies_inv_def update_policy_row_def db_sets
  by (simp add: unique_update_where refs_update_where list_all_update_where)

lemma db_inv_node_tables [inv_intros]:
  "db_inv E s \<Longrightarrow> db_inv E (clear_node_tables rid s)"
  "db_inv E s \<Longrightarrow> db_inv E (s\<lparr>node_sessions := delete_where P1 (node_sessions s)\<rparr>)"
  "db_inv E s \<Longrightarrow> db_inv E (s\<lparr>node_challenges := delete_where P2 (node_challenges s)\<rparr>)"
  by (simp_all add: db_inv_def db_sets clear_node_tables_def node_sessions_inv_def challenges_inv_def
      enrollments_inv_def observations_inv_def row_rules)

lemma db_inv_challenge_insert [inv_intros]:
  "db_inv E s \<Longrightarrow> nc_node_id c \<in> node_ids s \<Longrightarrow> nc_nonce_hash c \<notin> nc_nonce_hash ` set (node_challenges s)
    \<Longrightarrow> db_inv E (s\<lparr>node_challenges := node_challenges s @ [c]\<rparr>)"
  by (simp add: db_inv_def db_sets challenges_inv_def row_rules)

lemma db_inv_challenge_update [inv_intros]:
  "db_inv E s \<Longrightarrow> (\<And>c. nc_node_id (f c) = nc_node_id c) \<Longrightarrow> (\<And>c. nc_nonce_hash (f c) = nc_nonce_hash c)
    \<Longrightarrow> db_inv E (s\<lparr>node_challenges := update_where P f (node_challenges s)\<rparr>)"
  by (simp add: db_inv_def db_sets challenges_inv_def unique_update_where refs_update_where)

lemma db_inv_node_session_insert [inv_intros]:
  "db_inv E s \<Longrightarrow> ns_node_id r \<in> node_ids s \<Longrightarrow> ns_token_hash r \<notin> ns_token_hash ` set (node_sessions s)
    \<Longrightarrow> ns_node_id r \<notin> ns_node_id ` set (node_sessions s)
    \<Longrightarrow> db_inv E (s\<lparr>node_sessions := node_sessions s @ [r]\<rparr>)"
  by (simp add: db_inv_def db_sets node_sessions_inv_def row_rules)

lemma db_inv_grants_update [inv_intros]:
  "db_inv E s \<Longrightarrow> (\<And>g. g_id (f g) = g_id g) \<Longrightarrow> (\<And>g. g_node_id (f g) = g_node_id g)
    \<Longrightarrow> (\<And>g. g_tailnet_id (f g) = g_tailnet_id g) \<Longrightarrow> db_inv E (s\<lparr>grants := update_where P f (grants s)\<rparr>)"
  by (simp add: db_inv_def db_sets grants_inv_def unique_update_where refs_update_where)

lemma db_inv_grants_insert [inv_intros]:
  "db_inv E s \<Longrightarrow> g_id g \<notin> g_id ` set (grants s)
    \<Longrightarrow> (g_node_id g, g_tailnet_id g) \<notin> (\<lambda>h. (g_node_id h, g_tailnet_id h)) ` set (grants s)
    \<Longrightarrow> g_node_id g \<in> node_ids s \<Longrightarrow> g_tailnet_id g \<in> tailnet_ids s
    \<Longrightarrow> db_inv E (s\<lparr>grants := grants s @ [g]\<rparr>)"
  by (simp add: db_inv_def db_sets grants_inv_def row_rules)

lemma db_inv_rules_delete [inv_intros]:
  "db_inv E s \<Longrightarrow> db_inv E (s\<lparr>tailnet_rules := delete_where P (tailnet_rules s)\<rparr>)"
  by (simp add: db_inv_def db_sets rules_inv_def row_rules)

lemma db_inv_rules_insert [inv_intros]:
  "db_inv E s \<Longrightarrow> (r_node_id r, r_tailnet_id r) \<notin> (\<lambda>q. (r_node_id q, r_tailnet_id q)) ` set (tailnet_rules s)
    \<Longrightarrow> rule_ok (node_owners s) (tailnet_owners s) r
    \<Longrightarrow> db_inv E (s\<lparr>tailnet_rules := tailnet_rules s @ [r]\<rparr>)"
  by (simp add: db_inv_def db_sets rules_inv_def row_rules)

lemma db_inv_credentials_update [inv_intros]:
  "db_inv E s \<Longrightarrow> (\<And>c. c_tailnet_id (f c) = c_tailnet_id c)
    \<Longrightarrow> db_inv E (s\<lparr>credentials := update_where P f (credentials s)\<rparr>)"
  by (simp add: db_inv_def db_sets credentials_inv_def unique_update_where refs_update_where)

lemma db_inv_credentials_insert [inv_intros]:
  "db_inv E s \<Longrightarrow> c_tailnet_id c \<in> tailnet_ids s \<Longrightarrow> c_tailnet_id c \<notin> c_tailnet_id ` set (credentials s)
    \<Longrightarrow> db_inv E (s\<lparr>credentials := credentials s @ [c]\<rparr>)"
  by (simp add: db_inv_def db_sets credentials_inv_def row_rules)

lemma db_inv_identities_update [inv_intros]:
  "db_inv E s \<Longrightarrow> (\<And>i. i_tailnet_id (f i) = i_tailnet_id i)
    \<Longrightarrow> (\<And>i ks. i_keys i = Some ks \<Longrightarrow> keys_ok E ks \<Longrightarrow> \<exists>ks'. i_keys (f i) = Some ks' \<and> keys_ok E ks')
    \<Longrightarrow> db_inv E (s\<lparr>identity_snapshots := update_where P f (identity_snapshots s)\<rparr>)"
  unfolding db_inv_def db_sets identities_inv_def
  by (auto simp: unique_update_where refs_update_where intro!: list_all_update_where)

lemma db_inv_identities_insert [inv_intros]:
  "db_inv E s \<Longrightarrow> i_tailnet_id i \<in> tailnet_ids s \<Longrightarrow> i_tailnet_id i \<notin> i_tailnet_id ` set (identity_snapshots s)
    \<Longrightarrow> i_keys i = Some ks \<Longrightarrow> keys_ok E ks
    \<Longrightarrow> db_inv E (s\<lparr>identity_snapshots := identity_snapshots s @ [i]\<rparr>)"
  by (simp add: db_inv_def db_sets identities_inv_def row_rules)

lemma db_inv_tailnets_update [inv_intros]:
  "db_inv E s \<Longrightarrow> (\<And>t. t_id (f t) = t_id t) \<Longrightarrow> (\<And>t. t_api_id (f t) = t_api_id t)
    \<Longrightarrow> (\<And>t. t_owner_id (f t) = t_owner_id t)
    \<Longrightarrow> db_inv E (s\<lparr>tailnets := update_where P f (tailnets s)\<rparr>)"
  unfolding db_inv_def db_sets tailnets_inv_def
  by (simp add: image_update_where unique_update_where refs_update_where)

lemma db_inv_observations_update [inv_intros]:
  "db_inv E s \<Longrightarrow> (\<And>x. o_node_id (f x) = o_node_id x)
    \<Longrightarrow> db_inv E (s\<lparr>node_observations := update_where P f (node_observations s)\<rparr>)"
  by (simp add: db_inv_def db_sets observations_inv_def unique_update_where refs_update_where)

lemma db_inv_observations_upsert [inv_intros]:
  "db_inv E s \<Longrightarrow> (\<And>x. o_node_id (f x) = o_node_id x) \<Longrightarrow> o_node_id r \<in> node_ids s
    \<Longrightarrow> db_inv E (s\<lparr>node_observations := upsert_row o_node_id r f (node_observations s)\<rparr>)"
  by (auto simp: db_inv_def db_sets observations_inv_def upsert_row_def unique_update_where refs_update_where row_rules)

lemma db_inv_enrollments_update [inv_intros]:
  "db_inv E s \<Longrightarrow> (\<And>e. e_node_id (f e) = e_node_id e) \<Longrightarrow> (\<And>e. e_code_hash (f e) = e_code_hash e)
    \<Longrightarrow> db_inv E (s\<lparr>enrollments := update_where P f (enrollments s)\<rparr>)"
  by (simp add: db_inv_def db_sets enrollments_inv_def unique_update_where refs_update_where)

text \<open>Deleting a node or a tailnet takes everything that refers to it.\<close>

lemma image_pair_delete:
  "(\<lambda>x. (k x, v x)) ` {r \<in> X. k r \<noteq> rid} = {y \<in> (\<lambda>x. (k x, v x)) ` X. fst y \<noteq> rid}"
  unfolding image_def by auto

lemma rules_inv_delete_node:
  assumes "rules_inv NO TO rs"
  shows "rules_inv {x \<in> NO. fst x \<noteq> rid} TO (delete_where (\<lambda>r. r_node_id r = rid) rs)"
proof -
  have "rule_ok {x \<in> NO. fst x \<noteq> rid} TO r" if "rule_ok NO TO r" "r_node_id r \<noteq> rid" for r
    using that by (auto simp: rule_ok_def image_iff)
  with assms show ?thesis by (simp add: rules_inv_def list_all_iff unique_delete_where)
qed

lemma rules_inv_delete_tailnet:
  assumes "rules_inv NO TO rs"
  shows "rules_inv NO {x \<in> TO. fst x \<noteq> rid} (delete_where (\<lambda>r. r_tailnet_id r = rid) rs)"
proof -
  have "rule_ok NO {x \<in> TO. fst x \<noteq> rid} r" if "rule_ok NO TO r" "r_tailnet_id r \<noteq> rid" for r
    using that by (auto simp: rule_ok_def image_iff)
  with assms show ?thesis by (simp add: rules_inv_def list_all_iff unique_delete_where)
qed

lemma db_inv_delete_node [inv_intros]:
  assumes "db_inv E s"
  shows "db_inv E (delete_node_row rid s)"
proof -
  have "node_owners (delete_node_row rid s) = {x \<in> node_owners s. fst x \<noteq> rid}"
    by (simp add: node_owners_def delete_node_row_def image_pair_delete [of n_id n_owner_id])
  with rules_inv_delete_node [of "node_owners s" "tailnet_owners s" "tailnet_rules s" rid] assms
  have "rules_inv (node_owners (delete_node_row rid s)) (tailnet_owners s) (tailnet_rules (delete_node_row rid s))"
    by (simp add: db_inv_def delete_node_row_def)
  then show ?thesis
    using assms
    unfolding db_inv_def delete_node_row_def db_sets
    by (simp del: set_delete_where add: nodes_inv_def enrollments_inv_def node_sessions_inv_def grants_inv_def
        policies_inv_def challenges_inv_def observations_inv_def row_rules refs_delete_both)
qed

lemma db_inv_delete_tailnet [inv_intros]:
  assumes "db_inv E s"
  shows "db_inv E (delete_tailnet_row rid s)"
proof -
  have "tailnet_owners (delete_tailnet_row rid s) = {x \<in> tailnet_owners s. fst x \<noteq> rid}"
    by (simp add: tailnet_owners_def delete_tailnet_row_def image_pair_delete [of t_id t_owner_id])
  with rules_inv_delete_tailnet [of "node_owners s" "tailnet_owners s" "tailnet_rules s" rid] assms
  have "rules_inv (node_owners s) (tailnet_owners (delete_tailnet_row rid s)) (tailnet_rules (delete_tailnet_row rid s))"
    by (simp add: db_inv_def delete_tailnet_row_def)
  then show ?thesis
    using assms
    unfolding db_inv_def delete_tailnet_row_def db_sets
    by (simp del: set_delete_where add: tailnets_inv_def credentials_inv_def identities_inv_def grants_inv_def
        row_rules refs_delete_both)
qed

end
