(* ===== verification/Identity.thy ===== *)
theory Identity
  imports Consistency
begin

text \<open>
  What a tailnet's device list says (\<^verbatim>\<open>identity.go\<close>), the stored snapshots and the keys two
  tailnets both claim (\<^verbatim>\<open>identity_store.go\<close>).
\<close>

section \<open>Parsing a device list\<close>

text \<open>
  A device as the API describes it; a field is \<open>None\<close> when it is missing. The expiry is
  \<open>Some None\<close> when \<^verbatim>\<open>time.Parse\<close> with \<^verbatim>\<open>time.RFC3339\<close> refuses its text.
\<close>

record device =
  d_NodeKey :: string
  d_Authorized :: "bool option"
  d_IsExternal :: "bool option"
  d_KeyExpiryDisabled :: "bool option"
  d_Expires :: "time option option"

text \<open>
  A response body: its length, whether it is one JSON object followed by nothing, and its list
  of devices, \<open>None\<close> when that is missing, null or of another shape.
\<close>

record identity_body =
  ib_len :: nat
  ib_object :: bool
  ib_trailing :: bool
  ib_devices :: "device list option"

definition device_error :: "nat \<Rightarrow> string \<Rightarrow> go_error" where
  "device_error i what = ErrMsg (''device '' @ show_nat i @ '': '' @ what)"

text \<open>The expiry the loop computes: none when expiry is disabled.\<close>

definition device_expiry :: "nat \<Rightarrow> device \<Rightarrow> time result" where
  "device_expiry i d =
     (if d_KeyExpiryDisabled d = Some True then Inr zero_time
      else case d_Expires d of
        Some (Some t) \<Rightarrow> if t = zero_time then Inl (device_error i ''invalid key expiry'') else Inr t
      | _ \<Rightarrow> Inl (device_error i ''invalid key expiry''))"

fun parse_devices :: "env \<Rightarrow> time \<Rightarrow> nat \<Rightarrow> device list \<Rightarrow> string list \<Rightarrow> device_key list result" where
  "parse_devices E now i [] seen = Inr []"
| "parse_devices E now i (d # ds) seen =
     (case d_IsExternal d of
        None \<Rightarrow> Inl (device_error i ''missing external status'')
      | Some True \<Rightarrow> parse_devices E now (Suc i) ds seen
      | Some False \<Rightarrow>
          if d_Authorized d = None \<or> d_KeyExpiryDisabled d = None \<or> d_Expires d = None
          then Inl (device_error i ''missing safety fields'')
          else (case np_unmarshal E (d_NodeKey d) of
            None \<Rightarrow> Inl (device_error i ''invalid node public key'')
          | Some k \<Rightarrow>
              if np_is_zero E k then Inl (device_error i ''invalid node public key'')
              else bindE (device_expiry i d) (\<lambda>expiry.
                if d_Authorized d \<noteq> Some True \<or> expiry \<noteq> zero_time \<and> \<not> now < expiry
                then parse_devices E now (Suc i) ds seen
                else if k \<in> set seen then Inl (device_error i ''duplicate public key'')
                else bindE (parse_devices E now (Suc i) ds (k # seen)) (\<lambda>ks.
                  Inr (\<lparr>dk_NodePublic = np_string E k, dk_NotAfter = expiry\<rparr> # ks)))))"

definition parseIdentity :: "env \<Rightarrow> identity_body \<Rightarrow> time \<Rightarrow> device_key list result" where
  "parseIdentity E body now =
     (if 8388608 < ib_len body then Inl (ErrMsg ''device response unreadable or too large'')
      else if \<not> ib_object body then Inl (ErrMsg ''invalid complete device response'')
      else if ib_trailing body then Inl (ErrMsg ''trailing device response data'')
      else case ib_devices body of
        None \<Rightarrow> Inl (ErrMsg ''missing complete device list'')
      | Some ds \<Rightarrow> parse_devices E now 0 ds [])"

text \<open>What the code relies on of \<^verbatim>\<open>key.NodePublic\<close>: the text of a key parses to the key.\<close>

definition np_roundtrip :: "env \<Rightarrow> bool" where
  "np_roundtrip E \<longleftrightarrow> (\<forall>s k. np_unmarshal E s = Some k \<longrightarrow> np_unmarshal E (np_string E k) = Some k)"

text \<open>A device counts when it is the tailnet's own, authorised, and its key has not expired.\<close>

definition device_counts :: "time \<Rightarrow> device \<Rightarrow> bool" where
  "device_counts now d \<longleftrightarrow> d_IsExternal d = Some False \<and> d_Authorized d = Some True
     \<and> (d_KeyExpiryDisabled d = Some True \<or> (\<exists>t. d_Expires d = Some (Some t) \<and> now < t))"

definition device_of :: "env \<Rightarrow> device \<Rightarrow> device_key" where
  "device_of E d = \<lparr>dk_NodePublic = np_string E (the (np_unmarshal E (d_NodeKey d))),
     dk_NotAfter = (if d_KeyExpiryDisabled d = Some True then zero_time else the (the (d_Expires d)))\<rparr>"

lemma device_expiry_Inr:
  "device_expiry i d = Inr t \<longleftrightarrow>
     (if d_KeyExpiryDisabled d = Some True then t = zero_time else d_Expires d = Some (Some t) \<and> t \<noteq> zero_time)"
  by (auto simp: device_expiry_def split: option.splits)

text \<open>A parse that succeeds returns exactly the devices that count, in order.\<close>

lemma parse_devices_filter:
  "parse_devices E now i ds seen = Inr ks \<Longrightarrow> ks = map (device_of E) (filter (device_counts now) ds)"
proof (induction ds arbitrary: i seen ks)
  case Nil
  then show ?case by simp
next
  case (Cons d ds)
  show ?case
  proof (cases "d_IsExternal d = Some False")
    case False
    with Cons.prems have "parse_devices E now (Suc i) ds seen = Inr ks" and "\<not> device_counts now d"
      by (auto simp: device_counts_def split: option.splits bool.splits)
    with Cons.IH show ?thesis by simp
  next
    case True
    with Cons.prems obtain k expiry where k: "np_unmarshal E (d_NodeKey d) = Some k"
      and e: "device_expiry i d = Inr expiry"
      by (auto simp: bindE_Inr_iff split: option.splits if_splits)
    show ?thesis
    proof (cases "d_Authorized d \<noteq> Some True \<or> expiry \<noteq> zero_time \<and> \<not> now < expiry")
      case skip: True
      with Cons.prems True k e have "parse_devices E now (Suc i) ds seen = Inr ks"
        by (simp split: if_splits)
      moreover from skip e have "\<not> device_counts now d"
        by (auto simp: device_counts_def device_expiry_Inr split: if_splits)
      ultimately show ?thesis using Cons.IH by simp
    next
      case keep: False
      with Cons.prems True k e obtain ks' where "parse_devices E now (Suc i) ds (k # seen) = Inr ks'"
        and ks: "ks = \<lparr>dk_NodePublic = np_string E k, dk_NotAfter = expiry\<rparr> # ks'"
        by (auto simp: bindE_Inr_iff split: if_splits)
      moreover from keep True e have "device_counts now d"
        by (auto simp: device_counts_def device_expiry_Inr split: if_splits)
      moreover from k e have "device_of E d = \<lparr>dk_NodePublic = np_string E k, dk_NotAfter = expiry\<rparr>"
        by (auto simp: device_of_def device_expiry_Inr split: if_splits)
      ultimately show ?thesis using Cons.IH by simp
    qed
  qed
qed

text \<open>Its keys are canonical, valid and distinct.\<close>

lemma parse_devices_keys:
  assumes "np_roundtrip E" and "parse_devices E now i ds seen = Inr ks"
  shows "list_all (\<lambda>k. key_ok E k \<and> np_string E (key_public E k) = dk_NodePublic k) ks
    \<and> distinct (map (key_public E) ks) \<and> key_public E ` set ks \<inter> set seen = {}"
  using assms(2)
proof (induction ds arbitrary: i seen ks)
  case Nil
  then show ?case by simp
next
  case (Cons d ds)
  show ?case
  proof (cases "parse_devices E now (Suc i) ds seen = Inr ks")
    case True
    then show ?thesis by (rule Cons.IH)
  next
    case False
    with Cons.prems obtain k expiry ks' where k: "np_unmarshal E (d_NodeKey d) = Some k" "\<not> np_is_zero E k"
        "k \<notin> set seen" and rest: "parse_devices E now (Suc i) ds (k # seen) = Inr ks'"
      and ks: "ks = \<lparr>dk_NodePublic = np_string E k, dk_NotAfter = expiry\<rparr> # ks'"
      by (auto simp: bindE_Inr_iff split: option.splits bool.splits if_splits)
    have "np_unmarshal E (np_string E k) = Some k"
      using assms(1) k(1) unfolding np_roundtrip_def by blast
    with Cons.IH [OF rest] k ks show ?thesis
      by (auto simp: key_ok_def key_public_def)
  qed
qed

text \<open>On canonical keys, the texts are distinct exactly when the keys are.\<close>

lemma distinct_canonical:
  assumes "list_all (\<lambda>k. key_ok E k \<and> np_string E (key_public E k) = dk_NodePublic k) ks"
  shows "distinct (map dk_NodePublic ks) \<longleftrightarrow> distinct (map (key_public E) ks)"
proof -
  have "dk_NodePublic k = dk_NodePublic l \<longleftrightarrow> key_public E k = key_public E l"
    if "k \<in> set ks" "l \<in> set ks" for k l
  proof
    assume "dk_NodePublic k = dk_NodePublic l"
    then show "key_public E k = key_public E l" by (simp add: key_public_def)
  next
    assume eq: "key_public E k = key_public E l"
    have "np_string E (key_public E k) = dk_NodePublic k" "np_string E (key_public E l) = dk_NodePublic l"
      using assms that by (simp_all add: list_all_iff)
    with eq show "dk_NodePublic k = dk_NodePublic l" by simp
  qed
  then have "inj_on dk_NodePublic (set ks) \<longleftrightarrow> inj_on (key_public E) (set ks)"
    unfolding inj_on_def by blast
  then show ?thesis by (simp add: distinct_map)
qed

lemma keys_ok_distinct_public: "keys_ok E ks \<Longrightarrow> distinct (map (key_public E) ks)"
  using distinct_canonical [of E ks] by (simp add: keys_ok_def)

lemma parseIdentity_keys_ok:
  assumes "np_roundtrip E" and "parseIdentity E body now = Inr ks"
  shows "keys_ok E ks"
proof -
  obtain ds where ds: "parse_devices E now 0 ds [] = Inr ks"
    using assms(2) by (auto simp: parseIdentity_def split: if_splits option.splits)
  from parse_devices_keys [OF assms(1) ds] distinct_canonical [of E ks] show ?thesis
    by (simp add: keys_ok_def)
qed

section \<open>Snapshots and conflicting keys\<close>

record identity_snapshot =
  is_Revision :: nat
  is_LastSuccess :: time
  is_Keys :: "device_key list"

text \<open>
  A Go map from tailnets to snapshots, iterated in no particular order, is the list of its
  entries here; that the order does not matter is part of what is proved.
\<close>

definition identitySnapshots :: "store \<Rightarrow> (string \<times> identity_snapshot) list result" where
  "identitySnapshots s = mapE (\<lambda>i. case i_keys i of
       None \<Rightarrow> Inl (ErrMsg ''invalid identity keys'')
     | Some ks \<Rightarrow> Inr (i_tailnet_id i,
         \<lparr>is_Revision = i_revision i, is_LastSuccess = unix_time (i_last_success i), is_Keys = ks\<rparr>))
     (identity_snapshots s)"

fun conflict_step :: "string \<Rightarrow> device_key \<Rightarrow> (string \<rightharpoonup> string) \<times> string list \<Rightarrow> (string \<rightharpoonup> string) \<times> string list" where
  "conflict_step tid k (owners, conflicts) =
     (case owners (dk_NodePublic k) of
        Some owner \<Rightarrow> if owner \<noteq> tid then (owners, dk_NodePublic k # conflicts)
                      else (owners(dk_NodePublic k \<mapsto> tid), conflicts)
      | None \<Rightarrow> (owners(dk_NodePublic k \<mapsto> tid), conflicts))"

definition conflictingKeys :: "(string \<times> identity_snapshot) list \<Rightarrow> string list" where
  "conflictingKeys all =
     snd (fold (\<lambda>(tid, snap). fold (conflict_step tid) (is_Keys snap)) all (Map.empty, []))"

text \<open>The tailnets that hold a key.\<close>

definition holders :: "(string \<times> identity_snapshot) list \<Rightarrow> string \<Rightarrow> string set" where
  "holders all k = {tid. \<exists>snap. (tid, snap) \<in> set all \<and> k \<in> dk_NodePublic ` set (is_Keys snap)}"

text \<open>
  The state of the two loops after the pairs \<open>P\<close> of tailnet and key: the owner of a key is one
  of its holders so far, and a key conflicts when there are two of them.
\<close>

definition conflict_inv ::
    "(string \<times> string) set \<Rightarrow> (string \<rightharpoonup> string) \<times> string list \<Rightarrow> bool" where
  "conflict_inv P st \<longleftrightarrow>
     (\<forall>k. (fst st k = None \<longleftrightarrow> (\<forall>t. (t, k) \<notin> P)) \<and> (\<forall>t. fst st k = Some t \<longrightarrow> (t, k) \<in> P))
     \<and> (\<forall>k. k \<in> set (snd st) \<longleftrightarrow> (\<exists>t u. (t, k) \<in> P \<and> (u, k) \<in> P \<and> t \<noteq> u))"

lemma conflict_step_inv:
  assumes "conflict_inv P st"
  shows "conflict_inv (insert (tid, dk_NodePublic k) P) (conflict_step tid k st)"
proof (cases st)
  case (Pair owners conflicts)
  let ?K = "dk_NodePublic k"
  have owners: "\<And>k. owners k = None \<longleftrightarrow> (\<forall>t. (t, k) \<notin> P)" "\<And>k t. owners k = Some t \<Longrightarrow> (t, k) \<in> P"
    and conflicts: "\<And>k. k \<in> set conflicts \<longleftrightarrow> (\<exists>t u. (t, k) \<in> P \<and> (u, k) \<in> P \<and> t \<noteq> u)"
    using assms Pair unfolding conflict_inv_def by simp_all
  show ?thesis
  proof (cases "owners ?K")
    case None
    then have no: "\<forall>t. (t, ?K) \<notin> P" by (simp add: owners(1))
    have "(owners(?K \<mapsto> tid)) j = None \<longleftrightarrow> (\<forall>t. (t, j) \<notin> insert (tid, ?K) P)" for j
      using owners(1) [of j] by (cases "j = ?K") auto
    moreover have "(owners(?K \<mapsto> tid)) j = Some t \<longrightarrow> (t, j) \<in> insert (tid, ?K) P" for j t
      using owners(2) [of j t] by (cases "j = ?K") auto
    moreover have "j \<in> set conflicts \<longleftrightarrow>
        (\<exists>t u. (t, j) \<in> insert (tid, ?K) P \<and> (u, j) \<in> insert (tid, ?K) P \<and> t \<noteq> u)" for j
      using conflicts [of j] no by (cases "j = ?K") auto
    moreover have "conflict_step tid k st = (owners(?K \<mapsto> tid), conflicts)" using None Pair by simp
    ultimately show ?thesis unfolding conflict_inv_def by simp
  next
    case (Some owner)
    then have P: "(owner, ?K) \<in> P" by (rule owners(2))
    show ?thesis
    proof (cases "owner = tid")
      case True
      with Some Pair have "conflict_step tid k st = st" by (simp add: fun_upd_idem)
      moreover have "insert (tid, ?K) P = P" using P True by auto
      ultimately show ?thesis using assms by simp
    next
      case False
      have "owners j = None \<longleftrightarrow> (\<forall>t. (t, j) \<notin> insert (tid, ?K) P)" for j
        using owners(1) [of j] P by (cases "j = ?K") auto
      moreover have "owners j = Some t \<longrightarrow> (t, j) \<in> insert (tid, ?K) P" for j t
        using owners(2) [of j t] by auto
      moreover have "j \<in> set (?K # conflicts) \<longleftrightarrow>
          (\<exists>t u. (t, j) \<in> insert (tid, ?K) P \<and> (u, j) \<in> insert (tid, ?K) P \<and> t \<noteq> u)" for j
        using conflicts [of j] P False by (cases "j = ?K") auto
      moreover have "conflict_step tid k st = (owners, ?K # conflicts)" using False Some Pair by simp
      ultimately show ?thesis unfolding conflict_inv_def by simp
    qed
  qed
qed

lemma conflict_keys_inv:
  "conflict_inv P st \<Longrightarrow>
     conflict_inv (P \<union> Pair tid ` dk_NodePublic ` set ks) (fold (conflict_step tid) ks st)"
proof (induction ks arbitrary: P st)
  case Nil
  then show ?case by simp
next
  case (Cons k ks)
  from Cons.IH [OF conflict_step_inv [OF Cons.prems, of tid k]] show ?case by simp
qed

lemma conflict_fold_inv:
  "conflict_inv P st \<Longrightarrow>
     conflict_inv (P \<union> {(t, k). t \<in> holders all k})
       (fold (\<lambda>(tid, snap). fold (conflict_step tid) (is_Keys snap)) all st)"
proof (induction all arbitrary: P st)
  case Nil
  then show ?case by (simp add: holders_def)
next
  case (Cons x all)
  obtain tid snap where x: "x = (tid, snap)" by (cases x)
  have eq: "P \<union> Pair tid ` dk_NodePublic ` set (is_Keys snap) \<union> {(t, k). t \<in> holders all k}
      = P \<union> {(t, k). t \<in> holders (x # all) k}"
    unfolding x holders_def by auto
  from Cons.IH [OF conflict_keys_inv [OF Cons.prems, of tid "is_Keys snap"]] show ?case
    unfolding eq by (simp add: x)
qed

text \<open>The loops find the keys held by two tailnets, whatever the order of the map.\<close>

lemma set_conflictingKeys:
  "k \<in> set (conflictingKeys all) \<longleftrightarrow> (\<exists>t u. t \<in> holders all k \<and> u \<in> holders all k \<and> t \<noteq> u)"
proof -
  have "conflict_inv {} (Map.empty, [])" by (simp add: conflict_inv_def)
  from conflict_fold_inv [OF this, of all] show ?thesis
    unfolding conflict_inv_def conflictingKeys_def by simp
qed

section \<open>Properties\<close>

text \<open>\<^verbatim>\<open>conflictingKeys\<close> finds exactly the keys that two different tailnets hold, in whatever
  order the map of snapshots is iterated.\<close>

theorem conflictingKeys_exact:
  "k \<in> set (conflictingKeys all) \<longleftrightarrow>
     (\<exists>t snap u snap'. (t, snap) \<in> set all \<and> (u, snap') \<in> set all \<and> t \<noteq> u
        \<and> k \<in> dk_NodePublic ` set (is_Keys snap) \<and> k \<in> dk_NodePublic ` set (is_Keys snap'))"
  unfolding set_conflictingKeys holders_def by blast

text \<open>C11: A device list that parses yields exactly the keys of the tailnet's own, authorised,
  unexpired devices, in order, each in its canonical text and with its own expiry, and no
  key twice. (That \<^verbatim>\<open>key.NodePublic\<close> parses its own text back is assumed of that package.)\<close>

theorem parseIdentity_exact:
  assumes "np_roundtrip E" and "parseIdentity E body now = Inr ks"
  shows "(\<exists>ds. ib_devices body = Some ds \<and> ks = map (device_of E) (filter (device_counts now) ds))
    \<and> keys_ok E ks"
proof -
  obtain ds where "ib_devices body = Some ds" "parse_devices E now 0 ds [] = Inr ks"
    using assms(2) by (auto simp: parseIdentity_def split: if_splits option.splits)
  with parse_devices_filter parseIdentity_keys_ok [OF assms] show ?thesis by blast
qed

definition sample_body :: identity_body where
  "sample_body = \<lparr>ib_len = 400, ib_object = True, ib_trailing = False, ib_devices = Some
     [\<lparr>d_NodeKey = ''nodekey:a1'', d_Authorized = Some True, d_IsExternal = Some False,
       d_KeyExpiryDisabled = Some True, d_Expires = Some None\<rparr>,
      \<lparr>d_NodeKey = ''nodekey:b2'', d_Authorized = Some True, d_IsExternal = Some False,
       d_KeyExpiryDisabled = Some False, d_Expires = Some (Some (unix_time 10))\<rparr>,
      \<lparr>d_NodeKey = [], d_Authorized = None, d_IsExternal = Some True, d_KeyExpiryDisabled = None,
       d_Expires = None\<rparr>]\<rparr>"

lemma sample_np_roundtrip: "np_roundtrip sample_env"
  by (simp add: np_roundtrip_def sample_env_def)

theorem parseIdentity_exact_witness:
  "np_roundtrip sample_env
   \<and> parseIdentity sample_env sample_body (unix_time 20) = Inr [\<lparr>dk_NodePublic = ''nodekey:a1'', dk_NotAfter = zero_time\<rparr>]
   \<and> keys_ok sample_env [\<lparr>dk_NodePublic = ''nodekey:a1'', dk_NotAfter = zero_time\<rparr>]"
proof -
  have parse: "parseIdentity sample_env sample_body (unix_time 20) = Inr [\<lparr>dk_NodePublic = ''nodekey:a1'', dk_NotAfter = zero_time\<rparr>]"
    by (simp add: parseIdentity_def sample_body_def sample_env_def device_expiry_def unix_time_def zero_time_def)
  from parseIdentity_exact [OF sample_np_roundtrip parse] parse sample_np_roundtrip show ?thesis by simp
qed

end
