(* ===== verification/PolicyBuild.thy ===== *)
theory PolicyBuild
  imports Identity
begin

text \<open>
  How the controller derives a node's policy from its tables: \<^verbatim>\<open>internal/control/policy.go\<close>.
\<close>

section \<open>Retention times\<close>

record retentions =
  rt_IdentitySeconds :: int
  rt_ControlSeconds :: int

definition maxSeconds :: int where
  "maxSeconds = int MaxInt64 div second"

definition validRetentions :: "retentions \<Rightarrow> bool" where
  "validRetentions r \<longleftrightarrow> 0 < rt_IdentitySeconds r \<and> 0 < rt_ControlSeconds r
     \<and> rt_IdentitySeconds r \<le> maxSeconds \<and> rt_ControlSeconds r \<le> maxSeconds"

text \<open>A setting that is missing is \<^verbatim>\<open>NULL\<close>, which does not scan into a string.\<close>

definition readRetentions :: "store \<Rightarrow> retentions result" where
  "readRetentions s =
     (case (setting ''identity_retention_seconds'' s, setting ''control_retention_seconds'' s) of
        (Some identity, Some control) \<Rightarrow>
          (case ParseInt identity of
             None \<Rightarrow> Inl ErrInvalid
           | Some i \<Rightarrow>
               (case ParseInt control of
                  None \<Rightarrow> Inl ErrInvalid
                | Some c \<Rightarrow>
                    let r = \<lparr>rt_IdentitySeconds = i, rt_ControlSeconds = c\<rparr>
                    in if validRetentions r then Inr r else Inl ErrInvalid))
      | _ \<Rightarrow> Inl (ErrMsg ''converting NULL to string is unsupported''))"

text \<open>\<^verbatim>\<open>time.Duration(seconds) * time.Second\<close>, an \<^verbatim>\<open>int64\<close> product.\<close>

definition duration_seconds :: "int \<Rightarrow> int" where
  "duration_seconds n = wrap_int64 (n * second)"

lemma duration_seconds_valid:
  assumes "0 < n" and "n \<le> maxSeconds"
  shows "duration_seconds n = n * second"
proof -
  have "n * second \<le> 9223372036 * 1000000000"
    using assms(2) by (simp add: maxSeconds_def MaxInt64_def second_def)
  moreover have "0 < n * second" using assms(1) by (simp add: second_def)
  ultimately show ?thesis unfolding duration_seconds_def by (intro wrap_int64_id) simp_all
qed

lemma readRetentions_Inr: "readRetentions s = Inr r \<Longrightarrow> validRetentions r"
  by (auto simp: readRetentions_def Let_def split: option.splits if_splits)

section \<open>The rows of a policy\<close>

text \<open>
  The query: the node's active grants, each with its tailnet and, by the left join, its
  bandwidth rule, where the tailnet and its owner are enabled, in the order of the tailnets.
\<close>

definition find_rule :: "store \<Rightarrow> string \<Rightarrow> string \<Rightarrow> rule_row option" where
  "find_rule s node tailnet = find (\<lambda>r. (r_node_id r, r_tailnet_id r) = (node, tailnet)) (tailnet_rules s)"

definition policy_row_of :: "store \<Rightarrow> grant_row \<Rightarrow> (grant_row \<times> tailnet_row \<times> rule_row option) option" where
  "policy_row_of s g =
     (case find_tailnet s (g_tailnet_id g) of
        None \<Rightarrow> None
      | Some t \<Rightarrow> if t_enabled t \<and> user_enabled s (t_owner_id t)
                  then Some (g, t, find_rule s (g_node_id g) (g_tailnet_id g)) else None)"

definition policy_rows :: "store \<Rightarrow> string \<Rightarrow> (grant_row \<times> tailnet_row \<times> rule_row option) list" where
  "policy_rows s node =
     sort_key (\<lambda>(g, _). g_tailnet_id g)
       (List.map_filter (policy_row_of s) (filter (\<lambda>g. g_node_id g = node \<and> g_state g = Active) (grants s)))"

definition grant_entry ::
    "retentions \<Rightarrow> identity_snapshot \<Rightarrow> string list \<Rightarrow> grant_row \<Rightarrow> grant_policy" where
  "grant_entry rt snap conflicts g = \<lparr>
     gp_GrantID = g_id g, gp_GrantRevision = g_revision g, gp_TailnetID = g_tailnet_id g,
     gp_LastIdentitySuccess = is_LastSuccess snap,
     gp_IdentityUntil = is_LastSuccess snap + duration_seconds (rt_IdentitySeconds rt),
     gp_ControlUntil = unix_time (g_last_control_success g) + duration_seconds (rt_ControlSeconds rt),
     gp_ExplicitUntil = (if g_explicit_until g \<noteq> 0 then unix_time (g_explicit_until g) else zero_time),
     gp_Keys = filter (\<lambda>k. dk_NodePublic k \<notin> set conflicts) (is_Keys snap)\<rparr>"

definition rule_group :: "string \<Rightarrow> tailnet_row \<Rightarrow> rule_row option \<Rightarrow> string" where
  "rule_group owner t r =
     (case r of Some rule \<Rightarrow> r_group_name rule
      | None \<Rightarrow> if t_owner_id t = owner then ''owner'' else ''shared'')"

definition rule_entry :: "string \<Rightarrow> grant_row \<Rightarrow> tailnet_row \<Rightarrow> rule_row option \<Rightarrow> tailnet_qos" where
  "rule_entry owner g t r = \<lparr>
     tq_TailnetID = g_tailnet_id g, tq_Group = rule_group owner t r,
     tq_Weight = (case r of Some rule \<Rightarrow> r_weight rule | None \<Rightarrow> 1),
     tq_MaxBPS = (case r of Some rule \<Rightarrow> r_max_bps rule | None \<Rightarrow> 0)\<rparr>"

text \<open>The loop over the rows: a row without a snapshot or without contact is skipped.\<close>

fun policy_loop ::
    "string \<Rightarrow> retentions \<Rightarrow> (string \<times> identity_snapshot) list \<Rightarrow> string list
      \<Rightarrow> (grant_row \<times> tailnet_row \<times> rule_row option) list \<Rightarrow> (grant_policy \<times> tailnet_qos) list result" where
  "policy_loop owner rt all conflicts [] = Inr []"
| "policy_loop owner rt all conflicts ((g, t, r) # rows) =
     (case map_of all (g_tailnet_id g) of
        None \<Rightarrow> policy_loop owner rt all conflicts rows
      | Some snap \<Rightarrow>
          if g_last_control_success g \<le> 0 then policy_loop owner rt all conflicts rows
          else if rule_group owner t r = ''owner'' \<and> t_owner_id t \<noteq> owner then Inl ErrInvalid
          else bindE (policy_loop owner rt all conflicts rows) (\<lambda>xs.
            Inr ((grant_entry rt snap conflicts g, rule_entry owner g t r) # xs)))"

definition serving_state :: "node_state \<Rightarrow> bool" where
  "serving_state st \<longleftrightarrow> st = Registered \<or> st = Ready \<or> st = Offline"

section \<open>Building\<close>

text \<open>The first query: the node and its owner's row.\<close>

definition node_and_owner :: "store \<Rightarrow> string \<Rightarrow> (node_row \<times> user_row) result" where
  "node_and_owner s node =
     bindE (query_row (\<lambda>n. n_id n = node) (nodes s)) (\<lambda>n.
     bindE (query_row (\<lambda>u. u_id u = n_owner_id n) (users s)) (\<lambda>u. Inr (n, u)))"

text \<open>The grants and rules of the policy, before its revision and time are set.\<close>

definition policy_content :: "store \<Rightarrow> string \<Rightarrow> policy result" where
  "policy_content s node =
     bindE (node_and_owner s node) (\<lambda>(n, u).
     bindE (query_row (\<lambda>r. pr_node_id r = node) (node_policies s)) (\<lambda>row.
     bindE (readRetentions s) (\<lambda>rt.
     bindE (identitySnapshots s) (\<lambda>all.
     bindE (if n_enabled n \<and> u_enabled u \<and> serving_state (n_state n)
            then policy_loop (n_owner_id n) rt all (conflictingKeys all) (policy_rows s node)
            else Inr []) (\<lambda>xs.
     Inr \<lparr>p_ClusterID = clusterID s, p_NodeID = node, p_Revision = 0, p_GeneratedAt = zero_time,
          p_Grants = map fst xs,
          p_QoS = \<lparr>q_BudgetBPS = pr_budget_bps row, q_OwnerWeight = pr_owner_weight row,
                   q_SharedWeight = pr_shared_weight row, q_SharedMaxBPS = pr_shared_max_bps row,
                   q_Tailnets = map snd xs\<rparr>\<rparr>)))))"

definition body_len :: "policy option \<Rightarrow> nat" where
  "body_len body = (case body of None \<Rightarrow> 0 | Some p \<Rightarrow> policy_size p)"

definition store_policy :: "policy \<Rightarrow> string \<Rightarrow> store \<Rightarrow> store" where
  "store_policy p node = update_policy_row node (\<lambda>r. r\<lparr>
     pr_desired_revision := p_Revision p, pr_generated_at := unix (p_GeneratedAt p),
     pr_policy := Some (Some p)\<rparr>)"

text \<open>The end of \<^verbatim>\<open>buildPolicy\<close>: the next revision, validated and stored.\<close>

definition publish_policy :: "env \<Rightarrow> store \<Rightarrow> string \<Rightarrow> time \<Rightarrow> nat \<Rightarrow> policy \<Rightarrow> (policy \<times> store) result" where
  "publish_policy E s node now revision p =
     (let p' = p\<lparr>p_Revision := revision + 1, p_GeneratedAt := now\<rparr>
      in bindE (ValidatePolicy E p' (clusterID s) node) (\<lambda>_.
           if MaxPolicyBytes < policy_size p' then Inl ErrInvalid
           else Inr (p', store_policy p' node s)))"

definition buildPolicy :: "env \<Rightarrow> store \<Rightarrow> string \<Rightarrow> time \<Rightarrow> (policy \<times> store) result" where
  "buildPolicy E s node now =
     bindE (policy_content s node) (\<lambda>p.
     bindE (query_row (\<lambda>r. pr_node_id r = node) (node_policies s)) (\<lambda>row.
     if pr_desired_revision row = MaxInt64 then Inl ErrConflict
     else case pr_policy row of
       None \<Rightarrow> publish_policy E s node now (pr_desired_revision row) p
     | Some body \<Rightarrow>
         (case DecodePolicy E (body_len body) body (clusterID s) node of
            Inl _ \<Rightarrow> Inl ErrInvalid
          | Inr old \<Rightarrow>
              if p_Revision old \<noteq> pr_desired_revision row then Inl ErrInvalid
              else if p\<lparr>p_Revision := p_Revision old, p_GeneratedAt := p_GeneratedAt old\<rparr> = old
              then Inr (old, s)
              else if now < p_GeneratedAt old then Inl ErrConflict
              else publish_policy E s node now (pr_desired_revision row) p)))"

text \<open>\<^verbatim>\<open>rebuildPolicies\<close>: every node with a policy row, in the order of the nodes.\<close>

definition rebuildPolicies :: "env \<Rightarrow> time \<Rightarrow> store \<Rightarrow> store result" where
  "rebuildPolicies E now s =
     foldE (\<lambda>node t. bindE (buildPolicy E t node now) (\<lambda>(_, t'). Inr t'))
       (sort (map pr_node_id (node_policies s))) s"

definition BuildPolicy :: "env \<Rightarrow> store \<Rightarrow> string \<Rightarrow> time \<Rightarrow> (policy \<times> store) result" where
  "BuildPolicy E s node now =
     bindE (buildPolicy E s node now) (\<lambda>(p, s'). Inr (p, notifyPolicy node s'))"

definition Retentions :: "store \<Rightarrow> retentions result" where
  "Retentions s = readRetentions s"

definition put_setting :: "string \<Rightarrow> string \<Rightarrow> store \<Rightarrow> store" where
  "put_setting k v s = s\<lparr>settings := update_where (\<lambda>e. fst e = k) (\<lambda>e. (fst e, v)) (settings s)\<rparr>"

definition SetRetentions :: "env \<Rightarrow> store \<Rightarrow> actor \<Rightarrow> retentions \<Rightarrow> time \<Rightarrow> store result" where
  "SetRetentions E s actor r now =
     bindE (failIf (\<not> ac_Enabled actor \<or> ac_Role actor \<noteq> ''admin'') ErrForbidden) (\<lambda>_.
     bindE (failIf (\<not> validRetentions r) ErrInvalid) (\<lambda>_.
     bindE (activeActor s actor) (\<lambda>_.
     bindE (rebuildPolicies E now
        (put_setting ''control_retention_seconds'' (FormatInt (rt_ControlSeconds r))
          (put_setting ''identity_retention_seconds'' (FormatInt (rt_IdentitySeconds r)) s))) (\<lambda>s1.
     Inr (notifyPolicies
       (writeAudit (ac_ID actor) (ac_ID actor) ''cluster'' (clusterID s) ''retention.update'' now s1))))))"

section \<open>What is built\<close>

text \<open>The entry a row contributes.\<close>

fun row_entry ::
    "string \<Rightarrow> retentions \<Rightarrow> (string \<times> identity_snapshot) list \<Rightarrow> string list
      \<Rightarrow> grant_row \<times> tailnet_row \<times> rule_row option \<Rightarrow> (grant_policy \<times> tailnet_qos) option" where
  "row_entry owner rt all conflicts (g, t, r) =
     (case map_of all (g_tailnet_id g) of
        None \<Rightarrow> None
      | Some snap \<Rightarrow> if g_last_control_success g \<le> 0 then None
                     else Some (grant_entry rt snap conflicts g, rule_entry owner g t r))"

fun misgrouped :: "string \<Rightarrow> grant_row \<times> tailnet_row \<times> rule_row option \<Rightarrow> bool" where
  "misgrouped owner (g, t, r) \<longleftrightarrow> rule_group owner t r = ''owner'' \<and> t_owner_id t \<noteq> owner"

lemma policy_loop_Inr:
  "policy_loop owner rt all conflicts rows = Inr xs \<longleftrightarrow>
     xs = List.map_filter (row_entry owner rt all conflicts) rows
     \<and> list_all (\<lambda>x. row_entry owner rt all conflicts x \<noteq> None \<longrightarrow> \<not> misgrouped owner x) rows"
proof (induction rows arbitrary: xs)
  case Nil
  then show ?case by (auto simp: List.map_filter_def)
next
  case (Cons x rows)
  obtain g t r where x: "x = (g, t, r)" by (cases x)
  show ?case
    by (cases "map_of all (g_tailnet_id g)")
      (auto simp: x Cons.IH bindE_Inr_iff map_filter_simps)
qed

lemma policy_content_store [simp]:
  "policy_content (store_policy p m s) node = policy_content s node"
proof -
  let ?s = "store_policy p m s"
  have tables: "tailnets ?s = tailnets s" "users ?s = users s" "tailnet_rules ?s = tailnet_rules s"
    "nodes ?s = nodes s" "settings ?s = settings s" "identity_snapshots ?s = identity_snapshots s"
    "grants ?s = grants s" "clusterID ?s = clusterID s"
    by (simp_all add: store_policy_def update_policy_row_def)
  have same: "node_and_owner ?s node = node_and_owner s node" "readRetentions ?s = readRetentions s"
    "identitySnapshots ?s = identitySnapshots s" "policy_rows ?s node = policy_rows s node"
    "clusterID ?s = clusterID s"
    unfolding node_and_owner_def readRetentions_def setting_def identitySnapshots_def policy_rows_def
      policy_row_of_def [abs_def] find_tailnet_def find_rule_def user_enabled_def tables by (rule refl)+
  have row: "find (\<lambda>r. pr_node_id r = node) (node_policies ?s) =
      map_option (\<lambda>r. if node = m then r\<lparr>pr_desired_revision := p_Revision p,
        pr_generated_at := unix (p_GeneratedAt p), pr_policy := Some (Some p)\<rparr> else r)
      (find (\<lambda>r. pr_node_id r = node) (node_policies s))"
    by (simp add: store_policy_def update_policy_row_def find_update_where option.map_ident)
  show ?thesis
    unfolding policy_content_def same
    by (cases "find (\<lambda>r. pr_node_id r = node) (node_policies s)") (simp_all add: query_row_def row)
qed

text \<open>
  The two ways to succeed: the stored policy already says what the tables say, and nothing
  is written; or the next revision is published.
\<close>

definition unchanged_policy :: "env \<Rightarrow> store \<Rightarrow> string \<Rightarrow> policy \<Rightarrow> policy_row \<Rightarrow> policy \<Rightarrow> bool" where
  "unchanged_policy E s node c row p \<longleftrightarrow> pr_policy row = Some (Some p) \<and> p_Revision p = pr_desired_revision row
     \<and> p = c\<lparr>p_Revision := p_Revision p, p_GeneratedAt := p_GeneratedAt p\<rparr>
     \<and> policy_valid E p (clusterID s) node \<and> policy_size p \<le> MaxPolicyBytes"

definition next_policy :: "env \<Rightarrow> store \<Rightarrow> string \<Rightarrow> time \<Rightarrow> policy \<Rightarrow> policy_row \<Rightarrow> policy \<Rightarrow> bool" where
  "next_policy E s node now c row p \<longleftrightarrow>
     p = c\<lparr>p_Revision := pr_desired_revision row + 1, p_GeneratedAt := now\<rparr>
     \<and> policy_valid E p (clusterID s) node \<and> policy_size p \<le> MaxPolicyBytes
     \<and> (\<forall>old. pr_policy row = Some (Some old) \<longrightarrow> p_GeneratedAt old \<le> now
          \<and> c\<lparr>p_Revision := p_Revision old, p_GeneratedAt := p_GeneratedAt old\<rparr> \<noteq> old)"

lemma publish_policy_Inr:
  "publish_policy E s node now revision c = Inr (p, s') \<longleftrightarrow>
     p = c\<lparr>p_Revision := revision + 1, p_GeneratedAt := now\<rparr> \<and> policy_valid E p (clusterID s) node
     \<and> policy_size p \<le> MaxPolicyBytes \<and> s' = store_policy p node s"
  by (auto simp: publish_policy_def Let_def bindE_Inr_iff ValidatePolicy_valid)

lemma buildPolicy_cases:
  assumes "buildPolicy E s node now = Inr (p, s')"
  obtains c row where "policy_content s node = Inr c" "find (\<lambda>r. pr_node_id r = node) (node_policies s) = Some row"
    "pr_desired_revision row \<noteq> MaxInt64"
    "unchanged_policy E s node c row p \<and> s' = s \<or> next_policy E s node now c row p \<and> s' = store_policy p node s"
proof -
  from assms obtain c row where c: "policy_content s node = Inr c"
    and row: "find (\<lambda>r. pr_node_id r = node) (node_policies s) = Some row"
    by (auto simp: buildPolicy_def bindE_Inr_iff query_row_Inr)
  note eq = assms [unfolded buildPolicy_def c query_row_def row bindE_simps option.case]
  show thesis
  proof (cases "pr_policy row")
    case None
    with eq c row that [of c row] show thesis
      by (auto simp: publish_policy_Inr next_policy_def split: if_splits)
  next
    case (Some body)
    with eq obtain old where old: "DecodePolicy E (body_len body) body (clusterID s) node = Inr old"
      by (auto split: if_splits sum.splits)
    then have body: "body = Some old" "policy_size old \<le> MaxPolicyBytes" "policy_valid E old (clusterID s) node"
      by (auto simp: DecodePolicy_Inr body_len_def)
    from eq Some old body c row that [of c row] show thesis
      by (auto simp: publish_policy_Inr next_policy_def unchanged_policy_def split: if_splits)
  qed
qed

text \<open>Building a policy keeps the store consistent.\<close>

lemma store_policy_inv:
  assumes inv: "db_inv E s" and row: "find (\<lambda>r. pr_node_id r = node) (node_policies s) = Some row"
    and rev: "pr_desired_revision row \<noteq> MaxInt64" and p: "p_Revision p = pr_desired_revision row + 1"
      "policy_valid E p (clusterID s) node" "policy_size p \<le> MaxPolicyBytes"
  shows "db_inv E (store_policy p node s)"
  unfolding store_policy_def
proof (rule db_inv_update_policy_row [OF inv])
  fix r assume r: "r \<in> set (node_policies s)" "pr_node_id r = node" "policy_row_ok E (setting ''cluster_id'' s) r"
  have "unique pr_node_id (node_policies s)" using inv by (simp add: db_inv_def policies_inv_def)
  with r row have "r = row" using find_SomeD [OF row] by (metis uniqueD)
  moreover have "clusterID s \<noteq> []" using p(2) by (simp add: policy_valid_def validID_def)
  with inv have "setting ''cluster_id'' s = Some (clusterID s)" by (simp add: db_inv_def)
  ultimately show "policy_row_ok E (setting ''cluster_id'' s) (r\<lparr>pr_desired_revision := p_Revision p,
      pr_generated_at := unix (p_GeneratedAt p), pr_policy := Some (Some p)\<rparr>)"
    using r rev p by (auto simp: policy_row_ok_def)
qed simp

lemma buildPolicy_inv [inv_intros]:
  assumes "buildPolicy E s node now = Inr (p, s')" and "db_inv E s"
  shows "db_inv E s'"
  using assms(1)
proof (rule buildPolicy_cases)
  fix c row
  assume row: "find (\<lambda>r. pr_node_id r = node) (node_policies s) = Some row" "pr_desired_revision row \<noteq> MaxInt64"
    and "unchanged_policy E s node c row p \<and> s' = s \<or> next_policy E s node now c row p \<and> s' = store_policy p node s"
  then show ?thesis
    using assms(2) store_policy_inv [OF assms(2) row, of p] by (auto simp: next_policy_def)
qed

lemma rebuildPolicies_inv [inv_intros]:
  assumes "rebuildPolicies E now s = Inr s'" and "db_inv E s"
  shows "db_inv E s'"
  using assms unfolding rebuildPolicies_def
  by (rule foldE_invariant) (auto simp: bindE_Inr_iff dest: buildPolicy_inv)

lemma buildPolicy_valid:
  assumes "buildPolicy E s node now = Inr (p, s')"
  shows "policy_valid E p (clusterID s) node" and "policy_size p \<le> MaxPolicyBytes"
  using assms by (auto elim!: buildPolicy_cases simp: unchanged_policy_def next_policy_def)

text \<open>What every other table sees of a build: nothing.\<close>

definition same_but_policies :: "store \<Rightarrow> store \<Rightarrow> bool" where
  "same_but_policies s s' \<longleftrightarrow> s'\<lparr>node_policies := node_policies s\<rparr> = s"

lemma same_but_policies_refl [simp]: "same_but_policies s s"
  by (simp add: same_but_policies_def)

lemma same_but_policies_trans:
  assumes "same_but_policies s t" and "same_but_policies t u"
  shows "same_but_policies s u"
proof -
  have "u\<lparr>node_policies := node_policies s\<rparr> = (u\<lparr>node_policies := node_policies t\<rparr>)\<lparr>node_policies := node_policies s\<rparr>"
    by simp
  also have "\<dots> = t\<lparr>node_policies := node_policies s\<rparr>" using assms(2) by (simp add: same_but_policies_def)
  also have "\<dots> = s" using assms(1) by (simp add: same_but_policies_def)
  finally show ?thesis by (simp add: same_but_policies_def)
qed

lemma buildPolicy_same: "buildPolicy E s node now = Inr (p, s') \<Longrightarrow> same_but_policies s s'"
  by (erule buildPolicy_cases) (auto simp: same_but_policies_def store_policy_def update_policy_row_def)

lemma rebuildPolicies_same:
  assumes "rebuildPolicies E now s = Inr s'"
  shows "same_but_policies s s'"
  using assms unfolding rebuildPolicies_def
  by (rule foldE_invariant [where P = "same_but_policies s"])
    (auto simp: bindE_Inr_iff dest: buildPolicy_same intro: same_but_policies_trans)

lemma same_tables:
  assumes "same_but_policies s s'"
  shows "users s' = users s" "sessions s' = sessions s" "tailnets s' = tailnets s" "credentials s' = credentials s"
    "identity_snapshots s' = identity_snapshots s" "nodes s' = nodes s" "enrollments s' = enrollments s"
    "node_sessions s' = node_sessions s" "grants s' = grants s" "tailnet_rules s' = tailnet_rules s"
    "settings s' = settings s" "audit s' = audit s" "events s' = events s" "node_challenges s' = node_challenges s"
    "node_observations s' = node_observations s" "clusterID s' = clusterID s" "policyStreams s' = policyStreams s"
proof -
  obtain xs where "s' = s\<lparr>node_policies := xs\<rparr>"
  proof
    show "s' = s\<lparr>node_policies := node_policies s'\<rparr>"
      using arg_cong [OF assms [unfolded same_but_policies_def], of "\<lambda>x. x\<lparr>node_policies := node_policies s'\<rparr>"]
      by simp
  qed
  then show "users s' = users s" "sessions s' = sessions s" "tailnets s' = tailnets s" "credentials s' = credentials s"
    "identity_snapshots s' = identity_snapshots s" "nodes s' = nodes s" "enrollments s' = enrollments s"
    "node_sessions s' = node_sessions s" "grants s' = grants s" "tailnet_rules s' = tailnet_rules s"
    "settings s' = settings s" "audit s' = audit s" "events s' = events s" "node_challenges s' = node_challenges s"
    "node_observations s' = node_observations s" "clusterID s' = clusterID s" "policyStreams s' = policyStreams s"
    by simp_all
qed

section \<open>Where a grant of a policy comes from\<close>

definition grant_source ::
    "store \<Rightarrow> string \<Rightarrow> grant_policy \<Rightarrow> retentions \<Rightarrow> (string \<times> identity_snapshot) list \<Rightarrow> bool" where
  "grant_source s node gp rt all \<longleftrightarrow> (\<exists>g t snap. g \<in> set (grants s) \<and> g_node_id g = node \<and> g_state g = Active
     \<and> 0 < g_last_control_success g
     \<and> find_tailnet s (g_tailnet_id g) = Some t \<and> t_enabled t \<and> user_enabled s (t_owner_id t)
     \<and> map_of all (g_tailnet_id g) = Some snap \<and> gp = grant_entry rt snap (conflictingKeys all) g)"

lemma policy_rows_D:
  assumes "(g, t, r) \<in> set (policy_rows s node)"
  shows "g \<in> set (grants s) \<and> g_node_id g = node \<and> g_state g = Active
    \<and> find_tailnet s (g_tailnet_id g) = Some t \<and> t_enabled t \<and> user_enabled s (t_owner_id t)
    \<and> r = find_rule s node (g_tailnet_id g)"
  using assms by (auto simp: policy_rows_def set_map_filter policy_row_of_def split: option.splits if_splits)

lemma policy_content_grant:
  assumes "policy_content s node = Inr c" and "gp \<in> set (p_Grants c)"
  shows "\<exists>n rt all. find_node s node = Some n \<and> n_enabled n \<and> user_enabled s (n_owner_id n)
    \<and> serving_state (n_state n) \<and> readRetentions s = Inr rt \<and> identitySnapshots s = Inr all
    \<and> grant_source s node gp rt all"
proof -
  from assms obtain n u rt all xs where n: "find_node s node = Some n"
    and u: "find (\<lambda>u. u_id u = n_owner_id n) (users s) = Some u"
    and rt: "readRetentions s = Inr rt" and all: "identitySnapshots s = Inr all"
    and xs: "(if n_enabled n \<and> u_enabled u \<and> serving_state (n_state n)
        then policy_loop (n_owner_id n) rt all (conflictingKeys all) (policy_rows s node) else Inr []) = Inr xs"
    and gp: "gp \<in> fst ` set xs"
    by (auto simp: policy_content_def node_and_owner_def bindE_Inr_iff query_row_Inr find_node_def)
  from xs gp have on: "n_enabled n" "u_enabled u" "serving_state (n_state n)"
    and "policy_loop (n_owner_id n) rt all (conflictingKeys all) (policy_rows s node) = Inr xs"
    by (auto split: if_splits)
  then have "xs = List.map_filter (row_entry (n_owner_id n) rt all (conflictingKeys all)) (policy_rows s node)"
    by (simp add: policy_loop_Inr)
  with gp obtain x where x: "x \<in> set (policy_rows s node)"
    and e: "map_option fst (row_entry (n_owner_id n) rt all (conflictingKeys all) x) = Some gp"
    by (auto simp: set_map_filter)
  obtain g t r where [simp]: "x = (g, t, r)" by (cases x)
  from e obtain snap where "map_of all (g_tailnet_id g) = Some snap" "0 < g_last_control_success g"
    "gp = grant_entry rt snap (conflictingKeys all) g"
    by (auto split: option.splits if_splits)
  with policy_rows_D [of g t r s node] x have "grant_source s node gp rt all"
    unfolding grant_source_def by auto
  moreover have "user_enabled s (n_owner_id n)"
    using find_SomeD [OF u] on by (auto simp: user_enabled_def list_ex_iff)
  ultimately show ?thesis using n rt all on by blast
qed

section \<open>Rebuilding without a change\<close>

lemma buildPolicy_unchangedI:
  assumes "policy_content s node = Inr c" and "find (\<lambda>r. pr_node_id r = node) (node_policies s) = Some row"
    and "pr_desired_revision row \<noteq> MaxInt64" and u: "unchanged_policy E s node c row p"
  shows "buildPolicy E s node now = Inr (p, s)"
proof -
  have "DecodePolicy E (policy_size p) (Some p) (clusterID s) node = Inr p"
    using u by (simp add: DecodePolicy_Inr unchanged_policy_def)
  moreover have "c\<lparr>p_Revision := p_Revision p, p_GeneratedAt := p_GeneratedAt p\<rparr> = p"
    using u unfolding unchanged_policy_def by metis
  ultimately show ?thesis
    using assms by (simp add: buildPolicy_def query_row_def unchanged_policy_def body_len_def)
qed

lemma clusterID_store_policy [simp]: "clusterID (store_policy p node s) = clusterID s"
  by (simp add: store_policy_def update_policy_row_def)

lemma store_policy_row:
  assumes "find (\<lambda>r. pr_node_id r = node) (node_policies s) = Some row"
  shows "find (\<lambda>r. pr_node_id r = node) (node_policies (store_policy p node s)) =
    Some (row\<lparr>pr_desired_revision := p_Revision p, pr_generated_at := unix (p_GeneratedAt p), pr_policy := Some (Some p)\<rparr>)"
  using assms by (simp add: store_policy_def update_policy_row_def find_update_where)

lemma buildPolicy_stored:
  assumes "buildPolicy E s node now = Inr (p, s')"
  shows "\<exists>row. find (\<lambda>r. pr_node_id r = node) (node_policies s') = Some row
    \<and> pr_policy row = Some (Some p) \<and> pr_desired_revision row = p_Revision p"
  using assms
  by (auto elim!: buildPolicy_cases simp: unchanged_policy_def next_policy_def store_policy_row)

lemma buildPolicy_again:
  assumes "buildPolicy E s node now = Inr (p, s')" and "p_Revision p \<noteq> MaxInt64"
  shows "buildPolicy E s' node now' = Inr (p, s')"
  using assms(1)
proof (rule buildPolicy_cases)
  fix c row
  assume c: "policy_content s node = Inr c" and row: "find (\<lambda>r. pr_node_id r = node) (node_policies s) = Some row"
    and rev: "pr_desired_revision row \<noteq> MaxInt64"
    and alt: "unchanged_policy E s node c row p \<and> s' = s \<or> next_policy E s node now c row p \<and> s' = store_policy p node s"
  from alt show ?thesis
  proof
    assume "unchanged_policy E s node c row p \<and> s' = s"
    then show ?thesis using buildPolicy_unchangedI [OF c row rev] by simp
  next
    assume nxt: "next_policy E s node now c row p \<and> s' = store_policy p node s"
    let ?row = "row\<lparr>pr_desired_revision := p_Revision p, pr_generated_at := unix (p_GeneratedAt p),
      pr_policy := Some (Some p)\<rparr>"
    from nxt have "unchanged_policy E (store_policy p node s) node c ?row p"
      by (auto simp: unchanged_policy_def next_policy_def)
    with nxt c row assms(2) show ?thesis
      by (intro buildPolicy_unchangedI [of _ _ c ?row] conjI) (simp_all add: store_policy_row)
  qed
qed

section \<open>Building succeeds\<close>

lemma identitySnapshots_ok:
  assumes "identities_inv E T (identity_snapshots s)"
  shows "\<exists>all. identitySnapshots s = Inr all \<and> distinct (map fst all)
    \<and> list_all (\<lambda>(t, snap). keys_ok E (is_Keys snap)) all
    \<and> (\<forall>t snap. (t, snap) \<in> set all \<longrightarrow> (\<exists>i\<in>set (identity_snapshots s). is_LastSuccess snap = unix_time (i_last_success i)))"
proof -
  let ?f = "\<lambda>i. (i_tailnet_id i, \<lparr>is_Revision = i_revision i, is_LastSuccess = unix_time (i_last_success i),
    is_Keys = the (i_keys i)\<rparr>)"
  have ok: "list_all (\<lambda>i. \<exists>ks. i_keys i = Some ks \<and> keys_ok E ks) (identity_snapshots s)"
    and un: "unique i_tailnet_id (identity_snapshots s)"
    using assms by (simp_all add: identities_inv_def)
  have "mapE (\<lambda>i. case i_keys i of None \<Rightarrow> Inl (ErrMsg ''invalid identity keys'')
      | Some ks \<Rightarrow> Inr (i_tailnet_id i, \<lparr>is_Revision = i_revision i,
          is_LastSuccess = unix_time (i_last_success i), is_Keys = ks\<rparr>)) xs = Inr (map ?f xs)"
    if "list_all (\<lambda>i. \<exists>ks. i_keys i = Some ks \<and> keys_ok E ks) xs" for xs
    using that by (induction xs) auto
  from this [OF ok] have "identitySnapshots s = Inr (map ?f (identity_snapshots s))"
    by (simp add: identitySnapshots_def)
  moreover have "map fst (map ?f (identity_snapshots s)) = map i_tailnet_id (identity_snapshots s)" by simp
  moreover have "list_all (\<lambda>(t, snap). keys_ok E (is_Keys snap)) (map ?f (identity_snapshots s))"
    using ok by (auto simp: list_all_iff)
  ultimately show ?thesis using un by (intro exI [of _ "map ?f (identity_snapshots s)"]) (auto simp: unique_def o_def)
qed

text \<open>
  Keys that survive the exclusion of conflicts are held by one tailnet only, so the keys of
  two grants never meet.
\<close>

lemma entry_keys_disjoint:
  assumes "map_of all t = Some snap" "map_of all t' = Some snap'" "t \<noteq> t'"
    and k: "k \<in> set (gp_Keys (grant_entry rt snap (conflictingKeys all) g))"
    and k': "k' \<in> set (gp_Keys (grant_entry rt snap' (conflictingKeys all) g'))"
  shows "dk_NodePublic k \<noteq> dk_NodePublic k'"
proof
  assume eq: "dk_NodePublic k = dk_NodePublic k'"
  have "t \<in> holders all (dk_NodePublic k)" "t' \<in> holders all (dk_NodePublic k')"
    using k k' map_of_SomeD [OF assms(1)] map_of_SomeD [OF assms(2)]
    by (auto simp: holders_def grant_entry_def)
  then have "t \<in> holders all (dk_NodePublic k)" "t' \<in> holders all (dk_NodePublic k)" unfolding eq by simp_all
  with \<open>t \<noteq> t'\<close> have "dk_NodePublic k \<in> set (conflictingKeys all)" by (auto simp: set_conflictingKeys)
  with k show False by (simp add: grant_entry_def)
qed

text \<open>
  What an assembled policy needs of its entries to be valid, in the terms of the entries.
\<close>

definition entries_valid :: "env \<Rightarrow> (grant_policy \<times> tailnet_qos) list \<Rightarrow> bool" where
  "entries_valid E xs \<longleftrightarrow>
     distinct (map (gp_TailnetID \<circ> fst) xs) \<and> distinct (map (gp_GrantID \<circ> fst) xs)
     \<and> (\<forall>x\<in>set xs. tq_TailnetID (snd x) = gp_TailnetID (fst x) \<and> grant_ok (fst x) \<and> \<not> badRule (snd x)
          \<and> list_all (key_ok E) (gp_Keys (fst x)))
     \<and> distinct (map (key_public E) (concat (map (gp_Keys \<circ> fst) xs)))"

definition within_limits :: "policy \<Rightarrow> bool" where
  "within_limits p \<longleftrightarrow> length (p_Grants p) \<le> 4096 \<and> length (policy_keys p) \<le> 65536
     \<and> policy_size p \<le> MaxPolicyBytes"

lemma entries_valid_Nil [simp]: "entries_valid E []"
  by (simp add: entries_valid_def)

lemma entries_valid_policy:
  assumes xs: "entries_valid E xs" and p: "p_Grants p = map fst xs" "q_Tailnets (p_QoS p) = map snd xs"
    and "validID (p_ClusterID p)" "validID (p_NodeID p)" "p_Revision p \<noteq> 0" "p_GeneratedAt p \<noteq> zero_time"
    and "8 \<le> q_BudgetBPS (p_QoS p)" "q_BudgetBPS (p_QoS p) \<le> MaxInt64" "validCeiling (q_SharedMaxBPS (p_QoS p))"
      "validWeight (q_OwnerWeight (p_QoS p))" "validWeight (q_SharedWeight (p_QoS p))"
    and lim: "within_limits p"
  shows "policy_valid E p (p_ClusterID p) (p_NodeID p)"
proof -
  have ids: "map tq_TailnetID (map snd xs) = map gp_TailnetID (map fst xs)"
    using xs by (simp add: entries_valid_def)
  then have set_ids: "tq_TailnetID ` set (map snd xs) = gp_TailnetID ` set (map fst xs)"
    by (metis set_map)
  have keys: "policy_keys p = concat (map (gp_Keys \<circ> fst) xs)"
    by (simp add: policy_keys_def p(1))
  have "qos_valid (p_QoS p)"
    unfolding qos_valid_def p(2) ids
    using assms by (auto simp: within_limits_def entries_valid_def list_all_iff)
  moreover have "list_all (key_ok E) (policy_keys p)"
    unfolding keys using xs by (auto simp: entries_valid_def list_all_iff)
  moreover have "distinct (map (key_public E) (policy_keys p))"
    unfolding keys using xs by (simp add: entries_valid_def)
  moreover have "list_all grant_ok (p_Grants p)" using xs by (auto simp: p(1) entries_valid_def list_all_iff)
  moreover have "distinct (map gp_TailnetID (p_Grants p))" "distinct (map gp_GrantID (p_Grants p))"
    using xs by (simp_all add: p(1) entries_valid_def)
  ultimately show ?thesis
    using assms set_ids by (simp add: policy_valid_def within_limits_def p)
qed

text \<open>Identifiers, revisions and times the operations put into the tables.\<close>

definition ids_ok :: "store \<Rightarrow> bool" where
  "ids_ok s \<longleftrightarrow> list_all (\<lambda>t. validID (t_id t)) (tailnets s)
     \<and> list_all (\<lambda>g. validID (g_id g) \<and> 0 < g_revision g) (grants s)
     \<and> list_all (\<lambda>i. 0 \<le> i_last_success i) (identity_snapshots s)"

lemma policy_rows_distinct:
  assumes "grants_inv N T (grants s)"
  shows "distinct (map (\<lambda>(g, _). g_tailnet_id g) (policy_rows s node))"
    and "distinct (map (\<lambda>(g, _). g_id g) (policy_rows s node))"
proof -
  let ?gs = "filter (\<lambda>g. g_node_id g = node \<and> g_state g = Active) (grants s)"
  have key: "policy_row_of s g = Some y \<Longrightarrow> fst y = g" for g y
    by (auto simp: policy_row_of_def split: option.splits if_splits)
  have "inj_on g_tailnet_id (set ?gs)" "inj_on g_id (set ?gs)" "distinct ?gs"
    using assms by (auto simp: grants_inv_def unique_def distinct_map inj_on_def)
  then have "distinct (map g_tailnet_id ?gs)" and ids: "distinct (map g_id ?gs)" by (simp_all add: distinct_map)
  then show "distinct (map (\<lambda>(g, _). g_tailnet_id g) (policy_rows s node))"
    unfolding policy_rows_def distinct_map_sort_key
    by (elim distinct_map_filter_key) (auto dest!: key)
  from ids show "distinct (map (\<lambda>(g, _). g_id g) (policy_rows s node))"
    unfolding policy_rows_def distinct_map_sort_key
    by (elim distinct_map_filter_key) (auto dest!: key)
qed

lemma row_entry_Some:
  "row_entry owner rt all cf (g, t, r) = Some y \<longleftrightarrow> (\<exists>snap. map_of all (g_tailnet_id g) = Some snap
     \<and> 0 < g_last_control_success g \<and> y = (grant_entry rt snap cf g, rule_entry owner g t r))"
  by (auto split: option.splits)

lemma grant_entry_ok:
  assumes "validRetentions rt" and "validID (g_id g)" "validID (g_tailnet_id g)" "0 < g_revision g"
    and "0 \<le> is_LastSuccess snap" and "0 < g_last_control_success g"
  shows "grant_ok (grant_entry rt snap cf g)"
proof -
  have "duration_seconds (rt_IdentitySeconds rt) = rt_IdentitySeconds rt * second"
    "duration_seconds (rt_ControlSeconds rt) = rt_ControlSeconds rt * second"
    using assms(1) by (auto simp: validRetentions_def intro: duration_seconds_valid)
  moreover have "0 < rt_IdentitySeconds rt * second" "0 < rt_ControlSeconds rt * second"
    "0 < unix_time (g_last_control_success g)"
    using assms(1,6) by (simp_all add: validRetentions_def second_def unix_time_def)
  ultimately show ?thesis
    using assms by (simp add: grant_ok_def grant_entry_def zero_time_def)
qed

lemma rule_entry_ok:
  assumes "validID (g_tailnet_id g)" and "\<And>rule. r = Some rule \<Longrightarrow> rule_ok NO TO rule"
  shows "\<not> badRule (rule_entry owner g t r)"
  using assms
  by (cases r) (auto simp: badRule_def rule_entry_def rule_group_def validID_def rule_ok_def validWeight_def
      validCeiling_def)

text \<open>The entries of a consistent store, one by one and together.\<close>

definition snapshots_ok :: "env \<Rightarrow> (string \<times> identity_snapshot) list \<Rightarrow> bool" where
  "snapshots_ok E all \<longleftrightarrow> (\<forall>t snap. map_of all t = Some snap \<longrightarrow> keys_ok E (is_Keys snap) \<and> 0 \<le> is_LastSuccess snap)"

lemma find_rule_ok:
  assumes "rules_inv NO TO (tailnet_rules s)" and "find_rule s node t = Some rule"
  shows "rule_ok NO TO rule" and "r_node_id rule = node" and "r_tailnet_id rule = t"
  using assms find_SomeD [of "\<lambda>r. (r_node_id r, r_tailnet_id r) = (node, t)" "tailnet_rules s" rule]
  by (auto simp: find_rule_def rules_inv_def list_all_iff)

lemma policy_rows_tailnet:
  "(g, t, r) \<in> set (policy_rows s node) \<Longrightarrow> t \<in> set (tailnets s) \<and> t_id t = g_tailnet_id g"
  using policy_rows_D [of g t r s node] find_SomeD [of _ "tailnets s" t] by (auto simp: find_tailnet_def)

lemma entry_valid:
  assumes inv: "db_inv E s" and ids: "ids_ok s" and rt: "validRetentions rt" and all: "snapshots_ok E all"
    and row: "(g, t, r) \<in> set (policy_rows s node)" and x: "row_entry owner rt all (conflictingKeys all) (g, t, r) = Some x"
  shows "tq_TailnetID (snd x) = gp_TailnetID (fst x) \<and> grant_ok (fst x) \<and> \<not> badRule (snd x)
      \<and> list_all (key_ok E) (gp_Keys (fst x))"
proof -
  from x obtain snap where snap: "map_of all (g_tailnet_id g) = Some snap" "0 < g_last_control_success g"
    and eq: "x = (grant_entry rt snap (conflictingKeys all) g, rule_entry owner g t r)"
    by (auto simp: row_entry_Some simp del: row_entry.simps)
  note D = policy_rows_D [OF row]
  have vid: "validID (g_tailnet_id g)"
    using ids policy_rows_tailnet [OF row] by (auto simp: ids_ok_def list_all_iff)
  have rules: "rules_inv (node_owners s) (tailnet_owners s) (tailnet_rules s)" using inv by (simp add: db_inv_def)
  have "\<not> badRule (rule_entry owner g t r)"
  proof (rule rule_entry_ok [OF vid])
    fix rule assume "r = Some rule"
    then show "rule_ok (node_owners s) (tailnet_owners s) rule" using D find_rule_ok(1) [OF rules] by metis
  qed
  moreover have "grant_ok (grant_entry rt snap (conflictingKeys all) g)"
    using D ids vid snap all rt by (intro grant_entry_ok) (auto simp: ids_ok_def list_all_iff snapshots_ok_def)
  moreover have "keys_ok E (is_Keys snap)" using all snap by (simp add: snapshots_ok_def)
  ultimately show ?thesis by (auto simp: eq grant_entry_def rule_entry_def keys_ok_def list_all_iff)
qed

lemma entry_keys_public_disjoint:
  assumes all: "snapshots_ok E all" and snap: "map_of all t = Some snap" "map_of all t' = Some snap'" "t \<noteq> t'"
  shows "key_public E ` set (gp_Keys (grant_entry rt snap (conflictingKeys all) g))
    \<inter> key_public E ` set (gp_Keys (grant_entry rt snap' (conflictingKeys all) g')) = {}"
proof (rule ccontr)
  assume "\<not> ?thesis"
  then obtain k k' where k: "k \<in> set (gp_Keys (grant_entry rt snap (conflictingKeys all) g))"
    and k': "k' \<in> set (gp_Keys (grant_entry rt snap' (conflictingKeys all) g'))"
    and eq: "key_public E k = key_public E k'" by auto
  have canon: "np_string E (key_public E k) = dk_NodePublic k" "np_string E (key_public E k') = dk_NodePublic k'"
    using all snap k k' by (auto simp: grant_entry_def snapshots_ok_def keys_ok_def list_all_iff)
  from canon eq have "dk_NodePublic k = dk_NodePublic k'" by simp
  with entry_keys_disjoint [OF snap k k'] show False by simp
qed

lemma entries_valid_rows:
  assumes inv: "db_inv E s" and ids: "ids_ok s" and rt: "validRetentions rt" and all: "snapshots_ok E all"
  shows "entries_valid E (List.map_filter (row_entry owner rt all (conflictingKeys all)) (policy_rows s node))"
    (is "entries_valid E ?xs")
proof -
  have gr: "grants_inv (node_ids s) (tailnet_ids s) (grants s)" using inv by (simp add: db_inv_def)
  have entry: "\<exists>g snap. map_of all (g_tailnet_id g) = Some snap \<and> fst x = grant_entry rt snap (conflictingKeys all) g"
    if "x \<in> set ?xs" for x
    using that unfolding set_map_filter by (auto split: option.splits if_splits) blast
  have 1: "distinct (map (gp_TailnetID \<circ> fst) ?xs)"
    by (rule distinct_map_filter_key [OF policy_rows_distinct(1) [OF gr]])
      (auto simp: grant_entry_def split: option.splits if_splits)
  have 2: "distinct (map (gp_GrantID \<circ> fst) ?xs)"
    by (rule distinct_map_filter_key [OF policy_rows_distinct(2) [OF gr]])
      (auto simp: grant_entry_def split: option.splits if_splits)
  have 3: "tq_TailnetID (snd x) = gp_TailnetID (fst x) \<and> grant_ok (fst x) \<and> \<not> badRule (snd x)
      \<and> list_all (key_ok E) (gp_Keys (fst x))" if "x \<in> set ?xs" for x
    using that entry_valid [OF inv ids rt all] unfolding set_map_filter by (metis prod_cases3)
  have 4: "distinct (map (key_public E) (concat (map (gp_Keys \<circ> fst) ?xs)))"
  proof (rule distinct_map_concat [OF 1])
    fix x assume "x \<in> set ?xs"
    from entry [OF this] obtain g snap where "map_of all (g_tailnet_id g) = Some snap"
      and fx: "fst x = grant_entry rt snap (conflictingKeys all) g" by blast
    then have "distinct (map (key_public E) (is_Keys snap))"
      using all by (auto simp: snapshots_ok_def intro: keys_ok_distinct_public)
    then show "distinct (map (key_public E) ((gp_Keys \<circ> fst) x))"
      by (simp add: fx grant_entry_def distinct_map_filter)
  next
    fix x y assume x: "x \<in> set ?xs" and y: "y \<in> set ?xs"
      and ne: "(gp_TailnetID \<circ> fst) x \<noteq> (gp_TailnetID \<circ> fst) y"
    from entry [OF x] obtain g snap where gx: "map_of all (g_tailnet_id g) = Some snap"
      "fst x = grant_entry rt snap (conflictingKeys all) g" by blast
    from entry [OF y] obtain g' snap' where gy: "map_of all (g_tailnet_id g') = Some snap'"
      "fst y = grant_entry rt snap' (conflictingKeys all) g'" by blast
    from ne gx gy have "g_tailnet_id g \<noteq> g_tailnet_id g'" by (simp add: grant_entry_def)
    from entry_keys_public_disjoint [OF all gx(1) gy(1) this]
    show "key_public E ` set ((gp_Keys \<circ> fst) x) \<inter> key_public E ` set ((gp_Keys \<circ> fst) y) = {}"
      by (simp add: gx gy)
  qed
  from 1 2 3 4 show ?thesis unfolding entries_valid_def by blast
qed

lemma rows_not_misgrouped:
  assumes inv: "db_inv E s" and n: "find_node s node = Some n"
    and row: "(g, t, r) \<in> set (policy_rows s node)"
  shows "\<not> misgrouped (n_owner_id n) (g, t, r)"
proof
  assume "misgrouped (n_owner_id n) (g, t, r)"
  then have grp: "rule_group (n_owner_id n) t r = ''owner''" and ne: "t_owner_id t \<noteq> n_owner_id n" by simp_all
  then obtain rule where r: "r = Some rule" and own: "r_group_name rule = ''owner''"
    by (cases r) (auto simp: rule_group_def)
  have "rules_inv (node_owners s) (tailnet_owners s) (tailnet_rules s)" using inv by (simp add: db_inv_def)
  note rule = find_rule_ok [OF this]
  have fr: "find_rule s node (g_tailnet_id g) = Some rule" using policy_rows_D [OF row] r by simp
  have "(node, n_owner_id n) \<in> node_owners s"
    using find_SomeD [OF n [unfolded find_node_def]] by (auto simp: node_owners_def)
  moreover have "(g_tailnet_id g, t_owner_id t) \<in> tailnet_owners s"
    unfolding tailnet_owners_def
    by (rule image_eqI [where x = t]) (use policy_rows_tailnet [OF row] in simp_all)
  ultimately show False
    using rule(1) [OF fr] rule(2) [OF fr] rule(3) [OF fr] own ne by (auto simp: rule_ok_def)
qed

lemma snapshots_ok_store:
  assumes "db_inv E s" and "ids_ok s"
  obtains all where "identitySnapshots s = Inr all" and "snapshots_ok E all"
proof -
  have "identities_inv E (tailnet_ids s) (identity_snapshots s)" using assms(1) by (simp add: db_inv_def)
  from identitySnapshots_ok [OF this] obtain all where all: "identitySnapshots s = Inr all"
    and keys: "list_all (\<lambda>(t, snap). keys_ok E (is_Keys snap)) all"
    and last: "\<forall>t snap. (t, snap) \<in> set all \<longrightarrow>
      (\<exists>i\<in>set (identity_snapshots s). is_LastSuccess snap = unix_time (i_last_success i))" by blast
  have "0 \<le> is_LastSuccess snap" if "(t, snap) \<in> set all" for t snap
    using last that assms(2) by (fastforce simp: ids_ok_def list_all_iff unix_time_def)
  with keys have "snapshots_ok E all"
    by (auto simp: snapshots_ok_def list_all_iff dest!: map_of_SomeD)
  with all that show thesis by blast
qed

text \<open>The contents of a policy can be assembled, and they are valid under any later revision and time.\<close>

lemma policy_content_succeeds:
  assumes inv: "db_inv E s" and ids: "ids_ok s" and rt: "readRetentions s = Inr rt"
    and n: "find_node s node = Some n" and row: "find (\<lambda>r. pr_node_id r = node) (node_policies s) = Some row"
    and vids: "validID (clusterID s)" "validID node"
  obtains c where "policy_content s node = Inr c"
    and "\<And>rev t. rev \<noteq> 0 \<Longrightarrow> t \<noteq> zero_time \<Longrightarrow> within_limits (c\<lparr>p_Revision := rev, p_GeneratedAt := t\<rparr>)
      \<Longrightarrow> policy_valid E (c\<lparr>p_Revision := rev, p_GeneratedAt := t\<rparr>) (clusterID s) node"
proof -
  obtain all where all: "identitySnapshots s = Inr all" "snapshots_ok E all" using inv ids by (rule snapshots_ok_store)
  have "n_owner_id n \<in> u_id ` set (users s)"
    using inv find_SomeD [OF n [unfolded find_node_def]] provider_ids_sub [of s]
    by (auto simp: db_inv_def nodes_inv_def refs_def user_ids_def)
  then obtain u where u: "find (\<lambda>u. u_id u = n_owner_id n) (users s) = Some u"
    using find_None_image [of u_id "n_owner_id n" "users s"] by fastforce
  define xs where "xs = (if n_enabled n \<and> u_enabled u \<and> serving_state (n_state n)
    then List.map_filter (row_entry (n_owner_id n) rt all (conflictingKeys all)) (policy_rows s node) else [])"
  define c where "c = \<lparr>p_ClusterID = clusterID s, p_NodeID = node, p_Revision = 0, p_GeneratedAt = zero_time,
    p_Grants = map fst xs, p_QoS = \<lparr>q_BudgetBPS = pr_budget_bps row, q_OwnerWeight = pr_owner_weight row,
      q_SharedWeight = pr_shared_weight row, q_SharedMaxBPS = pr_shared_max_bps row, q_Tailnets = map snd xs\<rparr>\<rparr>"
  have "policy_loop (n_owner_id n) rt all (conflictingKeys all) (policy_rows s node) =
      Inr (List.map_filter (row_entry (n_owner_id n) rt all (conflictingKeys all)) (policy_rows s node))"
    unfolding policy_loop_Inr using rows_not_misgrouped [OF inv n] by (auto simp: list_all_iff)
  then have c: "policy_content s node = Inr c"
    using n u row rt all by (simp add: policy_content_def node_and_owner_def query_row_def find_node_def c_def xs_def)
  have xs: "entries_valid E xs"
    using entries_valid_rows [OF inv ids readRetentions_Inr [OF rt] all(2)] by (simp add: xs_def)
  have row_ok: "policy_row_ok E (setting ''cluster_id'' s) row"
    using inv find_SomeD [OF row] by (auto simp: db_inv_def policies_inv_def list_all_iff)
  have "policy_valid E (c\<lparr>p_Revision := rev, p_GeneratedAt := t\<rparr>) (clusterID s) node" (is "policy_valid E ?p _ _")
    if "rev \<noteq> 0" "t \<noteq> zero_time" "within_limits (c\<lparr>p_Revision := rev, p_GeneratedAt := t\<rparr>)" for rev t
  proof -
    have "policy_valid E ?p (p_ClusterID ?p) (p_NodeID ?p)"
      by (rule entries_valid_policy [OF xs _ _ _ _ _ _ _ _ _ _ _ that(3)])
        (use that vids row_ok in \<open>simp_all add: c_def policy_row_ok_def\<close>)
    then show ?thesis by (simp add: c_def)
  qed
  with c that show thesis by blast
qed

lemma buildPolicy_succeeds:
  assumes inv: "db_inv E s" and ids: "ids_ok s" and rt: "readRetentions s = Inr rt"
    and n: "find_node s node = Some n" and row: "find (\<lambda>r. pr_node_id r = node) (node_policies s) = Some row"
    and vids: "validID (clusterID s)" "validID node"
    and rev: "pr_desired_revision row < MaxInt64" and now: "now \<noteq> zero_time"
      "\<And>old. pr_policy row = Some (Some old) \<Longrightarrow> p_GeneratedAt old \<le> now"
    and lim: "\<And>c. policy_content s node = Inr c \<Longrightarrow>
      within_limits (c\<lparr>p_Revision := pr_desired_revision row + 1, p_GeneratedAt := now\<rparr>)"
  shows "\<exists>p s'. buildPolicy E s node now = Inr (p, s')"
proof -
  obtain c where c: "policy_content s node = Inr c"
    and valid: "\<And>rev t. rev \<noteq> 0 \<Longrightarrow> t \<noteq> zero_time \<Longrightarrow> within_limits (c\<lparr>p_Revision := rev, p_GeneratedAt := t\<rparr>)
      \<Longrightarrow> policy_valid E (c\<lparr>p_Revision := rev, p_GeneratedAt := t\<rparr>) (clusterID s) node"
    by (rule policy_content_succeeds [OF inv ids rt n row vids]) blast
  let ?p = "c\<lparr>p_Revision := pr_desired_revision row + 1, p_GeneratedAt := now\<rparr>"
  have pub: "publish_policy E s node now (pr_desired_revision row) c = Inr (?p, store_policy ?p node s)"
    using lim [OF c] valid [of "pr_desired_revision row + 1" now] now(1) by (simp add: publish_policy_Inr within_limits_def)
  show ?thesis
  proof (cases "pr_policy row")
    case None
    with c row rev pub show ?thesis by (simp add: buildPolicy_def query_row_def)
  next
    case (Some body)
    have "policy_row_ok E (setting ''cluster_id'' s) row"
      using inv find_SomeD [OF row] by (auto simp: db_inv_def policies_inv_def list_all_iff)
    moreover have "setting ''cluster_id'' s = Some (clusterID s)"
      using inv vids(1) by (auto simp: db_inv_def validID_def)
    ultimately obtain old where old: "body = Some old" "policy_valid E old (clusterID s) node"
      "policy_size old \<le> MaxPolicyBytes" "p_Revision old = pr_desired_revision row"
      using Some find_SomeD [OF row] by (auto simp: policy_row_ok_def)
    then have "DecodePolicy E (body_len body) body (clusterID s) node = Inr old"
      by (simp add: DecodePolicy_Inr body_len_def)
    with c row rev pub Some old now show ?thesis by (simp add: buildPolicy_def query_row_def not_less)
  qed
qed

section \<open>Retention settings\<close>

lemma map_of_update_where:
  "map_of (update_where (\<lambda>e. fst e = k) (\<lambda>e. (fst e, v)) xs) j =
     (if j = k then map_option (\<lambda>_. v) (map_of xs j) else map_of xs j)"
  by (induction xs) auto

lemma setting_put_setting:
  "setting j (put_setting k v s) = (if j = k then map_option (\<lambda>_. v) (setting j s) else setting j s)"
  by (simp add: setting_def put_setting_def map_of_update_where)

lemma db_inv_put_setting: "k \<noteq> ''cluster_id'' \<Longrightarrow> db_inv E s \<Longrightarrow> db_inv E (put_setting k v s)"
proof -
  assume "k \<noteq> ''cluster_id''" and inv: "db_inv E s"
  then have "setting ''cluster_id'' (put_setting k v s) = setting ''cluster_id'' s"
    by (simp add: setting_put_setting)
  with inv show ?thesis
    unfolding db_inv_def user_ids_def provider_ids_def node_ids_def tailnet_ids_def node_owners_def tailnet_owners_def
    by (simp add: put_setting_def)
qed

lemma SetRetentions_inv [inv_intros]: "SetRetentions E s actor r now = Inr s' \<Longrightarrow> db_inv E s \<Longrightarrow> db_inv E s'"
  by (auto simp: SetRetentions_def bindE_Inr_iff db_inv_put_setting elim!: rebuildPolicies_inv)

text \<open>Two settings read the same when the tables other than the policies are the same.\<close>

lemma readRetentions_same: "same_but_policies s s' \<Longrightarrow> readRetentions s' = readRetentions s"
proof -
  assume "same_but_policies s s'"
  from arg_cong [OF this [unfolded same_but_policies_def], of settings] have "settings s' = settings s" by simp
  then show ?thesis by (simp add: readRetentions_def setting_def)
qed

section \<open>A concrete store\<close>

definition sample_node :: node_row where
  "sample_node = \<lparr>n_id = ''n'', n_owner_id = ''u'', n_domain = ''d.example'', n_derp_port = 443, n_stun_port = 3478,
     n_display_name = ''node'', n_region_id = 900, n_public_key = Some ''pk'', n_state = Registered,
     n_instance_id = ''i'', n_lease_until = 290, n_last_heartbeat = 200, n_last_error = [], n_enabled = True,
     n_domain_verified_at = 100\<rparr>"

definition sample_grant_row :: grant_row where
  "sample_grant_row = \<lparr>g_id = ''g1'', g_node_id = ''n'', g_tailnet_id = ''t1'', g_state = Active, g_revision = 3,
     g_explicit_until = 0, g_last_control_success = 200\<rparr>"

definition sample_policy_row :: policy_row where
  "sample_policy_row = \<lparr>pr_node_id = ''n'', pr_desired_revision = 4, pr_received_revision = 4, pr_applied_revision = 3,
     pr_generated_at = 0, pr_policy = None, pr_budget_bps = 1000, pr_owner_weight = 8, pr_shared_weight = 2,
     pr_shared_max_bps = 0, pr_derper_usable = False\<rparr>"

definition sample_user :: user_row where
  "sample_user = \<lparr>u_id = ''u'', u_username = ''ann'', u_role = ''provider'', u_enabled = True,
     u_password_hash = ''secretsecret'', u_session_version = 1\<rparr>"

definition sample_store :: store where
  "sample_store = \<lparr>users = [sample_user], sessions = [],
     tailnets = [\<lparr>t_id = ''t1'', t_owner_id = ''u'', t_display_name = ''tn'', t_api_id = ''T12'', t_enabled = True\<rparr>],
     credentials = [], identity_snapshots = [\<lparr>i_tailnet_id = ''t1'', i_revision = 1, i_last_success = 150,
       i_keys = Some [\<lparr>dk_NodePublic = ''nodekey:a1'', dk_NotAfter = zero_time\<rparr>]\<rparr>],
     nodes = [sample_node], enrollments = [], node_sessions = [\<lparr>ns_token_hash = CHR ''h'' # replicate 64 CHR ''a'',
       ns_node_id = ''n'', ns_instance_id = ''i'', ns_expires_at = 3000\<rparr>], grants = [sample_grant_row],
     node_policies = [sample_policy_row], tailnet_rules = [],
     settings = [(''cluster_id'', ''c''), (''identity_retention_seconds'', ''86400''), (''control_retention_seconds'', ''86400'')],
     audit = [], events = [], node_challenges = [], node_observations = [], clusterID = ''c'', credentialAEAD = True,
     policyStreams = []\<rparr>"

lemmas sample_store_defs = sample_store_def sample_node_def sample_grant_row_def sample_policy_row_def sample_user_def

lemmas db_inv_eval = sample_store_defs db_inv_def db_sets users_inv_def sessions_inv_def tailnets_inv_def credentials_inv_def
  identities_inv_def nodes_inv_def enrollments_inv_def node_sessions_inv_def grants_inv_def policies_inv_def
  rules_inv_def challenges_inv_def observations_inv_def refs_def unique_def role_ok_def node_ok_def port_ok_def
  policy_row_ok_def keys_ok_def key_ok_def key_public_def sample_env_def validCeiling_def validWeight_def MaxInt64_def

lemma sample_store_inv: "db_inv sample_env sample_store"
  by (simp del: set_filter add: db_inv_eval)

lemma sample_retentions:
  "readRetentions sample_store = Inr \<lparr>rt_IdentitySeconds = 86400, rt_ControlSeconds = 86400\<rparr>"
proof -
  have "ParseInt ''86400'' = Some 86400"
    by (simp add: ParseInt_def char_digit_def less_eq_char_def)
  then show ?thesis
    by (simp add: readRetentions_def setting_def sample_store_defs validRetentions_def maxSeconds_def MaxInt64_def second_def)
qed

definition sample_built_grant :: grant_policy where
  "sample_built_grant = \<lparr>gp_GrantID = ''g1'', gp_GrantRevision = 3, gp_TailnetID = ''t1'',
     gp_LastIdentitySuccess = unix_time 150, gp_IdentityUntil = unix_time 86550,
     gp_ControlUntil = unix_time 86600, gp_ExplicitUntil = zero_time,
     gp_Keys = [\<lparr>dk_NodePublic = ''nodekey:a1'', dk_NotAfter = zero_time\<rparr>]\<rparr>"

definition sample_built :: policy where
  "sample_built = \<lparr>p_ClusterID = ''c'', p_NodeID = ''n'', p_Revision = 5, p_GeneratedAt = unix_time 300,
     p_Grants = [sample_built_grant],
     p_QoS = \<lparr>q_BudgetBPS = 1000, q_OwnerWeight = 8, q_SharedWeight = 2, q_SharedMaxBPS = 0,
       q_Tailnets = [\<lparr>tq_TailnetID = ''t1'', tq_Group = ''owner'', tq_Weight = 1, tq_MaxBPS = 0\<rparr>]\<rparr>\<rparr>"

lemma sample_snapshots:
  "identitySnapshots sample_store = Inr [(''t1'', \<lparr>is_Revision = 1, is_LastSuccess = unix_time 150,
     is_Keys = [\<lparr>dk_NodePublic = ''nodekey:a1'', dk_NotAfter = zero_time\<rparr>]\<rparr>)]"
  by (simp add: identitySnapshots_def sample_store_defs)

lemma sample_rows: "policy_rows sample_store ''n'' = [(sample_grant_row, hd (tailnets sample_store), None)]"
  by (simp add: policy_rows_def policy_row_of_def sample_store_defs map_filter_simps find_tailnet_def user_enabled_def
      find_rule_def)

lemma sample_content: "policy_content sample_store ''n'' = Inr (sample_built\<lparr>p_Revision := 0, p_GeneratedAt := zero_time\<rparr>)"
proof -
  have d: "duration_seconds 86400 = 86400 * second"
    by (rule duration_seconds_valid) (simp_all add: maxSeconds_def MaxInt64_def second_def)
  have nu: "node_and_owner sample_store ''n'' = Inr (sample_node, sample_user)"
    by (simp add: node_and_owner_def query_row_def sample_store_defs)
  have pr: "query_row (\<lambda>r. pr_node_id r = ''n'') (node_policies sample_store) = Inr sample_policy_row"
    by (simp add: query_row_def sample_store_defs)
  have "policy_loop ''u'' \<lparr>rt_IdentitySeconds = 86400, rt_ControlSeconds = 86400\<rparr>
      [(''t1'', \<lparr>is_Revision = 1, is_LastSuccess = unix_time 150,
        is_Keys = [\<lparr>dk_NodePublic = ''nodekey:a1'', dk_NotAfter = zero_time\<rparr>]\<rparr>)] [] (policy_rows sample_store ''n'') =
      Inr [(sample_built_grant, hd (q_Tailnets (p_QoS sample_built)))]"
    unfolding sample_rows
    by (simp add: sample_store_defs rule_group_def rule_entry_def grant_entry_def d sample_built_grant_def
        sample_built_def unix_time_def second_def)
  then show ?thesis
    unfolding policy_content_def nu pr sample_retentions sample_snapshots bindE_simps
    by (simp add: conflictingKeys_def sample_node_def sample_user_def serving_state_def sample_built_def
        sample_store_def sample_policy_row_def)
qed

lemma sample_built_valid: "policy_valid sample_env sample_built ''c'' ''n''"
  by (simp add: sample_built_def sample_built_grant_def sample_env_def unix_time_def zero_time_def policy_valid_def
      validID_def qos_valid_def grant_ok_def key_ok_def key_public_def
      policy_keys_def badRule_def validWeight_def validCeiling_def MaxInt64_def TrimSpace_id is_graph_def
      less_eq_char_def)

lemma sample_built_size: "policy_size sample_built \<le> MaxPolicyBytes"
  by (simp add: sample_built_def sample_built_grant_def unix_time_def zero_time_def policy_size_def grant_policy_size_def
      device_key_size_def qos_policy_size_def
      tailnet_qos_size_def json_object_len_def json_array_len_def json_string_len_def json_char_len_def
      json_time_len_def json_nat_len_def show_nat.simps MaxPolicyBytes_def less_char_def)

lemma sample_build:
  "buildPolicy sample_env sample_store ''n'' (unix_time 300) = Inr (sample_built, store_policy sample_built ''n'' sample_store)"
proof -
  have pr: "query_row (\<lambda>r. pr_node_id r = ''n'') (node_policies sample_store) = Inr sample_policy_row"
    by (simp add: query_row_def sample_store_defs)
  have cid: "clusterID sample_store = ''c''" by (simp add: sample_store_def)
  have "publish_policy sample_env sample_store ''n'' (unix_time 300) 4 (sample_built\<lparr>p_Revision := 0, p_GeneratedAt := zero_time\<rparr>)
      = Inr (sample_built, store_policy sample_built ''n'' sample_store)"
    unfolding publish_policy_Inr cid using sample_built_valid sample_built_size by (simp add: sample_built_def)
  then show ?thesis
    unfolding buildPolicy_def sample_content pr bindE_simps by (simp add: sample_policy_row_def MaxInt64_def)
qed

text \<open>The same node when it serves no grant.\<close>

definition sample_empty :: policy where
  "sample_empty = sample_built\<lparr>p_Grants := [], p_QoS := (p_QoS sample_built)\<lparr>q_Tailnets := []\<rparr>\<rparr>"

lemma sample_empty_publish:
  assumes "clusterID s = ''c''"
  shows "publish_policy sample_env s ''n'' (unix_time 300) 4 (sample_empty\<lparr>p_Revision := 0, p_GeneratedAt := zero_time\<rparr>)
      = Inr (sample_empty, store_policy sample_empty ''n'' s)"
proof -
  have "policy_valid sample_env sample_empty ''c'' ''n''"
    by (simp add: sample_empty_def sample_built_def unix_time_def zero_time_def policy_valid_def
        validID_def qos_valid_def policy_keys_def validWeight_def validCeiling_def MaxInt64_def TrimSpace_id is_graph_def
        less_eq_char_def)
  moreover have "policy_size sample_empty \<le> MaxPolicyBytes"
    by (simp add: sample_empty_def sample_built_def unix_time_def zero_time_def policy_size_def
        qos_policy_size_def json_object_len_def json_array_len_def json_string_len_def json_char_len_def
        json_time_len_def json_nat_len_def show_nat.simps MaxPolicyBytes_def less_char_def)
  ultimately show ?thesis
    unfolding publish_policy_Inr assms by (simp add: sample_empty_def sample_built_def)
qed

lemma sample_build_empty_at:
  assumes "node_and_owner s ''n'' = Inr (n, u)"
    and pr: "node_policies s = [sample_policy_row\<lparr>pr_received_revision := a, pr_applied_revision := b\<rparr>]"
    and "readRetentions s = Inr rt" and "identitySnapshots s = Inr all" and "clusterID s = ''c''"
    and "policy_rows s ''n'' = [] \<or> \<not> (n_enabled n \<and> u_enabled u \<and> serving_state (n_state n))"
  shows "buildPolicy sample_env s ''n'' (unix_time 300) = Inr (sample_empty, store_policy sample_empty ''n'' s)"
proof -
  have "query_row (\<lambda>r. pr_node_id r = ''n'') (node_policies s) =
      Inr (sample_policy_row\<lparr>pr_received_revision := a, pr_applied_revision := b\<rparr>)"
    by (simp add: pr query_row_def sample_policy_row_def)
  moreover have "policy_content s ''n'' = Inr (sample_empty\<lparr>p_Revision := 0, p_GeneratedAt := zero_time\<rparr>)"
    using assms by (auto simp: policy_content_def sample_empty_def sample_built_def query_row_def sample_policy_row_def)
  ultimately show ?thesis
    using sample_empty_publish [OF assms(5)] by (simp add: buildPolicy_def sample_policy_row_def MaxInt64_def)
qed

lemma sample_build_empty:
  assumes "node_and_owner s ''n'' = Inr (n, u)" and "node_policies s = [sample_policy_row]"
    and "readRetentions s = Inr rt" and "identitySnapshots s = Inr all" and "clusterID s = ''c''"
    and "policy_rows s ''n'' = [] \<or> \<not> (n_enabled n \<and> u_enabled u \<and> serving_state (n_state n))"
  shows "buildPolicy sample_env s ''n'' (unix_time 300) = Inr (sample_empty, store_policy sample_empty ''n'' s)"
  using assms by (intro sample_build_empty_at [where a = 4 and b = 3]) (simp_all add: sample_policy_row_def)

section \<open>Properties\<close>

text \<open>C5: A policy only carries what the tables authorise now. Every grant in a built policy is an
  active grant of an enabled, serving node of an enabled owner to an enabled tailnet of an
  enabled owner with recent contact, and every device key it lists is held by that tailnet
  and by no other: a key two tailnets claim is left out.\<close>

theorem policy_grants_authorised:
  assumes "buildPolicy E s node now = Inr (p, s')" and "gp \<in> set (p_Grants p)"
  shows "\<exists>n g t all. find_node s node = Some n \<and> n_enabled n \<and> user_enabled s (n_owner_id n)
    \<and> serving_state (n_state n)
    \<and> g \<in> set (grants s) \<and> g_id g = gp_GrantID gp \<and> g_node_id g = node \<and> g_tailnet_id g = gp_TailnetID gp
    \<and> g_state g = Active \<and> 0 < g_last_control_success g
    \<and> find_tailnet s (gp_TailnetID gp) = Some t \<and> t_enabled t \<and> user_enabled s (t_owner_id t)
    \<and> identitySnapshots s = Inr all
    \<and> (\<forall>k\<in>set (gp_Keys gp). holders all (dk_NodePublic k) = {gp_TailnetID gp})"
proof -
  from assms obtain c where c: "policy_content s node = Inr c" and "p_Grants c = p_Grants p"
    by (auto elim!: buildPolicy_cases simp: unchanged_policy_def next_policy_def)
      (metis policy.select_convs(5) policy.surjective policy.update_convs(3,4))
  with assms(2) have "gp \<in> set (p_Grants c)" by simp
  from policy_content_grant [OF c this] obtain n rt all where n: "find_node s node = Some n" "n_enabled n"
      "user_enabled s (n_owner_id n)" "serving_state (n_state n)"
    and all: "identitySnapshots s = Inr all" and src: "grant_source s node gp rt all" by blast
  from src obtain g t snap where g: "g \<in> set (grants s)" "g_node_id g = node" "g_state g = Active"
      "0 < g_last_control_success g" and t: "find_tailnet s (g_tailnet_id g) = Some t" "t_enabled t"
      "user_enabled s (t_owner_id t)"
    and snap: "map_of all (g_tailnet_id g) = Some snap" and gp: "gp = grant_entry rt snap (conflictingKeys all) g"
    unfolding grant_source_def by blast
  have "holders all (dk_NodePublic k) = {g_tailnet_id g}" if "k \<in> set (gp_Keys gp)" for k
  proof -
    have "g_tailnet_id g \<in> holders all (dk_NodePublic k)"
      using that map_of_SomeD [OF snap] by (auto simp: holders_def gp grant_entry_def)
    moreover have "dk_NodePublic k \<notin> set (conflictingKeys all)" using that by (simp add: gp grant_entry_def)
    ultimately show ?thesis by (auto simp: set_conflictingKeys)
  qed
  moreover have "gp_TailnetID gp = g_tailnet_id g" "gp_GrantID gp = g_id g" by (simp_all add: gp grant_entry_def)
  ultimately show ?thesis using n all g t by metis
qed


text \<open>Rebuilding is idempotent: a build right after a build, at any time, returns the same
  policy with the same revision and leaves the store as it is. Nodes are not sent policies
  that say nothing new.\<close>

theorem buildPolicy_idempotent:
  assumes "buildPolicy E s node now = Inr (p, s')" and "p_Revision p < MaxInt64"
  shows "buildPolicy E s' node now' = Inr (p, s')"
  by (rule buildPolicy_again [OF assms(1)]) (use assms(2) in simp)


text \<open>The retention times are read back as they were set, through their decimal text in the
  settings table, and the durations computed from them do not overflow 64 bits.\<close>

theorem SetRetentions_roundtrip:
  assumes "SetRetentions E s actor r now = Inr s'"
    and "setting ''identity_retention_seconds'' s \<noteq> None" and "setting ''control_retention_seconds'' s \<noteq> None"
  shows "Retentions s' = Inr r
    \<and> duration_seconds (rt_IdentitySeconds r) = rt_IdentitySeconds r * second
    \<and> duration_seconds (rt_ControlSeconds r) = rt_ControlSeconds r * second"
proof -
  let ?s0 = "put_setting ''control_retention_seconds'' (FormatInt (rt_ControlSeconds r))
    (put_setting ''identity_retention_seconds'' (FormatInt (rt_IdentitySeconds r)) s)"
  from assms(1) obtain s1 where v: "validRetentions r" and s1: "rebuildPolicies E now ?s0 = Inr s1"
    and s': "settings s' = settings s1"
    by (auto simp: SetRetentions_def bindE_Inr_iff failIf_Inr_iff notifyPolicies_def writeAudit_def)
  have bounds: "0 < rt_IdentitySeconds r" "0 < rt_ControlSeconds r" "rt_IdentitySeconds r < 2 ^ 63" "rt_ControlSeconds r < 2 ^ 63"
    using v by (simp_all add: validRetentions_def maxSeconds_def MaxInt64_def second_def)
  have "readRetentions ?s0 = Inr r"
    using assms(2,3) v bounds
    by (cases r) (auto simp: readRetentions_def setting_put_setting ParseInt_FormatInt Let_def)
  moreover have "readRetentions s' = readRetentions s1" by (simp add: readRetentions_def setting_def s')
  ultimately have "Retentions s' = Inr r"
    using readRetentions_same [OF rebuildPolicies_same [OF s1]] by (simp add: Retentions_def)
  with v show ?thesis by (auto simp: validRetentions_def intro: duration_seconds_valid)
qed

subsection \<open>Instances\<close>

theorem policy_grants_authorised_witness:
  "sample_built_grant \<in> set (p_Grants sample_built)
   \<and> (\<exists>g\<in>set (grants sample_store). g_id g = gp_GrantID sample_built_grant \<and> g_state g = Active)
   \<and> (\<exists>all. identitySnapshots sample_store = Inr all \<and> holders all ''nodekey:a1'' = {''t1''})"
proof -
  have mem: "sample_built_grant \<in> set (p_Grants sample_built)" by (simp add: sample_built_def)
  from policy_grants_authorised [OF sample_build mem] show ?thesis
    using mem by (auto simp: sample_built_grant_def)
qed


theorem buildPolicy_idempotent_witness:
  "buildPolicy sample_env (store_policy sample_built ''n'' sample_store) ''n'' (unix_time 900) =
     Inr (sample_built, store_policy sample_built ''n'' sample_store)"
  by (rule buildPolicy_idempotent [OF sample_build]) (simp add: sample_built_def MaxInt64_def)

lemma sample_ids_ok: "ids_ok sample_store"
  by (simp add: ids_ok_def sample_store_defs validID_def TrimSpace_id is_graph_def less_eq_char_def)


definition sample_day :: retentions where
  "sample_day = \<lparr>rt_IdentitySeconds = 86400, rt_ControlSeconds = 86400\<rparr>"

lemma sample_rebuild:
  "rebuildPolicies sample_env (unix_time 300) sample_store = Inr (store_policy sample_built ''n'' sample_store)"
proof -
  have "sort (map pr_node_id (node_policies sample_store)) = [''n'']" by (simp add: sample_store_defs)
  with sample_build show ?thesis by (simp add: rebuildPolicies_def)
qed

lemma sample_put:
  "put_setting ''control_retention_seconds'' (FormatInt 86400)
     (put_setting ''identity_retention_seconds'' (FormatInt 86400) sample_store) = sample_store"
proof -
  have "FormatInt 86400 = ''86400''"
    by (simp add: FormatInt_def show_nat.simps digit_char_def char_of_def bit_simps)
  then show ?thesis by (simp add: put_setting_def sample_store_def)
qed

theorem SetRetentions_roundtrip_witness:
  "\<exists>s'. SetRetentions sample_env sample_store local_admin sample_day (unix_time 300) = Inr s'
     \<and> Retentions s' = Inr sample_day"
proof -
  obtain s' where s': "SetRetentions sample_env sample_store local_admin sample_day (unix_time 300) = Inr s'"
    using sample_rebuild
    by (simp add: SetRetentions_def local_admin_def sample_day_def sample_put validRetentions_def maxSeconds_def
        MaxInt64_def second_def activeActor_def)
  moreover have "Retentions s' = Inr sample_day"
    using SetRetentions_roundtrip [OF s'] by (simp add: setting_def sample_store_def)
  ultimately show ?thesis by blast
qed

end
