(* ===== verification/Auth.thy ===== *)
theory Auth
  imports PolicyBuild
begin

text \<open>
  Users, their sessions and the actor of a request: \<^verbatim>\<open>internal/control/auth.go\<close>.
\<close>

section \<open>Operations\<close>

text \<open>\<^verbatim>\<open>hex.EncodeToString\<close> of the bytes of a string.\<close>

definition hex_encode :: "string \<Rightarrow> string" where
  "hex_encode s = concat (map (\<lambda>c. let n = of_char c :: nat
     in [''0123456789abcdef'' ! (n div 16), ''0123456789abcdef'' ! (n mod 16)]) s)"

definition passwordHash :: "env \<Rightarrow> string \<Rightarrow> string \<Rightarrow> string result" where
  "passwordHash E password salt =
     (if length password < 12 \<or> 72 < length password then Inl ErrInvalid else Inr (bcrypt_hash E password salt))"

definition is_admin :: "actor \<Rightarrow> bool" where
  "is_admin actor \<longleftrightarrow> ac_Enabled actor \<and> ac_Role actor = ''admin''"

definition hasAdmin :: "store \<Rightarrow> bool" where
  "hasAdmin s \<longleftrightarrow> list_ex (\<lambda>u. u_role u = ''admin'') (users s)"

text \<open>The insertion into \<^verbatim>\<open>users\<close>: the id is the primary key, the name is unique up to case.\<close>

definition insert_user :: "user_row \<Rightarrow> store \<Rightarrow> store result" where
  "insert_user u s =
     bindE (insert_row u_id u (users s)) (\<lambda>_.
     bindE (insert_row (\<lambda>v. nocase (u_username v)) u (users s)) (\<lambda>us. Inr (s\<lparr>users := us\<rparr>)))"

definition createUser ::
    "env \<Rightarrow> store \<Rightarrow> actor \<Rightarrow> string \<Rightarrow> string \<Rightarrow> string \<Rightarrow> bool \<Rightarrow> string \<Rightarrow> string \<Rightarrow> time \<Rightarrow> (actor \<times> store) result" where
  "createUser E s actor username password role initial token salt now =
     bindE (failIf (username = [] \<or> 80 < length username \<or> TrimSpace username \<noteq> username) ErrInvalid) (\<lambda>_.
     bindE (passwordHash E password salt) (\<lambda>hash.
     bindE (activeActor s actor) (\<lambda>_.
     bindE (failIf (initial \<and> hasAdmin s) ErrConflict) (\<lambda>_.
     bindE (insert_user \<lparr>u_id = token, u_username = username, u_role = role, u_enabled = True,
              u_password_hash = hash, u_session_version = 1\<rparr> s) (\<lambda>s1.
     Inr (\<lparr>ac_ID = token, ac_Username = username, ac_Role = role, ac_Enabled = True\<rparr>,
          writeAudit (ac_ID actor) token ''user'' token ''user.create'' now s1))))))"

definition InitializeAdmin ::
    "env \<Rightarrow> store \<Rightarrow> string \<Rightarrow> string \<Rightarrow> string \<Rightarrow> string \<Rightarrow> time \<Rightarrow> (actor \<times> store) result" where
  "InitializeAdmin E s username password token salt now =
     createUser E s local_admin username password ''admin'' True token salt now"

definition CreateUser ::
    "env \<Rightarrow> store \<Rightarrow> actor \<Rightarrow> string \<Rightarrow> string \<Rightarrow> string \<Rightarrow> string \<Rightarrow> string \<Rightarrow> time \<Rightarrow> (actor \<times> store) result" where
  "CreateUser E s actor username password role token salt now =
     bindE (failIf (\<not> is_admin actor) ErrForbidden) (\<lambda>_.
     bindE (failIf (role \<noteq> ''provider'' \<and> role \<noteq> ''member'') ErrInvalid) (\<lambda>_.
     createUser E s actor username password role False token salt now))"

definition CreateMember ::
    "env \<Rightarrow> store \<Rightarrow> actor \<Rightarrow> string \<Rightarrow> string \<Rightarrow> string \<Rightarrow> string \<Rightarrow> time \<Rightarrow> (actor \<times> store) result" where
  "CreateMember E s actor username password token salt now =
     CreateUser E s actor username password ''member'' token salt now"

text \<open>The two statements every change of a user ends its sessions with.\<close>

definition update_user :: "string \<Rightarrow> (user_row \<Rightarrow> user_row) \<Rightarrow> store \<Rightarrow> store" where
  "update_user uid f s = s\<lparr>users := update_where (\<lambda>u. u_id u = uid) f (users s)\<rparr>"

definition delete_sessions :: "string \<Rightarrow> store \<Rightarrow> store" where
  "delete_sessions uid s = s\<lparr>sessions := delete_where (\<lambda>r. se_user_id r = uid) (sessions s)\<rparr>"

definition user_exists :: "string \<Rightarrow> store \<Rightarrow> bool" where
  "user_exists uid s \<longleftrightarrow> list_ex (\<lambda>u. u_id u = uid) (users s)"

definition SetUserRole :: "store \<Rightarrow> actor \<Rightarrow> string \<Rightarrow> string \<Rightarrow> time \<Rightarrow> store result" where
  "SetUserRole s actor userID role now =
     bindE (failIf (\<not> is_admin actor) ErrForbidden) (\<lambda>_.
     bindE (failIf (role \<noteq> ''provider'' \<and> role \<noteq> ''member'') ErrInvalid) (\<lambda>_.
     bindE (activeActor s actor) (\<lambda>_.
     bindE (query_row (\<lambda>u. u_id u = userID) (users s)) (\<lambda>u.
     bindE (failIf (u_role u = ''admin'') ErrForbidden) (\<lambda>_.
     if u_role u = role then Inr s
     else bindE (failIf (role = ''member'' \<and> list_ex (\<lambda>n. n_owner_id n = userID) (nodes s)) ErrConflict) (\<lambda>_.
       Inr (writeAudit (ac_ID actor) userID ''user'' userID ''user.role'' now
         (delete_sessions userID
           (update_user userID (\<lambda>u. u\<lparr>u_role := role, u_session_version := u_session_version u + 1\<rparr>) s)))))))))"

definition ChangePassword :: "env \<Rightarrow> store \<Rightarrow> actor \<Rightarrow> string \<Rightarrow> string \<Rightarrow> string \<Rightarrow> time \<Rightarrow> store result" where
  "ChangePassword E s actor userID password salt now =
     bindE (RequireOwner actor userID) (\<lambda>_.
     bindE (passwordHash E password salt) (\<lambda>hash.
     bindE (activeActor s actor) (\<lambda>_.
     bindE (failIf (\<not> user_exists userID s) ErrInvalid) (\<lambda>_.
     Inr (writeAudit (ac_ID actor) userID ''user'' userID ''user.password'' now
       (delete_sessions userID
         (update_user userID (\<lambda>u. u\<lparr>u_password_hash := hash, u_session_version := u_session_version u + 1\<rparr>) s)))))))"

definition SetUserEnabled :: "env \<Rightarrow> store \<Rightarrow> actor \<Rightarrow> string \<Rightarrow> bool \<Rightarrow> time \<Rightarrow> store result" where
  "SetUserEnabled E s actor userID enabled now =
     bindE (failIf (\<not> is_admin actor) ErrForbidden) (\<lambda>_.
     bindE (activeActor s actor) (\<lambda>_.
     bindE (failIf (\<not> user_exists userID s) ErrInvalid) (\<lambda>_.
     bindE (rebuildPolicies E now
        (writeAudit (ac_ID actor) userID ''user'' userID ''user.enabled'' now
          (delete_sessions userID
            (update_user userID (\<lambda>u. u\<lparr>u_enabled := enabled, u_session_version := u_session_version u + 1\<rparr>) s)))) (\<lambda>s1.
     Inr (notifyPolicies s1)))))"

text \<open>
  \<^verbatim>\<open>RecoverAdmin\<close> is two transactions: when the second fails the first has been committed, so
  the store comes back with the error too.
\<close>

definition RecoverAdmin :: "env \<Rightarrow> store \<Rightarrow> string \<Rightarrow> string \<Rightarrow> string \<Rightarrow> time \<Rightarrow> unit result \<times> store" where
  "RecoverAdmin E s userID password salt now =
     (case bindE (query_row (\<lambda>u. u_id u = userID) (users s)) (\<lambda>u.
           bindE (failIf (u_role u \<noteq> ''admin'') ErrForbidden) (\<lambda>_.
           ChangePassword E s local_admin userID password salt now)) of
        Inl e \<Rightarrow> (Inl e, s)
      | Inr s1 \<Rightarrow> (case SetUserEnabled E s1 local_admin userID True now of
            Inl e \<Rightarrow> (Inl e, s1) | Inr s2 \<Rightarrow> (Inr (), s2)))"

definition Authenticate :: "env \<Rightarrow> store \<Rightarrow> string \<Rightarrow> time \<Rightarrow> actor result" where
  "Authenticate E s token now =
     (if length token \<noteq> 64 then Inl ErrUnauthorized
      else case find (\<lambda>r. se_token_hash r = tokenHash E token \<and> unix now < se_expires_at r) (sessions s) of
        None \<Rightarrow> Inl ErrUnauthorized
      | Some r \<Rightarrow>
          (case find (\<lambda>u. u_id u = se_user_id r \<and> se_session_version r = u_session_version u \<and> u_enabled u) (users s) of
             None \<Rightarrow> Inl ErrUnauthorized
           | Some u \<Rightarrow> Inr \<lparr>ac_ID = u_id u, ac_Username = u_username u, ac_Role = u_role u, ac_Enabled = u_enabled u\<rparr>))"

text \<open>
  \<^verbatim>\<open>login\<close> reads the user with one statement and inserts the session with another; \<open>s2\<close> is the
  store the second one sees.
\<close>

definition login_select :: "env \<Rightarrow> store \<Rightarrow> string \<Rightarrow> string \<Rightarrow> user_row result" where
  "login_select E s username password =
     (case find (\<lambda>u. nocase (u_username u) = nocase username) (users s) of
        None \<Rightarrow> Inl ErrUnauthorized
      | Some u \<Rightarrow>
          if \<not> bcrypt_compare E (u_password_hash u) password \<or> \<not> u_enabled u then Inl ErrUnauthorized else Inr u)"

definition csrf_of :: "env \<Rightarrow> string \<Rightarrow> string" where
  "csrf_of E token = hex_encode (tokenHash E (''uniderp-csrf:'' @ token))"

definition login_insert :: "env \<Rightarrow> store \<Rightarrow> user_row \<Rightarrow> string \<Rightarrow> time \<Rightarrow> store result" where
  "login_insert E s2 u token now =
     (case find (\<lambda>v. u_id v = u_id u \<and> u_enabled v \<and> u_session_version v = u_session_version u) (users s2) of
        None \<Rightarrow> Inl ErrUnauthorized
      | Some v \<Rightarrow>
          bindE (insert_row se_token_hash
             \<lparr>se_token_hash = tokenHash E token, se_user_id = u_id v, se_session_version = u_session_version v,
              se_csrf_hash = tokenHash E (csrf_of E token), se_expires_at = unix (now + 12 * 3600 * second)\<rparr>
             (sessions s2)) (\<lambda>xs. Inr (s2\<lparr>sessions := xs\<rparr>)))"

definition login ::
    "env \<Rightarrow> store \<Rightarrow> store \<Rightarrow> string \<Rightarrow> string \<Rightarrow> string \<Rightarrow> time \<Rightarrow> ((string \<times> string) \<times> store) result" where
  "login E s1 s2 username password token now =
     bindE (login_select E s1 username password) (\<lambda>u.
     bindE (login_insert E s2 u token now) (\<lambda>s'. Inr ((token, csrf_of E token), s')))"

definition checkCSRF :: "env \<Rightarrow> store \<Rightarrow> string \<Rightarrow> string \<Rightarrow> unit result" where
  "checkCSRF E s token csrf =
     (if csrf = [] then Inl ErrForbidden
      else case find (\<lambda>r. se_token_hash r = tokenHash E token) (sessions s) of
        None \<Rightarrow> Inl ErrForbidden
      | Some r \<Rightarrow> failIf (se_csrf_hash r \<noteq> tokenHash E csrf) ErrForbidden)"

section \<open>Consistency\<close>

lemma delete_sessions_inv: "db_inv E s \<Longrightarrow> db_inv E (delete_sessions uid s)"
  unfolding delete_sessions_def by (rule db_inv_sessions_delete)

lemma insert_user_inv: "insert_user u s = Inr s' \<Longrightarrow> role_ok (u_role u) \<Longrightarrow> u_id u \<noteq> ''local'' \<Longrightarrow> db_inv E s \<Longrightarrow> db_inv E s'"
  by (auto simp: insert_user_def bindE_Inr_iff insert_row_Inr user_ids_def intro!: db_inv_users_insert)

lemma createUser_inv:
  "createUser E s actor username password role initial token salt now = Inr (a, s') \<Longrightarrow> role_ok role
    \<Longrightarrow> token \<noteq> ''local'' \<Longrightarrow> db_inv E s \<Longrightarrow> db_inv E s'"
  by (auto simp: createUser_def bindE_Inr_iff dest: insert_user_inv)

lemma InitializeAdmin_inv [inv_intros]:
  "InitializeAdmin E s username password token salt now = Inr (a, s') \<Longrightarrow> token \<noteq> ''local'' \<Longrightarrow> db_inv E s \<Longrightarrow> db_inv E s'"
  unfolding InitializeAdmin_def by (erule createUser_inv) (simp_all add: role_ok_def)

lemma CreateUser_inv [inv_intros]:
  "CreateUser E s actor username password role token salt now = Inr (a, s') \<Longrightarrow> token \<noteq> ''local'' \<Longrightarrow> db_inv E s \<Longrightarrow> db_inv E s'"
  unfolding CreateUser_def bindE_Inr_iff failIf_Inr_iff by (auto simp: role_ok_def intro: createUser_inv)

text \<open>An update of one user that keeps its role.\<close>

lemma update_user_inv:
  assumes "db_inv E s" and "\<And>u. u_id (f u) = u_id u" and "\<And>u. u_username (f u) = u_username u"
    and "\<And>u. u_role (f u) = u_role u"
  shows "db_inv E (update_user uid f s)"
  unfolding update_user_def by (rule db_inv_users_update) (use assms in auto)

lemma ChangePassword_inv [inv_intros]:
  "ChangePassword E s actor userID password salt now = Inr s' \<Longrightarrow> db_inv E s \<Longrightarrow> db_inv E s'"
  by (auto simp: ChangePassword_def bindE_Inr_iff intro!: delete_sessions_inv update_user_inv)

lemma SetUserEnabled_inv [inv_intros]:
  "SetUserEnabled E s actor userID enabled now = Inr s' \<Longrightarrow> db_inv E s \<Longrightarrow> db_inv E s'"
  by (auto simp: SetUserEnabled_def bindE_Inr_iff intro!: delete_sessions_inv update_user_inv elim!: rebuildPolicies_inv)

lemma SetUserRole_inv [inv_intros]:
  assumes "SetUserRole s actor userID role now = Inr s'" and inv: "db_inv E s"
  shows "db_inv E s'"
proof (cases "s' = s")
  case True
  with inv show ?thesis by simp
next
  case False
  with assms(1) have role: "role = ''provider'' \<or> role = ''member''"
    and own: "role = ''member'' \<longrightarrow> \<not> list_ex (\<lambda>n. n_owner_id n = userID) (nodes s)"
    and s': "s' = writeAudit (ac_ID actor) userID ''user'' userID ''user.role'' now (delete_sessions userID
      (update_user userID (\<lambda>u. u\<lparr>u_role := role, u_session_version := u_session_version u + 1\<rparr>) s))"
    by (auto simp: SetUserRole_def bindE_Inr_iff failIf_Inr_iff split: if_splits)
  have "db_inv E (update_user userID (\<lambda>u. u\<lparr>u_role := role, u_session_version := u_session_version u + 1\<rparr>) s)"
    unfolding update_user_def
    by (rule db_inv_users_update [OF inv]) (use role own in \<open>auto simp: role_ok_def list_ex_iff\<close>)
  then show ?thesis by (simp add: s' delete_sessions_inv)
qed

lemma login_insert_inv: "login_insert E s2 u token now = Inr s' \<Longrightarrow> db_inv E s2 \<Longrightarrow> db_inv E s'"
  by (auto simp: login_insert_def bindE_Inr_iff insert_row_Inr user_ids_def dest!: find_SomeD
      split: option.splits intro!: db_inv_sessions_insert) (metis image_eqI)

lemma login_inv [inv_intros]:
  "login E s1 s2 username password token now = Inr (x, s') \<Longrightarrow> db_inv E s2 \<Longrightarrow> db_inv E s'"
  by (auto simp: login_def bindE_Inr_iff dest: login_insert_inv)

section \<open>Sessions and actors\<close>

lemma Authenticate_Inr:
  assumes "Authenticate E s token now = Inr a"
  shows "\<exists>r u. r \<in> set (sessions s) \<and> u \<in> set (users s) \<and> se_token_hash r = tokenHash E token
    \<and> unix now < se_expires_at r \<and> u_id u = se_user_id r \<and> se_session_version r = u_session_version u \<and> u_enabled u
    \<and> a = \<lparr>ac_ID = u_id u, ac_Username = u_username u, ac_Role = u_role u, ac_Enabled = u_enabled u\<rparr>"
  using assms by (force simp: Authenticate_def dest!: find_SomeD split: if_splits option.splits)

text \<open>A user without a session row cannot be authenticated.\<close>

definition signed_out :: "string \<Rightarrow> store \<Rightarrow> bool" where
  "signed_out uid s \<longleftrightarrow> list_all (\<lambda>r. se_user_id r \<noteq> uid) (sessions s)"

lemma signed_out_Authenticate: "signed_out uid s \<Longrightarrow> Authenticate E s token now = Inr a \<Longrightarrow> ac_ID a \<noteq> uid"
  by (auto simp: signed_out_def list_all_iff dest!: Authenticate_Inr)

lemma signed_out_delete_sessions [simp]: "signed_out uid (delete_sessions uid s)"
  by (simp add: signed_out_def delete_sessions_def list_all_iff)

lemma signed_out_frame [simp]:
  "signed_out uid (writeAudit a ow k rid act now s) = signed_out uid s"
  "signed_out uid (notifyPolicies s) = signed_out uid s"
  by (simp_all add: signed_out_def writeAudit_def notifyPolicies_def)

lemma signed_out_same:
  assumes "same_but_policies s s'"
  shows "signed_out uid s' = signed_out uid s"
  using arg_cong [OF assms [unfolded same_but_policies_def], of sessions] by (simp add: signed_out_def)

lemma ChangePassword_signed_out: "ChangePassword E s actor uid password salt now = Inr s' \<Longrightarrow> signed_out uid s'"
  by (auto simp: ChangePassword_def bindE_Inr_iff)

lemma SetUserRole_signed_out: "SetUserRole s actor uid role now = Inr s' \<Longrightarrow> s' \<noteq> s \<Longrightarrow> signed_out uid s'"
  by (auto simp: SetUserRole_def bindE_Inr_iff split: if_splits)

lemma SetUserEnabled_signed_out: "SetUserEnabled E s actor uid enabled now = Inr s' \<Longrightarrow> signed_out uid s'"
  by (auto simp: SetUserEnabled_def bindE_Inr_iff dest!: rebuildPolicies_same signed_out_same [of _ _ uid])

section \<open>Properties\<close>

text \<open>C12: Changing a user's password, enabling or disabling them, or changing their role ends all of
  their sessions: no token, old or guessed, authenticates as that user afterwards until they
  log in again.\<close>

theorem user_change_revokes_sessions:
  assumes "ChangePassword E s actor uid password salt now = Inr s'
      \<or> SetUserEnabled E s actor uid enabled now = Inr s'
      \<or> SetUserRole s actor uid role now = Inr s' \<and> s' \<noteq> s"
    and "Authenticate E s' token now' = Inr a"
  shows "ac_ID a \<noteq> uid"
proof -
  have "signed_out uid s'"
    using assms(1) by (auto dest: ChangePassword_signed_out SetUserEnabled_signed_out SetUserRole_signed_out)
  then show ?thesis using assms(2) by (rule signed_out_Authenticate)
qed

text \<open>C13: Logging in works: the token \<^verbatim>\<open>login\<close> returns authenticates as a user of the given name,
  up to case, with their current role, for as long as the session has not expired, and the
  CSRF token that came with it is accepted with it.\<close>

theorem login_authenticates:
  assumes log: "login E s1 s2 username password token now = Inr ((token', csrf), s')"
    and inv: "db_inv E s2" and tok: "length token = 64" and hash: "tokenHash E (''uniderp-csrf:'' @ token) \<noteq> []"
    and time: "unix now' < unix (now + 12 * 3600 * second)"
  shows "token' = token \<and> checkCSRF E s' token csrf = Inr ()
    \<and> (\<exists>u\<in>set (users s'). u_enabled u \<and> Authenticate E s' token now' =
         Inr \<lparr>ac_ID = u_id u, ac_Username = u_username u, ac_Role = u_role u, ac_Enabled = True\<rparr>
         \<and> (s1 = s2 \<longrightarrow> nocase (u_username u) = nocase username))"
proof -
  from log obtain u where sel: "login_select E s1 username password = Inr u"
    and ins: "login_insert E s2 u token now = Inr s'" and t: "token' = token" "csrf = csrf_of E token"
    by (auto simp: login_def bindE_Inr_iff)
  from ins obtain v where v: "find (\<lambda>v. u_id v = u_id u \<and> u_enabled v \<and> u_session_version v = u_session_version u) (users s2) = Some v"
    and new: "tokenHash E token \<notin> se_token_hash ` set (sessions s2)"
    and s': "s' = s2\<lparr>sessions := sessions s2 @ [\<lparr>se_token_hash = tokenHash E token, se_user_id = u_id v,
      se_session_version = u_session_version v, se_csrf_hash = tokenHash E (csrf_of E token),
      se_expires_at = unix (now + 12 * 3600 * second)\<rparr>]\<rparr>"
    by (auto simp: login_insert_def bindE_Inr_iff insert_row_Inr split: option.splits)
  note v' = find_SomeD [OF v]
  have none: "find (\<lambda>r. se_token_hash r = tokenHash E token) (sessions s2) = None"
    "find (\<lambda>r. se_token_hash r = tokenHash E token \<and> unix now' < se_expires_at r) (sessions s2) = None"
    using new by (auto simp: find_None_iff image_iff)
  have un: "unique u_id (users s2)" using inv by (simp add: db_inv_def users_inv_def)
  then have "find (\<lambda>w. u_id w = u_id v \<and> u_session_version v = u_session_version w \<and> u_enabled w) (users s2) = Some v"
    using v' by (intro find_Some_unique [OF un]) auto
  then have auth: "Authenticate E s' token now' =
      Inr \<lparr>ac_ID = u_id v, ac_Username = u_username v, ac_Role = u_role v, ac_Enabled = True\<rparr>"
    using tok time v' by (simp add: Authenticate_def s' find_append none)
  have "csrf_of E token \<noteq> []" using hash by (simp add: csrf_of_def hex_encode_def Let_def)
  then have "checkCSRF E s' token csrf = Inr ()" by (simp add: checkCSRF_def s' find_append none t)
  moreover have "nocase (u_username v) = nocase username" if "s1 = s2"
  proof -
    have "u \<in> set (users s2)" "nocase (u_username u) = nocase username"
      using sel that by (auto simp: login_select_def dest!: find_SomeD split: option.splits if_splits)
    moreover have "u = v" using uniqueD [OF un] calculation(1) v' by metis
    ultimately show ?thesis by simp
  qed
  ultimately show ?thesis using auth v' t by (auto simp: s')
qed

text \<open>An authenticated actor is an enabled user with the role it claims: the check every
  operation repeats inside its transaction succeeds on it.\<close>

theorem Authenticate_active:
  assumes "Authenticate E s token now = Inr a" and "db_inv E s"
  shows "activeActor s a = Inr () \<and> ac_Enabled a"
proof -
  from Authenticate_Inr [OF assms(1)] obtain u where u: "u \<in> set (users s)" "u_enabled u"
    and a: "a = \<lparr>ac_ID = u_id u, ac_Username = u_username u, ac_Role = u_role u, ac_Enabled = u_enabled u\<rparr>" by blast
  have "unique u_id (users s)" using assms(2) by (simp add: db_inv_def users_inv_def)
  then have "find (\<lambda>v. u_id v = u_id u \<and> u_enabled v) (users s) = Some u"
    using u by (intro find_Some_unique [of u_id]) auto
  with u a show ?thesis by (simp add: activeActor_def)
qed

text \<open>The first administrator is created once: initialisation succeeds only when there is no
  administrator, leaves exactly the one it returns, and fails from then on.\<close>

theorem InitializeAdmin_once:
  assumes "InitializeAdmin E s username password token salt now = Inr (a, s')"
  shows "\<not> hasAdmin s \<and> map u_id (filter (\<lambda>u. u_role u = ''admin'') (users s')) = [ac_ID a]
    \<and> (\<exists>e. InitializeAdmin E s' username' password' token' salt' now' = Inl e)"
proof -
  from assms obtain u where no: "\<not> hasAdmin s" and u: "users s' = users s @ [u]" "u_role u = ''admin''" "u_id u = ac_ID a"
    by (auto simp: InitializeAdmin_def createUser_def bindE_Inr_iff failIf_Inr_iff insert_user_def insert_row_Inr
        writeAudit_def)
  have "filter (\<lambda>u. u_role u = ''admin'') (users s) = []"
    using no by (simp add: hasAdmin_def list_ex_iff filter_empty_conv)
  moreover have "hasAdmin s'" using u by (simp add: hasAdmin_def)
  then have "InitializeAdmin E s' username' password' token' salt' now' \<noteq> Inr y" for y
    by (auto simp: InitializeAdmin_def createUser_def bindE_Inr_iff failIf_Inr_iff)
  then have "\<exists>e. InitializeAdmin E s' username' password' token' salt' now' = Inl e"
    by (metis sum.exhaust)
  ultimately show ?thesis using no u by simp
qed

subsection \<open>Instances\<close>

definition sample_token :: string where
  "sample_token = replicate 64 CHR ''a''"

definition sample_logged_in :: store where
  "sample_logged_in = sample_store\<lparr>sessions := [\<lparr>se_token_hash = CHR ''h'' # sample_token, se_user_id = ''u'',
     se_session_version = 1, se_csrf_hash = tokenHash sample_env (csrf_of sample_env sample_token),
     se_expires_at = 43500\<rparr>]\<rparr>"

lemma sample_login:
  "login sample_env sample_store sample_store ''Ann'' ''secretsecret'' sample_token (unix_time 300) =
     Inr ((sample_token, csrf_of sample_env sample_token), sample_logged_in)"
proof -
  have "nocase ''ann'' = nocase ''Ann''"
    by (simp add: nocase_def lower_char_def less_eq_char_def char_of_def bit_simps)
  then have "login_select sample_env sample_store ''Ann'' ''secretsecret'' = Inr sample_user"
    by (simp add: login_select_def sample_store_defs sample_env_def)
  moreover have "login_insert sample_env sample_store sample_user sample_token (unix_time 300) = Inr sample_logged_in"
    by (simp add: login_insert_def sample_store_defs insert_row_def sample_logged_in_def unix_def unix_time_def second_def)
      (simp add: sample_env_def)
  ultimately show ?thesis by (simp add: login_def)
qed

theorem login_authenticates_witness:
  "checkCSRF sample_env sample_logged_in sample_token (csrf_of sample_env sample_token) = Inr ()
   \<and> (\<exists>u\<in>set (users sample_logged_in). Authenticate sample_env sample_logged_in sample_token (unix_time 400) =
        Inr \<lparr>ac_ID = u_id u, ac_Username = u_username u, ac_Role = u_role u, ac_Enabled = True\<rparr>)"
  using login_authenticates [OF sample_login sample_store_inv, of "unix_time 400"]
  by (auto simp: sample_token_def unix_def unix_time_def second_def sample_env_def)

lemma sample_auth: "Authenticate sample_env sample_logged_in sample_token (unix_time 400) =
   Inr \<lparr>ac_ID = ''u'', ac_Username = ''ann'', ac_Role = ''provider'', ac_Enabled = True\<rparr>"
  by (simp add: Authenticate_def sample_logged_in_def sample_token_def sample_store_defs sample_env_def)

lemma sample_logged_in_inv: "db_inv sample_env sample_logged_in"
  using login_inv [OF sample_login sample_store_inv] .

theorem Authenticate_active_witness:
  "activeActor sample_logged_in \<lparr>ac_ID = ''u'', ac_Username = ''ann'', ac_Role = ''provider'', ac_Enabled = True\<rparr> = Inr ()"
  using Authenticate_active [OF sample_auth sample_logged_in_inv] by simp

text \<open>Another user's session survives the change of a password.\<close>

definition sample_two_users :: store where
  "sample_two_users = sample_logged_in\<lparr>users := [sample_user, sample_user\<lparr>u_id := ''w'', u_username := ''bob''\<rparr>]\<rparr>"

theorem user_change_revokes_sessions_witness:
  "\<exists>s' a. ChangePassword sample_env sample_two_users local_admin ''w'' ''another secret'' [] (unix_time 400) = Inr s'
     \<and> Authenticate sample_env s' sample_token (unix_time 400) = Inr a \<and> ac_ID a \<noteq> ''w''"
proof -
  obtain s' where s': "ChangePassword sample_env sample_two_users local_admin ''w'' ''another secret'' [] (unix_time 400) = Inr s'"
    by (simp add: ChangePassword_def RequireOwner_def local_admin_def passwordHash_def activeActor_def user_exists_def
        sample_two_users_def)
  then have "s' = writeAudit ''local'' ''w'' ''user'' ''w'' ''user.password'' (unix_time 400) (delete_sessions ''w''
      (update_user ''w'' (\<lambda>u. u\<lparr>u_password_hash := ''another secret'', u_session_version := u_session_version u + 1\<rparr>)
        sample_two_users))"
    by (simp add: ChangePassword_def RequireOwner_def local_admin_def passwordHash_def activeActor_def user_exists_def
        sample_two_users_def sample_env_def)
  then have a: "Authenticate sample_env s' sample_token (unix_time 400) =
      Inr \<lparr>ac_ID = ''u'', ac_Username = ''ann'', ac_Role = ''provider'', ac_Enabled = True\<rparr>"
    by (simp add: writeAudit_def delete_sessions_def update_user_def Authenticate_def sample_two_users_def
        sample_logged_in_def sample_token_def sample_store_defs sample_env_def delete_where_def)
  from user_change_revokes_sessions [OF disjI1 [OF s'] a] a s' show ?thesis by blast
qed

theorem InitializeAdmin_once_witness:
  "\<exists>a s'. InitializeAdmin sample_env sample_store ''root'' ''secretsecret'' ''r'' [] (unix_time 400) = Inr (a, s')
     \<and> map u_id (filter (\<lambda>u. u_role u = ''admin'') (users s')) = [ac_ID a]"
proof -
  have "nocase ''root'' \<noteq> nocase ''ann''" by (simp add: nocase_def)
  then obtain a s' where i: "InitializeAdmin sample_env sample_store ''root'' ''secretsecret'' ''r'' [] (unix_time 400) = Inr (a, s')"
    by (simp add: InitializeAdmin_def createUser_def TrimSpace_id is_graph_def less_eq_char_def passwordHash_def
        local_admin_def activeActor_def hasAdmin_def insert_user_def insert_row_def sample_store_defs)
  then show ?thesis using InitializeAdmin_once [OF i] by blast
qed

end
