(* ===== verification/Grants.thy ===== *)
theory Grants
  imports Auth
begin

text \<open>
  Grants of a node's relay to a tailnet, from the request to its end:
  \<^verbatim>\<open>internal/control/grants.go\<close>.
\<close>

section \<open>Grants as they are shown\<close>

datatype grant_action = GrantApprove | GrantConfirm | GrantCancel | GrantReject | GrantRevoke | GrantLeave | GrantOther string

fun action_name :: "grant_action \<Rightarrow> string" where
  "action_name GrantApprove = ''approve''"
| "action_name GrantConfirm = ''confirm''"
| "action_name GrantCancel = ''cancel''"
| "action_name GrantReject = ''reject''"
| "action_name GrantRevoke = ''revoke''"
| "action_name GrantLeave = ''leave''"
| "action_name (GrantOther a) = a"

record grant =
  gr_ID :: string
  gr_NodeID :: string
  gr_TailnetID :: string
  gr_NodeOwnerID :: string
  gr_TailnetOwnerID :: string
  gr_State :: grant_state
  gr_Revision :: nat
  gr_ExplicitUntil :: time
  gr_NodeName :: string
  gr_TailnetName :: string
  gr_Applicant :: string

text \<open>\<^verbatim>\<open>(SELECT username FROM users WHERE id=t.owner_id)\<close>, which is \<^verbatim>\<open>NULL\<close> when there is no such user.\<close>

definition applicant :: "store \<Rightarrow> tailnet_row \<Rightarrow> string result" where
  "applicant s t =
     (case find (\<lambda>u. u_id u = t_owner_id t) (users s) of
        None \<Rightarrow> Inl (ErrMsg ''converting NULL to string is unsupported'')
      | Some u \<Rightarrow> Inr (u_username u))"

definition pending_state :: "grant_state \<Rightarrow> bool" where
  "pending_state st \<longleftrightarrow> st = Requested \<or> st = OwnerApproved \<or> st = Active"

text \<open>\<^verbatim>\<open>scanGrant\<close>: a grant whose explicit end has come shows as expired.\<close>

definition effective_state :: "grant_row \<Rightarrow> time \<Rightarrow> grant_state" where
  "effective_state g now =
     (if g_explicit_until g \<noteq> 0 \<and> \<not> now < unix_time (g_explicit_until g) \<and> pending_state (g_state g)
      then Expired else g_state g)"

definition grant_until :: "grant_row \<Rightarrow> time" where
  "grant_until g = (if g_explicit_until g \<noteq> 0 then unix_time (g_explicit_until g) else zero_time)"

definition grant_view :: "grant_row \<Rightarrow> node_row \<Rightarrow> tailnet_row \<Rightarrow> string \<Rightarrow> time \<Rightarrow> grant" where
  "grant_view g n t name now =
     \<lparr>gr_ID = g_id g, gr_NodeID = g_node_id g, gr_TailnetID = g_tailnet_id g,
      gr_NodeOwnerID = n_owner_id n, gr_TailnetOwnerID = t_owner_id t,
      gr_State = effective_state g now, gr_Revision = g_revision g, gr_ExplicitUntil = grant_until g,
      gr_NodeName = n_display_name n, gr_TailnetName = t_display_name t, gr_Applicant = name\<rparr>"

text \<open>The row of a query over the join of grants, nodes and tailnets.\<close>

definition scanGrant :: "store \<Rightarrow> (grant_row \<Rightarrow> bool) \<Rightarrow> time \<Rightarrow> grant result" where
  "scanGrant s P now =
     bindE (query_row (\<lambda>g. P g \<and> find_node s (g_node_id g) \<noteq> None \<and> find_tailnet s (g_tailnet_id g) \<noteq> None)
        (grants s)) (\<lambda>g.
     let n = the (find_node s (g_node_id g)); t = the (find_tailnet s (g_tailnet_id g))
     in bindE (applicant s t) (\<lambda>name. Inr (grant_view g n t name now)))"

definition Grant :: "store \<Rightarrow> actor \<Rightarrow> string \<Rightarrow> time \<Rightarrow> grant result" where
  "Grant s actor rid now =
     bindE (scanGrant s (\<lambda>g. g_id g = rid) now) (\<lambda>g.
     if \<not> may_act actor (gr_NodeOwnerID g) \<and> \<not> may_act actor (gr_TailnetOwnerID g) then Inl ErrForbidden else Inr g)"

text \<open>The rows an actor may see, in the order of their ids.\<close>

definition ListGrants :: "store \<Rightarrow> actor \<Rightarrow> time \<Rightarrow> grant list result" where
  "ListGrants s actor now =
     bindE (RequireOwner actor (ac_ID actor)) (\<lambda>_.
     mapE (\<lambda>i. scanGrant s (\<lambda>g. g_id g = i) now)
       (sort (map g_id (filter (\<lambda>g. case (find_node s (g_node_id g), find_tailnet s (g_tailnet_id g)) of
            (Some n, Some t) \<Rightarrow> n_owner_id n = ac_ID actor \<or> t_owner_id t = ac_ID actor \<or> ac_Role actor = ''admin''
          | _ \<Rightarrow> False) (grants s)))))"

section \<open>Requests and actions\<close>

definition grantResourcesEnabled :: "store \<Rightarrow> string \<Rightarrow> string \<Rightarrow> bool result" where
  "grantResourcesEnabled s node tailnet =
     bindE (node_and_owner s node) (\<lambda>(n, nu).
     bindE (query_row (\<lambda>t. t_id t = tailnet) (tailnets s)) (\<lambda>t.
     bindE (query_row (\<lambda>u. u_id u = t_owner_id t) (users s)) (\<lambda>tu.
     Inr (n_enabled n \<and> serving_state (n_state n) \<and> u_enabled nu \<and> t_enabled t \<and> u_enabled tu))))"

definition ended_state :: "grant_state \<Rightarrow> bool" where
  "ended_state st \<longleftrightarrow> st = Cancelled \<or> st = Rejected \<or> st = Revoked \<or> st = Expired"

text \<open>The insertion with \<^verbatim>\<open>ON CONFLICT(node_id,tailnet_id) DO UPDATE\<close>; the id of a new row is the primary key.\<close>

definition upsert_grant :: "grant_row \<Rightarrow> store \<Rightarrow> store result" where
  "upsert_grant g s =
     (if (g_node_id g, g_tailnet_id g) \<in> (\<lambda>h. (g_node_id h, g_tailnet_id h)) ` set (grants s)
      then Inr (s\<lparr>grants := update_where (\<lambda>h. (g_node_id h, g_tailnet_id h) = (g_node_id g, g_tailnet_id g))
             (\<lambda>h. h\<lparr>g_state := g_state g, g_revision := g_revision g, g_explicit_until := g_explicit_until g,
                    g_last_control_success := g_last_control_success g\<rparr>) (grants s)\<rparr>)
      else bindE (insert_row g_id g (grants s)) (\<lambda>gs. Inr (s\<lparr>grants := gs\<rparr>)))"

text \<open>
  The existing grant of the pair, or the new one: an unchanged grant is returned as it is
  (\<open>Inl\<close>), another one is going to be written (\<open>Inr\<close>).
\<close>

definition request_base ::
    "store \<Rightarrow> string \<Rightarrow> string \<Rightarrow> nat \<Rightarrow> grant_state \<Rightarrow> time \<Rightarrow> grant \<Rightarrow> time \<Rightarrow> (grant + grant) result" where
  "request_base s node tailnet expected state until fresh now =
     (case scanGrant s (\<lambda>g. g_node_id g = node \<and> g_tailnet_id g = tailnet) now of
        Inl e \<Rightarrow>
          if e = ErrNoRows then (if expected \<noteq> 0 then Inl ErrConflict else Inr (Inr fresh)) else Inl e
      | Inr g \<Rightarrow>
          if gr_State g = state \<and> gr_ExplicitUntil g = until
             \<and> (expected = gr_Revision g \<or> expected + 1 = gr_Revision g)
          then Inr (Inl g)
          else if expected \<noteq> gr_Revision g \<or> \<not> ended_state (gr_State g) then Inl ErrConflict
          else Inr (Inr g))"

text \<open>The rest of the transaction once the grant to write is known.\<close>

definition request_write ::
    "env \<Rightarrow> store \<Rightarrow> actor \<Rightarrow> string \<Rightarrow> grant_state \<Rightarrow> time \<Rightarrow> int \<Rightarrow> grant \<Rightarrow> time \<Rightarrow> (grant \<times> store) result" where
  "request_write E s actor owner state until untilUnix g now =
     bindE (upsert_grant \<lparr>g_id = gr_ID g, g_node_id = gr_NodeID g, g_tailnet_id = gr_TailnetID g, g_state = state,
              g_revision = gr_Revision g + 1, g_explicit_until = untilUnix,
              g_last_control_success = (if state = Active then unix now else 0)\<rparr> s) (\<lambda>s1.
     bindE (buildPolicy E s1 (gr_NodeID g) now) (\<lambda>(_, s2).
     Inr (g\<lparr>gr_State := state, gr_Revision := gr_Revision g + 1, gr_ExplicitUntil := until\<rparr>,
          notifyPolicy (gr_NodeID g)
            (writeAudit (ac_ID actor) owner ''grant'' (gr_ID g) ''grant.request'' now s2))))"

definition request_state :: "node_row \<Rightarrow> tailnet_row \<Rightarrow> grant_state" where
  "request_state n t = (if n_owner_id n = t_owner_id t then Active else Requested)"

definition fresh_grant :: "string \<Rightarrow> node_row \<Rightarrow> tailnet_row \<Rightarrow> string \<Rightarrow> grant" where
  "fresh_grant token n t name =
     \<lparr>gr_ID = token, gr_NodeID = n_id n, gr_TailnetID = t_id t, gr_NodeOwnerID = n_owner_id n,
      gr_TailnetOwnerID = t_owner_id t, gr_State = Requested, gr_Revision = 0, gr_ExplicitUntil = zero_time,
      gr_NodeName = n_display_name n, gr_TailnetName = t_display_name t, gr_Applicant = name\<rparr>"

definition RequestGrant ::
    "env \<Rightarrow> store \<Rightarrow> actor \<Rightarrow> string \<Rightarrow> string \<Rightarrow> nat \<Rightarrow> time \<Rightarrow> string \<Rightarrow> time \<Rightarrow> (grant \<times> store) result" where
  "RequestGrant E s actor node tailnet expected until0 token now =
     bindE (failIf (MaxInt64 \<le> expected \<or> until0 \<noteq> zero_time \<and> \<not> now < truncate_second until0) ErrInvalid) (\<lambda>_.
     let until = (if until0 \<noteq> zero_time then truncate_second until0 else zero_time);
         untilUnix = (if until0 \<noteq> zero_time then unix until else 0)
     in bindE (activeActor s actor) (\<lambda>_.
     bindE (query_row (\<lambda>n. n_id n = node) (nodes s)) (\<lambda>n.
     bindE (query_row (\<lambda>t. t_id t = tailnet) (tailnets s)) (\<lambda>t.
     bindE (applicant s t) (\<lambda>name.
     bindE (RequireOwner actor (t_owner_id t)) (\<lambda>_.
     bindE (grantResourcesEnabled s node tailnet) (\<lambda>enabled.
     bindE (failIf (\<not> enabled) ErrConflict) (\<lambda>_.
     bindE (request_base s node tailnet expected (request_state n t) until (fresh_grant token n t name) now) (\<lambda>base.
     case base of
       Inl g \<Rightarrow> Inr (g, s)
     | Inr g \<Rightarrow> request_write E s actor (t_owner_id t) (request_state n t) until untilUnix g now)))))))))"

text \<open>The switch over the action: whose consent it is, the next state, and whether it is allowed.\<close>

fun action_rule :: "grant_action \<Rightarrow> grant \<Rightarrow> (string \<times> grant_state \<times> bool) option" where
  "action_rule GrantApprove g = Some (gr_NodeOwnerID g, OwnerApproved, gr_State g = Requested)"
| "action_rule GrantConfirm g = Some (gr_TailnetOwnerID g, Active, gr_State g = OwnerApproved)"
| "action_rule GrantCancel g = Some (gr_TailnetOwnerID g, Cancelled, gr_State g = Requested \<or> gr_State g = OwnerApproved)"
| "action_rule GrantReject g = Some (gr_NodeOwnerID g, Rejected, gr_State g = Requested)"
| "action_rule GrantRevoke g = Some (gr_NodeOwnerID g, Revoked, gr_State g = OwnerApproved \<or> gr_State g = Active)"
| "action_rule GrantLeave g = Some (gr_TailnetOwnerID g, Revoked, gr_State g = OwnerApproved \<or> gr_State g = Active)"
| "action_rule (GrantOther _) g = None"

definition set_grant_state :: "string \<Rightarrow> grant_state \<Rightarrow> nat \<Rightarrow> int \<Rightarrow> store \<Rightarrow> store" where
  "set_grant_state rid st revision contact s = s\<lparr>grants := update_where (\<lambda>g. g_id g = rid)
     (\<lambda>g. g\<lparr>g_state := st, g_revision := revision, g_last_control_success := contact\<rparr>) (grants s)\<rparr>"

definition ApplyGrantAction ::
    "env \<Rightarrow> store \<Rightarrow> actor \<Rightarrow> string \<Rightarrow> nat \<Rightarrow> grant_action \<Rightarrow> time \<Rightarrow> (grant \<times> store) result" where
  "ApplyGrantAction E s actor rid expected action now =
     bindE (failIf (expected = 0 \<or> MaxInt64 \<le> expected) ErrInvalid) (\<lambda>_.
     bindE (activeActor s actor) (\<lambda>_.
     bindE (scanGrant s (\<lambda>g. g_id g = rid) now) (\<lambda>g.
     case action_rule action g of
       None \<Rightarrow> Inl ErrInvalid
     | Some (owner, nxt, allowed) \<Rightarrow>
         bindE (RequireOwner actor owner) (\<lambda>_.
         if gr_State g = nxt \<and> (gr_Revision g = expected \<or> gr_Revision g = expected + 1) then Inr (g, s)
         else bindE (failIf (gr_Revision g \<noteq> expected \<or> \<not> allowed) ErrConflict) (\<lambda>_.
         bindE (if action = GrantApprove \<or> action = GrantConfirm
                then bindE (grantResourcesEnabled s (gr_NodeID g) (gr_TailnetID g)) (\<lambda>enabled.
                       failIf (\<not> enabled) ErrConflict)
                else Inr ()) (\<lambda>_.
         bindE (buildPolicy E (set_grant_state rid nxt (gr_Revision g + 1)
                  (if nxt = Active then unix now else 0) s) (gr_NodeID g) now) (\<lambda>(_, s2).
         Inr (g\<lparr>gr_State := nxt, gr_Revision := gr_Revision g + 1\<rparr>,
              notifyPolicy (gr_NodeID g)
                (writeAudit (ac_ID actor) owner ''grant'' rid (''grant.'' @ action_name action) now s2)))))))))"

section \<open>Consistency\<close>

lemma query_row_node: "query_row (\<lambda>n. n_id n = node) (nodes s) = Inr n \<Longrightarrow> node \<in> node_ids s"
  by (auto simp: node_ids_def dest!: query_row_InrD)

lemma query_row_tailnet: "query_row (\<lambda>t. t_id t = tailnet) (tailnets s) = Inr t \<Longrightarrow> tailnet \<in> tailnet_ids s"
  by (auto simp: tailnet_ids_def dest!: query_row_InrD)

lemma upsert_grant_inv:
  "upsert_grant g s = Inr s' \<Longrightarrow> g_node_id g \<in> node_ids s \<Longrightarrow> g_tailnet_id g \<in> tailnet_ids s
    \<Longrightarrow> db_inv E s \<Longrightarrow> db_inv E s'"
  by (auto simp: upsert_grant_def bindE_Inr_iff insert_row_Inr split: if_splits
      intro!: db_inv_grants_update db_inv_grants_insert)

lemma request_write_Inr:
  assumes "request_write E s actor owner state until untilUnix g0 now = Inr (g, s')"
  obtains row s1 p s2 where "g_id row = gr_ID g0" "g_node_id row = gr_NodeID g0" "g_tailnet_id row = gr_TailnetID g0"
    "g_state row = state" "g_revision row = gr_Revision g0 + 1"
    "upsert_grant row s = Inr s1" "buildPolicy E s1 (gr_NodeID g0) now = Inr (p, s2)"
    "s' = notifyPolicy (gr_NodeID g0) (writeAudit (ac_ID actor) owner ''grant'' (gr_ID g0) ''grant.request'' now s2)"
    "g = g0\<lparr>gr_State := state, gr_Revision := gr_Revision g0 + 1, gr_ExplicitUntil := until\<rparr>"
proof -
  let ?row = "\<lparr>g_id = gr_ID g0, g_node_id = gr_NodeID g0, g_tailnet_id = gr_TailnetID g0, g_state = state,
    g_revision = gr_Revision g0 + 1, g_explicit_until = untilUnix,
    g_last_control_success = (if state = Active then unix now else 0)\<rparr>"
  from assms obtain s1 p s2 where "upsert_grant ?row s = Inr s1" "buildPolicy E s1 (gr_NodeID g0) now = Inr (p, s2)"
    "s' = notifyPolicy (gr_NodeID g0) (writeAudit (ac_ID actor) owner ''grant'' (gr_ID g0) ''grant.request'' now s2)"
    "g = g0\<lparr>gr_State := state, gr_Revision := gr_Revision g0 + 1, gr_ExplicitUntil := until\<rparr>"
    by (auto simp: request_write_def bindE_Inr_iff)
  then show thesis by (intro that [of ?row]) simp_all
qed

text \<open>Either the grant is as requested already, or one is written over an ended grant or a new one.\<close>

lemma RequestGrant_cases:
  assumes "RequestGrant E s actor node tailnet expected until0 token now = Inr (g, s')"
  obtains n t base until untilUnix name where "query_row (\<lambda>n. n_id n = node) (nodes s) = Inr n"
    "query_row (\<lambda>t. t_id t = tailnet) (tailnets s) = Inr t"
    "activeActor s actor = Inr ()" "may_act actor (t_owner_id t)" "grantResourcesEnabled s node tailnet = Inr True"
    "request_base s node tailnet expected (request_state n t) until (fresh_grant token n t name) now = Inr base"
    "base = Inl g \<and> s' = s
     \<or> (\<exists>g0. base = Inr g0 \<and> request_write E s actor (t_owner_id t) (request_state n t) until untilUnix g0 now = Inr (g, s'))"
proof -
  from assms obtain n t name base where *: "query_row (\<lambda>n. n_id n = node) (nodes s) = Inr n"
    "query_row (\<lambda>t. t_id t = tailnet) (tailnets s) = Inr t"
    "activeActor s actor = Inr ()" "may_act actor (t_owner_id t)" "grantResourcesEnabled s node tailnet = Inr True"
    "request_base s node tailnet expected (request_state n t)
       (if until0 \<noteq> zero_time then truncate_second until0 else zero_time) (fresh_grant token n t name) now = Inr base"
    "(case base of Inl g \<Rightarrow> Inr (g, s) | Inr g \<Rightarrow> request_write E s actor (t_owner_id t) (request_state n t)
       (if until0 \<noteq> zero_time then truncate_second until0 else zero_time)
       (if until0 \<noteq> zero_time then unix (if until0 \<noteq> zero_time then truncate_second until0 else zero_time) else 0) g now)
     = Inr (g, s')"
    unfolding RequestGrant_def Let_def bindE_Inr_iff failIf_Inr_iff RequireOwner_Inr by auto
  from *(7) show thesis
    by (cases base; intro that [OF *(1-6)]) auto
qed

lemma scanGrant_Inr:
  assumes "scanGrant s P now = Inr g"
  obtains row n t name where "row \<in> set (grants s)" "P row" "find_node s (g_node_id row) = Some n"
    "find_tailnet s (g_tailnet_id row) = Some t" "applicant s t = Inr name" "g = grant_view row n t name now"
proof -
  from assms obtain row n t name where
    q: "query_row (\<lambda>g. P g \<and> find_node s (g_node_id g) \<noteq> None \<and> find_tailnet s (g_tailnet_id g) \<noteq> None) (grants s) = Inr row"
    and n: "the (find_node s (g_node_id row)) = n" and t: "the (find_tailnet s (g_tailnet_id row)) = t"
    and a: "applicant s t = Inr name" "g = grant_view row n t name now"
    by (auto simp: scanGrant_def Let_def bindE_Inr_iff)
  from query_row_InrD [OF q] n t a show thesis by (intro that [of row n t name]) auto
qed

lemma scanGrant_row:
  assumes "unique g_id (grants s)" and "row \<in> set (grants s)" and "find_node s (g_node_id row) = Some n"
    and "find_tailnet s (g_tailnet_id row) = Some t" and "applicant s t = Inr name"
  shows "scanGrant s (\<lambda>g. g_id g = g_id row) now = Inr (grant_view row n t name now)"
proof -
  have "find (\<lambda>g. g_id g = g_id row \<and> find_node s (g_node_id g) \<noteq> None \<and> find_tailnet s (g_tailnet_id g) \<noteq> None)
      (grants s) = Some row"
    using assms by (intro find_Some_unique [of g_id]) auto
  with assms show ?thesis by (simp add: scanGrant_def query_row_def Let_def)
qed

lemma request_base_Inl:
  assumes "request_base s node tailnet expected state until fresh now = Inr (Inl g)"
  shows "gr_NodeID g = node" "gr_TailnetID g = tailnet" "gr_State g = state"
  using assms by (auto simp: request_base_def grant_view_def elim!: scanGrant_Inr split: sum.splits if_splits)

lemma request_base_Inr:
  assumes "request_base s node tailnet expected state until fresh now = Inr (Inr g0)"
    and "gr_NodeID fresh = node" "gr_TailnetID fresh = tailnet" "gr_Revision fresh = 0"
  shows "gr_NodeID g0 = node" "gr_TailnetID g0 = tailnet" "gr_Revision g0 = expected"
    "case scanGrant s (\<lambda>g. g_node_id g = node \<and> g_tailnet_id g = tailnet) now of
       Inl e \<Rightarrow> e = ErrNoRows | Inr g1 \<Rightarrow> ended_state (gr_State g1) \<and> gr_Revision g1 = expected"
  using assms
  by (auto simp: request_base_def grant_view_def elim!: scanGrant_Inr split: sum.splits if_splits)

lemma request_write_inv:
  assumes "request_write E s actor owner state until untilUnix g0 now = Inr (g, s')"
    and "gr_NodeID g0 \<in> node_ids s" "gr_TailnetID g0 \<in> tailnet_ids s" "db_inv E s"
  shows "db_inv E s'"
proof -
  from assms(1) obtain row s1 p s2 where "g_node_id row = gr_NodeID g0" "g_tailnet_id row = gr_TailnetID g0"
    and up: "upsert_grant row s = Inr s1" and b: "buildPolicy E s1 (gr_NodeID g0) now = Inr (p, s2)"
    and s': "s' = notifyPolicy (gr_NodeID g0) (writeAudit (ac_ID actor) owner ''grant'' (gr_ID g0) ''grant.request'' now s2)"
    by (rule request_write_Inr)
  with assms have "db_inv E s1" by (intro upsert_grant_inv [OF up]) simp_all
  from buildPolicy_inv [OF b this] show ?thesis by (simp add: s')
qed

lemma RequestGrant_inv [inv_intros]:
  assumes "RequestGrant E s actor node tailnet expected until0 token now = Inr (g, s')" and inv: "db_inv E s"
  shows "db_inv E s'"
  using assms(1)
proof (rule RequestGrant_cases)
  fix n t base until untilUnix name
  assume n: "query_row (\<lambda>n. n_id n = node) (nodes s) = Inr n" and t: "query_row (\<lambda>t. t_id t = tailnet) (tailnets s) = Inr t"
    and base: "request_base s node tailnet expected (request_state n t) until (fresh_grant token n t name) now = Inr base"
    and alt: "base = Inl g \<and> s' = s
     \<or> (\<exists>g0. base = Inr g0 \<and> request_write E s actor (t_owner_id t) (request_state n t) until untilUnix g0 now = Inr (g, s'))"
  from alt show ?thesis
  proof (elim disjE exE conjE)
    fix g0 assume "base = Inr g0"
      and w: "request_write E s actor (t_owner_id t) (request_state n t) until untilUnix g0 now = Inr (g, s')"
    then have "gr_NodeID g0 = node" "gr_TailnetID g0 = tailnet"
      using request_base_Inr [OF base [unfolded \<open>base = Inr g0\<close>]] query_row_InrD [OF n] query_row_InrD [OF t]
      by (simp_all add: fresh_grant_def)
    with request_write_inv [OF w] query_row_node [OF n] query_row_tailnet [OF t] inv show ?thesis by simp
  qed (use inv in simp)
qed

text \<open>An action either finds the grant in the wanted state already or moves it there.\<close>

lemma ApplyGrantAction_cases:
  assumes "ApplyGrantAction E s actor rid expected action now = Inr (g, s')"
  obtains owner nxt allowed where "scanGrant s (\<lambda>g. g_id g = rid) now = Inr g"
    "action_rule action g = Some (owner, nxt, allowed)" "may_act actor owner" "activeActor s actor = Inr ()"
    "gr_State g = nxt" "gr_Revision g = expected \<or> gr_Revision g = expected + 1" "s' = s"
  | g0 owner nxt p s2 where "scanGrant s (\<lambda>g. g_id g = rid) now = Inr g0"
    "action_rule action g0 = Some (owner, nxt, True)" "may_act actor owner" "activeActor s actor = Inr ()"
    "gr_Revision g0 = expected" "gr_State g0 \<noteq> nxt \<or> \<not> (gr_Revision g0 = expected \<or> gr_Revision g0 = expected + 1)"
    "buildPolicy E (set_grant_state rid nxt (expected + 1) (if nxt = Active then unix now else 0) s) (gr_NodeID g0) now
       = Inr (p, s2)"
    "g = g0\<lparr>gr_State := nxt, gr_Revision := expected + 1\<rparr>"
    "s' = notifyPolicy (gr_NodeID g0) (writeAudit (ac_ID actor) owner ''grant'' rid (''grant.'' @ action_name action) now s2)"
    "action = GrantApprove \<or> action = GrantConfirm \<Longrightarrow> grantResourcesEnabled s (gr_NodeID g0) (gr_TailnetID g0) = Inr True"
proof -
  from assms obtain g0 owner nxt allowed where
    *: "scanGrant s (\<lambda>g. g_id g = rid) now = Inr g0" "action_rule action g0 = Some (owner, nxt, allowed)"
      "may_act actor owner" "activeActor s actor = Inr ()"
    unfolding ApplyGrantAction_def by (auto simp: bindE_Inr_iff RequireOwner_Inr split: option.splits)
  note eq = assms [unfolded ApplyGrantAction_def *(1) *(4) bindE_simps *(2) option.case prod.case]
  show thesis
  proof (cases "gr_State g0 = nxt \<and> (gr_Revision g0 = expected \<or> gr_Revision g0 = expected + 1)")
    case True
    with eq have "g = g0" "s' = s" by (auto simp: bindE_Inr_iff)
    with True * that(1) show thesis by blast
  next
    case False
    note eq' = eq [unfolded if_not_P [OF False] bindE_Inr_iff]
    then obtain p s2 where ok: "gr_Revision g0 = expected" "allowed"
      and b: "buildPolicy E (set_grant_state rid nxt (gr_Revision g0 + 1) (if nxt = Active then unix now else 0) s)
        (gr_NodeID g0) now = Inr (p, s2)"
      and r: "g = g0\<lparr>gr_State := nxt, gr_Revision := gr_Revision g0 + 1\<rparr>"
        "s' = notifyPolicy (gr_NodeID g0)
           (writeAudit (ac_ID actor) owner ''grant'' rid (''grant.'' @ action_name action) now s2)"
      by (auto simp: failIf_Inr_iff)
    have en: "grantResourcesEnabled s (gr_NodeID g0) (gr_TailnetID g0) = Inr True"
      if "action = GrantApprove \<or> action = GrantConfirm"
      using eq' that by (auto simp: bindE_Inr_iff failIf_Inr_iff)
    show thesis
      using that(2) [OF *(1) *(2) [simplified ok(2)] *(3,4) ok(1) False [unfolded de_Morgan_conj] b [unfolded ok(1)]
          r(1) [unfolded ok(1)] r(2)] en by blast
  qed
qed

lemma set_grant_state_inv: "db_inv E s \<Longrightarrow> db_inv E (set_grant_state rid st revision contact s)"
  unfolding set_grant_state_def by (rule db_inv_grants_update) simp_all

lemma ApplyGrantAction_inv [inv_intros]:
  assumes "ApplyGrantAction E s actor rid expected action now = Inr (g, s')" and inv: "db_inv E s"
  shows "db_inv E s'"
  using assms(1)
proof (rule ApplyGrantAction_cases)
  fix g0 owner nxt p s2
  assume "buildPolicy E (set_grant_state rid nxt (expected + 1) (if nxt = Active then unix now else 0) s) (gr_NodeID g0) now
      = Inr (p, s2)"
    and "s' = notifyPolicy (gr_NodeID g0)
      (writeAudit (ac_ID actor) owner ''grant'' rid (''grant.'' @ action_name action) now s2)"
  with buildPolicy_inv set_grant_state_inv [OF inv] show ?thesis by simp
qed (use inv in simp)

section \<open>The consent of both owners\<close>

text \<open>
  The contract of a grant: which party moves it from which state to which. A tailnet's owner
  asks, the node's owner approves, the tailnet's owner confirms; each may step back.
\<close>

datatype party = NodeOwner | TailnetOwner

inductive grant_flow :: "party \<Rightarrow> grant_state \<Rightarrow> grant_state \<Rightarrow> bool" where
  ask: "ended_state st \<Longrightarrow> grant_flow TailnetOwner st Requested"
| approve: "grant_flow NodeOwner Requested OwnerApproved"
| confirm: "grant_flow TailnetOwner OwnerApproved Active"
| withdraw: "st = Requested \<or> st = OwnerApproved \<Longrightarrow> grant_flow TailnetOwner st Cancelled"
| decline: "grant_flow NodeOwner Requested Rejected"
| stop: "st = OwnerApproved \<or> st = Active \<Longrightarrow> grant_flow p st Revoked"

fun party_owner :: "party \<Rightarrow> grant \<Rightarrow> string" where
  "party_owner NodeOwner g = gr_NodeOwnerID g"
| "party_owner TailnetOwner g = gr_TailnetOwnerID g"

lemma action_rule_flow:
  assumes "action_rule action g = Some (owner, nxt, True)"
  shows "\<exists>p. grant_flow p (gr_State g) nxt \<and> owner = party_owner p g"
  using assms
  by (cases action) (auto intro: grant_flow.intros exI [of _ NodeOwner] exI [of _ TailnetOwner])

lemma scanGrant_cong:
  assumes "users s' = users s" "nodes s' = nodes s" "tailnets s' = tailnets s" "grants s' = grants s"
  shows "scanGrant s' P now = scanGrant s P now"
  using assms by (simp add: scanGrant_def applicant_def find_node_def find_tailnet_def)

lemma activeActor_cong: "users s' = users s \<Longrightarrow> activeActor s' actor = activeActor s actor"
  by (simp add: activeActor_def)

lemma allowed_pending: "action_rule action g = Some (owner, nxt, True) \<Longrightarrow> pending_state (gr_State g)"
  by (cases action) (auto simp: pending_state_def)

lemma action_rule_state:
  "action_rule action (g\<lparr>gr_State := st, gr_Revision := r\<rparr>) =
     map_option (\<lambda>(owner, nxt, _). (owner, nxt, snd (snd (the (action_rule action (g\<lparr>gr_State := st\<rparr>))))))
       (action_rule action g)"
  by (cases action) simp_all

lemma unique_grants: "db_inv E s \<Longrightarrow> unique g_id (grants s)"
  by (simp add: db_inv_def grants_inv_def)

text \<open>The grant an action returns is the one stored.\<close>

lemma set_grant_state_scan:
  assumes "scanGrant s (\<lambda>g. g_id g = rid) now = Inr g0" and "pending_state (gr_State g0)" and "db_inv E s"
  shows "scanGrant (set_grant_state rid nxt revision contact s) (\<lambda>g. g_id g = rid) now
    = Inr (g0\<lparr>gr_State := nxt, gr_Revision := revision\<rparr>)"
  using assms(1)
proof (rule scanGrant_Inr)
  fix row n t name
  assume row: "row \<in> set (grants s)" "g_id row = rid" "find_node s (g_node_id row) = Some n"
    "find_tailnet s (g_tailnet_id row) = Some t" "applicant s t = Inr name"
    and g0: "g0 = grant_view row n t name now"
  define row' where "row' = row\<lparr>g_state := nxt, g_revision := revision, g_last_control_success := contact\<rparr>"
  let ?s = "set_grant_state rid nxt revision contact s"
  have "row' \<in> set (grants ?s)"
    using row(1,2) by (auto simp: set_grant_state_def update_where_def row'_def)
  moreover have "unique g_id (grants ?s)" by (rule unique_grants [OF set_grant_state_inv]) fact
  ultimately have "scanGrant ?s (\<lambda>g. g_id g = g_id row') now = Inr (grant_view row' n t name now)"
    using row by (intro scanGrant_row)
      (simp_all add: row'_def set_grant_state_def find_node_def find_tailnet_def applicant_def)
  moreover have "grant_view row' n t name now = g0\<lparr>gr_State := nxt, gr_Revision := revision\<rparr>"
    using assms(2) by (auto simp: g0 grant_view_def row'_def effective_state_def grant_until_def pending_state_def split: if_splits)
  ultimately show ?thesis using row(2) by (simp add: row'_def)
qed

lemma ApplyGrantAction_stored:
  assumes "ApplyGrantAction E s actor rid expected action now = Inr (g, s')" and inv: "db_inv E s"
  shows "scanGrant s' (\<lambda>g. g_id g = rid) now = Inr g"
  using assms(1)
proof (rule ApplyGrantAction_cases)
  fix g0 owner nxt p s2
  let ?s1 = "set_grant_state rid nxt (expected + 1) (if nxt = Active then unix now else 0) s"
  assume g0: "scanGrant s (\<lambda>g. g_id g = rid) now = Inr g0" "action_rule action g0 = Some (owner, nxt, True)"
    and b: "buildPolicy E ?s1 (gr_NodeID g0) now = Inr (p, s2)"
    and g: "g = g0\<lparr>gr_State := nxt, gr_Revision := expected + 1\<rparr>"
    and s': "s' = notifyPolicy (gr_NodeID g0)
      (writeAudit (ac_ID actor) owner ''grant'' rid (''grant.'' @ action_name action) now s2)"
  have "scanGrant s' (\<lambda>g. g_id g = rid) now = scanGrant ?s1 (\<lambda>g. g_id g = rid) now"
    using same_tables [OF buildPolicy_same [OF b]]
    by (intro scanGrant_cong) (simp_all add: s' notifyPolicy_def writeAudit_def)
  then show ?thesis using set_grant_state_scan [OF g0(1) allowed_pending [OF g0(2)] inv] g by simp
qed simp

section \<open>Sequences of actions\<close>

text \<open>Successful actions one after the other, with what was done, latest first.\<close>

inductive grant_trace :: "env \<Rightarrow> store \<Rightarrow> (string \<times> actor \<times> grant_action) list \<Rightarrow> store \<Rightarrow> bool" for E s where
  start: "grant_trace E s [] s"
| act: "grant_trace E s log s1 \<Longrightarrow> ApplyGrantAction E s1 actor rid expected action now = Inr (g, s2)
    \<Longrightarrow> grant_trace E s ((rid, actor, action) # log) s2"

lemma ApplyGrantAction_tables:
  assumes "ApplyGrantAction E s actor rid expected action now = Inr (g, s')"
  shows "users s' = users s" "nodes s' = nodes s" "tailnets s' = tailnets s"
  using assms
  by (auto elim!: ApplyGrantAction_cases dest!: buildPolicy_same dest: same_tables
      simp: notifyPolicy_def writeAudit_def set_grant_state_def)

text \<open>Where a row comes from: the action left its state, or its rule moved it.\<close>

lemma ApplyGrantAction_row:
  assumes "ApplyGrantAction E s actor rid expected action now = Inr (g, s')" and inv: "db_inv E s"
    and row': "row' \<in> set (grants s')"
  obtains row where "row \<in> set (grants s)" "g_id row = g_id row'" "g_node_id row = g_node_id row'"
    "g_tailnet_id row = g_tailnet_id row'"
    "g_state row' = g_state row
     \<or> g_id row = rid \<and> (\<exists>n t name owner. find_node s (g_node_id row) = Some n \<and> find_tailnet s (g_tailnet_id row) = Some t
         \<and> action_rule action (grant_view row n t name now) = Some (owner, g_state row', True) \<and> may_act actor owner)"
  using assms(1)
proof (rule ApplyGrantAction_cases)
  assume "s' = s"
  with that [of row'] row' show thesis by simp
next
  fix g0 owner nxt p s2
  let ?s1 = "set_grant_state rid nxt (expected + 1) (if nxt = Active then unix now else 0) s"
  assume g0: "scanGrant s (\<lambda>g. g_id g = rid) now = Inr g0" "action_rule action g0 = Some (owner, nxt, True)" "may_act actor owner"
    and b: "buildPolicy E ?s1 (gr_NodeID g0) now = Inr (p, s2)"
    and s': "s' = notifyPolicy (gr_NodeID g0)
      (writeAudit (ac_ID actor) owner ''grant'' rid (''grant.'' @ action_name action) now s2)"
  have "grants s' = grants ?s1"
    using same_tables [OF buildPolicy_same [OF b]] by (simp add: s' notifyPolicy_def writeAudit_def)
  with row' obtain row where row: "row \<in> set (grants s)"
    "row' = (if g_id row = rid then row\<lparr>g_state := nxt, g_revision := expected + 1,
       g_last_control_success := if nxt = Active then unix now else 0\<rparr> else row)"
    by (auto simp: set_grant_state_def update_where_def)
  from g0(1) obtain row0 n t name where r0: "row0 \<in> set (grants s)" "g_id row0 = rid"
    "find_node s (g_node_id row0) = Some n" "find_tailnet s (g_tailnet_id row0) = Some t" "g0 = grant_view row0 n t name now"
    by (rule scanGrant_Inr)
  have "row = row0" if "g_id row = rid"
    using unique_grants [OF inv] row(1) r0(1,2) that by (auto simp: unique_def distinct_map dest: inj_onD)
  with row r0 g0 show thesis by (intro that [of row]) auto
qed

text \<open>What the log of the actions shows for a grant in a given state.\<close>

definition consented ::
    "(string \<times> actor \<times> grant_action) list \<Rightarrow> string \<Rightarrow> node_row \<Rightarrow> tailnet_row \<Rightarrow> grant_state \<Rightarrow> bool" where
  "consented log rid n t st \<longleftrightarrow>
     (st = OwnerApproved \<or> st = Active \<longrightarrow> (\<exists>a. (rid, a, GrantApprove) \<in> set log \<and> may_act a (n_owner_id n)))
     \<and> (st = Active \<longrightarrow> (\<exists>b. (rid, b, GrantConfirm) \<in> set log \<and> may_act b (t_owner_id t)))"

lemma consented_mono: "consented log rid n t st \<Longrightarrow> consented (x # log) rid n t st"
  by (auto simp: consented_def)

lemma consented_step:
  assumes "action_rule action (grant_view row n t name now) = Some (owner, st, True)" and "may_act actor owner"
    and "consented log rid n t (g_state row)"
  shows "consented ((rid, actor, action) # log) rid n t st"
proof -
  have "g_state row = effective_state row now" if "effective_state row now \<noteq> Expired"
    using that by (auto simp: effective_state_def split: if_splits)
  with assms show ?thesis by (cases action) (auto simp: grant_view_def consented_def)
qed

lemma grant_trace_consent:
  assumes "grant_trace E s log s'" and inv: "db_inv E s" and row: "row \<in> set (grants s)"
    and st: "g_state row \<noteq> OwnerApproved" "g_state row \<noteq> Active"
    and n: "find_node s (g_node_id row) = Some n" and t: "find_tailnet s (g_tailnet_id row) = Some t"
  shows "db_inv E s' \<and> nodes s' = nodes s \<and> tailnets s' = tailnets s
    \<and> (\<forall>row'\<in>set (grants s'). g_id row' = g_id row \<longrightarrow>
        g_node_id row' = g_node_id row \<and> g_tailnet_id row' = g_tailnet_id row \<and> consented log (g_id row) n t (g_state row'))"
  using assms(1)
proof induction
  case start
  have "row' = row" if "row' \<in> set (grants s)" "g_id row' = g_id row" for row'
    using unique_grants [OF inv] row that by (auto simp: unique_def distinct_map dest: inj_onD)
  with inv st show ?case by (auto simp: consented_def)
next
  case (act log s1 actor rid expected action now g s2)
  then have inv1: "db_inv E s1" and tabs: "nodes s1 = nodes s" "tailnets s1 = tailnets s" by blast+
  have "g_node_id row' = g_node_id row \<and> g_tailnet_id row' = g_tailnet_id row
      \<and> consented ((rid, actor, action) # log) (g_id row) n t (g_state row')"
    if r': "row' \<in> set (grants s2)" "g_id row' = g_id row" for row'
    using act.hyps(2) inv1 r'(1)
  proof (rule ApplyGrantAction_row)
    fix row1
    assume r1: "row1 \<in> set (grants s1)" "g_id row1 = g_id row'" "g_node_id row1 = g_node_id row'"
      "g_tailnet_id row1 = g_tailnet_id row'"
      and step: "g_state row' = g_state row1
     \<or> g_id row1 = rid \<and> (\<exists>n t name owner. find_node s1 (g_node_id row1) = Some n \<and> find_tailnet s1 (g_tailnet_id row1) = Some t
         \<and> action_rule action (grant_view row1 n t name now) = Some (owner, g_state row', True) \<and> may_act actor owner)"
    from act.IH r1(1,2) r'(2) have ih: "g_node_id row1 = g_node_id row" "g_tailnet_id row1 = g_tailnet_id row"
      "consented log (g_id row) n t (g_state row1)" by auto
    have "find_node s1 (g_node_id row1) = Some n" "find_tailnet s1 (g_tailnet_id row1) = Some t"
      using n t tabs ih(1,2) by (simp_all add: find_node_def find_tailnet_def)
    with step ih(3) r1(2) r'(2) have "consented ((rid, actor, action) # log) (g_id row) n t (g_state row')"
      using consented_step consented_mono by fastforce
    with ih r1 show ?thesis by simp
  qed
  then show ?case
    using ApplyGrantAction_inv [OF act.hyps(2) inv1] ApplyGrantAction_tables [OF act.hyps(2)] tabs by simp
qed

section \<open>Properties\<close>

text \<open>C7: Every change of a grant follows the contract of the two owners. When an action succeeds, the
  grant it returns is the one the store then holds, and either nothing changed or the grant
  moved one step of the contract, on behalf of a party for whom the actor may act, to the
  next revision. An expired grant is moved by no action.\<close>

theorem grant_action_by_owner:
  assumes "ApplyGrantAction E s actor rid expected action now = Inr (g, s')" and "db_inv E s"
  shows "\<exists>g0. scanGrant s (\<lambda>r. g_id r = rid) now = Inr g0 \<and> scanGrant s' (\<lambda>r. g_id r = rid) now = Inr g
    \<and> activeActor s actor = Inr ()
    \<and> (g = g0 \<and> s' = s
       \<or> (\<exists>p. grant_flow p (gr_State g0) (gr_State g) \<and> may_act actor (party_owner p g0))
         \<and> gr_State g0 \<noteq> Expired \<and> gr_Revision g = gr_Revision g0 + 1)"
  using assms(1)
proof (rule ApplyGrantAction_cases)
  fix g0 owner nxt p s2
  assume g0: "scanGrant s (\<lambda>g. g_id g = rid) now = Inr g0" "action_rule action g0 = Some (owner, nxt, True)"
    "may_act actor owner" "activeActor s actor = Inr ()" "gr_Revision g0 = expected"
    and g: "g = g0\<lparr>gr_State := nxt, gr_Revision := expected + 1\<rparr>"
  with action_rule_flow [OF g0(2)] allowed_pending [OF g0(2)] ApplyGrantAction_stored [OF assms] show ?thesis
    by (auto simp: pending_state_def)
qed (use ApplyGrantAction_stored [OF assms] in auto)

text \<open>C6: No grant becomes active without both owners. Along any sequence of successful actions, by
  anyone, on any grants and at any times, a grant that was neither approved nor active at
  the start is active at the end only when somebody who may act for the node's owner
  approved it and somebody who may act for the tailnet's owner confirmed it.\<close>

theorem grant_active_consent:
  assumes "grant_trace E s log s'" and "db_inv E s" and "row \<in> set (grants s)"
    and "g_state row \<noteq> OwnerApproved" and "g_state row \<noteq> Active"
    and "find_node s (g_node_id row) = Some n" and "find_tailnet s (g_tailnet_id row) = Some t"
    and "row' \<in> set (grants s')" and "g_id row' = g_id row" and "g_state row' = Active"
  shows "\<exists>a b. (g_id row, a, GrantApprove) \<in> set log \<and> may_act a (n_owner_id n)
    \<and> (g_id row, b, GrantConfirm) \<in> set log \<and> may_act b (t_owner_id t)"
  using grant_trace_consent [OF assms(1-7)] assms(8-10) by (auto simp: consented_def)

text \<open>Retrying an action is harmless: repeating a call that succeeded, with the same expected
  revision, returns the same grant and changes nothing.\<close>

theorem grant_action_retry:
  assumes "ApplyGrantAction E s actor rid expected action now = Inr (g, s')" and "db_inv E s"
  shows "ApplyGrantAction E s' actor rid expected action now = Inr (g, s')"
  using assms(1)
proof (rule ApplyGrantAction_cases)
  fix g0 owner nxt p s2
  let ?s1 = "set_grant_state rid nxt (expected + 1) (if nxt = Active then unix now else 0) s"
  assume r: "action_rule action g0 = Some (owner, nxt, True)" "may_act actor owner" "activeActor s actor = Inr ()"
    and b: "buildPolicy E ?s1 (gr_NodeID g0) now = Inr (p, s2)"
    and g: "g = g0\<lparr>gr_State := nxt, gr_Revision := expected + 1\<rparr>"
    and s': "s' = notifyPolicy (gr_NodeID g0)
      (writeAudit (ac_ID actor) owner ''grant'' rid (''grant.'' @ action_name action) now s2)"
  have e: "failIf (expected = 0 \<or> MaxInt64 \<le> expected) ErrInvalid = Inr ()"
    using assms(1) by (auto simp: ApplyGrantAction_def bindE_Inr_iff)
  have a: "activeActor s' actor = Inr ()"
    using r(3) same_tables(1) [OF buildPolicy_same [OF b]]
    by (subst activeActor_cong [of _ s]) (simp_all add: s' notifyPolicy_def writeAudit_def set_grant_state_def)
  obtain allowed where "action_rule action g = Some (owner, nxt, allowed)"
    using r(1) by (simp add: g action_rule_state)
  with r(2) show ?thesis
    unfolding ApplyGrantAction_def e a ApplyGrantAction_stored [OF assms] bindE_simps
    by (simp add: bindE_Inr_iff RequireOwner_Inr g)
qed (use assms in simp)


subsection \<open>Instances\<close>

lemma ApplyGrantAction_step:
  assumes "scanGrant s (\<lambda>g. g_id g = rid) now = Inr g0" and "action_rule action g0 = Some (owner, nxt, True)"
    and "may_act actor owner" and "activeActor s actor = Inr ()" and "gr_Revision g0 = expected" and "gr_State g0 \<noteq> nxt"
    and "0 < expected" and "expected < MaxInt64"
    and "grantResourcesEnabled s (gr_NodeID g0) (gr_TailnetID g0) = Inr True"
    and "buildPolicy E (set_grant_state rid nxt (expected + 1) (if nxt = Active then unix now else 0) s) (gr_NodeID g0) now
      = Inr (p, s2)"
  shows "ApplyGrantAction E s actor rid expected action now = Inr (g0\<lparr>gr_State := nxt, gr_Revision := expected + 1\<rparr>,
    notifyPolicy (gr_NodeID g0) (writeAudit (ac_ID actor) owner ''grant'' rid (''grant.'' @ action_name action) now s2))"
proof -
  have "RequireOwner actor owner = Inr ()" using assms(3) by (simp add: RequireOwner_Inr)
  then show ?thesis using assms unfolding ApplyGrantAction_def by simp
qed

definition sample_view :: "grant_row \<Rightarrow> grant" where
  "sample_view g = grant_view g sample_node (hd (tailnets sample_store)) ''ann'' (unix_time 300)"

lemma sample_scan:
  assumes "users s = users sample_store" "nodes s = nodes sample_store" "tailnets s = tailnets sample_store"
    and "grants s = [g]" "g_id g = ''g1''" "g_node_id g = ''n''" "g_tailnet_id g = ''t1''"
  shows "scanGrant s (\<lambda>g. g_id g = ''g1'') (unix_time 300) = Inr (sample_view g)"
    and "grantResourcesEnabled s ''n'' ''t1'' = Inr True"
  using scanGrant_row [of s g sample_node "hd (tailnets sample_store)" "''ann''" "unix_time 300"] assms
  by (simp_all add: sample_view_def unique_def find_node_def find_tailnet_def applicant_def sample_store_defs
      grantResourcesEnabled_def node_and_owner_def query_row_def serving_state_def)

lemma sample_grant_empty:
  assumes "users s = users sample_store" "nodes s = nodes sample_store" "identity_snapshots s = identity_snapshots sample_store"
    and "settings s = settings sample_store" "node_policies s = node_policies sample_store" "clusterID s = ''c''"
    and "grants s = [g]" and "g_state g \<noteq> Active"
  shows "buildPolicy sample_env s ''n'' (unix_time 300) = Inr (sample_empty, store_policy sample_empty ''n'' s)"
proof (rule sample_build_empty)
  show "node_and_owner s ''n'' = Inr (sample_node, sample_user)"
    using assms(1,2) by (simp add: node_and_owner_def query_row_def sample_store_defs)
  show "readRetentions s = Inr sample_day"
    using sample_retentions assms(4) by (simp add: readRetentions_def setting_def sample_day_def)
  show "policy_rows s ''n'' = [] \<or> \<not> (n_enabled sample_node \<and> u_enabled sample_user \<and> serving_state (n_state sample_node))"
    using assms(7,8) by (simp add: policy_rows_def map_filter_simps)
  show "identitySnapshots s = Inr (projr (identitySnapshots sample_store))"
    using sample_snapshots assms(3) by (simp add: identitySnapshots_def)
qed (use assms(5,6) in \<open>simp_all add: sample_store_def\<close>)

lemma sample_revoke:
  "\<exists>g s'. ApplyGrantAction sample_env sample_store local_admin ''g1'' 3 GrantRevoke (unix_time 300) = Inr (g, s')
     \<and> gr_State g = Revoked"
proof -
  have g: "sample_grant_row = \<lparr>g_id = ''g1'', g_node_id = ''n'', g_tailnet_id = ''t1'', g_state = Active, g_revision = 3,
     g_explicit_until = 0, g_last_control_success = 200\<rparr>" by (simp add: sample_grant_row_def)
  show ?thesis
    by (rule exI, rule exI, rule conjI, rule ApplyGrantAction_step [where ?g0.0 = "sample_view sample_grant_row"])
      (simp_all add: sample_scan sample_grant_empty [of _ "sample_grant_row\<lparr>g_state := Revoked, g_revision := 4, g_last_control_success := 0\<rparr>"]
        g sample_view_def grant_view_def effective_state_def sample_store_def
        local_admin_def may_act_def activeActor_def MaxInt64_def set_grant_state_def update_where_def)
qed

theorem grant_action_by_owner_witness:
  "\<exists>g s'. ApplyGrantAction sample_env sample_store local_admin ''g1'' 3 GrantRevoke (unix_time 300) = Inr (g, s')
     \<and> scanGrant s' (\<lambda>r. g_id r = ''g1'') (unix_time 300) = Inr g \<and> gr_State g = Revoked"
proof -
  from sample_revoke obtain g s' where
    r: "ApplyGrantAction sample_env sample_store local_admin ''g1'' 3 GrantRevoke (unix_time 300) = Inr (g, s')"
      "gr_State g = Revoked" by blast
  with grant_action_by_owner [OF r(1) sample_store_inv] show ?thesis by blast
qed

text \<open>A grant that is asked for, approved and confirmed.\<close>

definition sample_asked :: store where
  "sample_asked = sample_store\<lparr>grants := [sample_grant_row\<lparr>g_state := Requested, g_revision := 1, g_last_control_success := 0\<rparr>]\<rparr>"

definition sample_approved :: store where
  "sample_approved = notifyPolicy ''n'' (writeAudit ''local'' ''u'' ''grant'' ''g1'' ''grant.approve'' (unix_time 300)
     (store_policy sample_empty ''n'' (set_grant_state ''g1'' OwnerApproved 2 0 sample_asked)))"

lemma sample_asked_inv: "db_inv sample_env sample_asked"
  unfolding sample_asked_def by (simp del: set_filter add: db_inv_eval)

lemma sample_approve:
  "\<exists>g. ApplyGrantAction sample_env sample_asked local_admin ''g1'' 1 GrantApprove (unix_time 300) = Inr (g, sample_approved)"
proof -
  let ?g = "hd (grants sample_asked)" and ?s1 = "set_grant_state ''g1'' OwnerApproved (1 + 1) 0 sample_asked"
  have g: "?g = \<lparr>g_id = ''g1'', g_node_id = ''n'', g_tailnet_id = ''t1'', g_state = Requested, g_revision = 1,
     g_explicit_until = 0, g_last_control_success = 0\<rparr>" by (simp add: sample_asked_def sample_grant_row_def)
  have v: "gr_NodeID (sample_view ?g) = ''n''" "gr_TailnetID (sample_view ?g) = ''t1''" "gr_State (sample_view ?g) = Requested"
    "gr_Revision (sample_view ?g) = 1" "gr_NodeOwnerID (sample_view ?g) = ''u''"
    by (simp_all add: g sample_view_def grant_view_def effective_state_def sample_node_def)
  have sc: "scanGrant sample_asked (\<lambda>g. g_id g = ''g1'') (unix_time 300) = Inr (sample_view ?g)"
    "grantResourcesEnabled sample_asked ''n'' ''t1'' = Inr True"
    by (rule sample_scan(1) sample_scan(2) [where g = ?g]; simp add: sample_asked_def sample_grant_row_def)+
  have b: "buildPolicy sample_env ?s1 ''n'' (unix_time 300) = Inr (sample_empty, store_policy sample_empty ''n'' ?s1)"
    by (rule sample_grant_empty [of _ "?g\<lparr>g_state := OwnerApproved, g_revision := 2\<rparr>"])
      (simp_all add: set_grant_state_def sample_asked_def sample_store_def update_where_def sample_grant_row_def)
  have "ApplyGrantAction sample_env sample_asked local_admin ''g1'' 1 GrantApprove (unix_time 300)
    = Inr ((sample_view ?g)\<lparr>gr_State := OwnerApproved, gr_Revision := 1 + 1\<rparr>,
        notifyPolicy (gr_NodeID (sample_view ?g)) (writeAudit (ac_ID local_admin) ''u'' ''grant'' ''g1''
          (''grant.'' @ action_name GrantApprove) (unix_time 300) (store_policy sample_empty ''n'' ?s1)))"
    by (rule ApplyGrantAction_step [OF sc(1), where owner = "''u''"])
      (use v sc(2) b in \<open>simp_all add: local_admin_def may_act_def activeActor_def MaxInt64_def\<close>)
  then show ?thesis by (simp add: v sample_approved_def local_admin_def numeral_2_eq_2)
qed

definition sample_confirmed_policy :: policy where
  "sample_confirmed_policy = sample_built\<lparr>p_Revision := 6,
     p_Grants := [sample_built_grant\<lparr>gp_ControlUntil := unix_time 86700\<rparr>]\<rparr>"

lemma sample_confirmed_valid:
  "policy_valid sample_env sample_confirmed_policy ''c'' ''n''" "policy_size sample_confirmed_policy \<le> MaxPolicyBytes"
  by (simp_all add: sample_confirmed_policy_def sample_built_def sample_built_grant_def sample_env_def unix_time_def zero_time_def
      policy_valid_def validID_def qos_valid_def grant_ok_def key_ok_def key_public_def
      policy_keys_def badRule_def validWeight_def validCeiling_def MaxInt64_def TrimSpace_id is_graph_def less_eq_char_def
      policy_size_def grant_policy_size_def device_key_size_def qos_policy_size_def tailnet_qos_size_def json_object_len_def
      json_array_len_def json_string_len_def json_char_len_def json_time_len_def json_nat_len_def show_nat.simps
      MaxPolicyBytes_def less_char_def)

text \<open>A build over the tables of the sample with its grant active since time 300.\<close>

lemma sample_confirm_build:
  assumes "users s = users sample_store" "tailnets s = tailnets sample_store" "nodes s = nodes sample_store"
    and "identity_snapshots s = identity_snapshots sample_store" "tailnet_rules s = []"
    and "settings s = settings sample_store" "clusterID s = ''c''"
    and "grants s = [sample_grant_row\<lparr>g_last_control_success := 300\<rparr>]"
    and "node_policies s = [sample_policy_row\<lparr>pr_desired_revision := 5, pr_generated_at := 300, pr_policy := Some (Some sample_empty)\<rparr>]"
  shows "buildPolicy sample_env s ''n'' (unix_time 300) =
    Inr (sample_confirmed_policy, store_policy sample_confirmed_policy ''n'' s)"
proof -
  have d: "duration_seconds 86400 = 86400 * second"
    by (rule duration_seconds_valid) (simp_all add: maxSeconds_def MaxInt64_def second_def)
  have q: "node_and_owner s ''n'' = Inr (sample_node, sample_user)"
    "query_row (\<lambda>r. pr_node_id r = ''n'') (node_policies s) =
       Inr (sample_policy_row\<lparr>pr_desired_revision := 5, pr_generated_at := 300, pr_policy := Some (Some sample_empty)\<rparr>)"
    using assms by (simp_all add: node_and_owner_def query_row_def sample_store_defs)
  have rt: "readRetentions s = Inr \<lparr>rt_IdentitySeconds = 86400, rt_ControlSeconds = 86400\<rparr>"
    using sample_retentions assms(6) by (simp add: readRetentions_def setting_def)
  have sn: "identitySnapshots s = identitySnapshots sample_store" using assms(4) by (simp add: identitySnapshots_def)
  have "policy_rows s ''n'' = [(sample_grant_row\<lparr>g_last_control_success := 300\<rparr>, hd (tailnets sample_store), None)]"
    using assms by (simp add: policy_rows_def policy_row_of_def sample_store_defs map_filter_simps find_tailnet_def
        user_enabled_def find_rule_def)
  then have "policy_content s ''n'' = Inr (sample_confirmed_policy\<lparr>p_Revision := 0, p_GeneratedAt := zero_time\<rparr>)"
    unfolding policy_content_def q rt sn sample_snapshots bindE_simps using assms(7)
    by (simp add: conflictingKeys_def sample_store_defs serving_state_def rule_group_def rule_entry_def grant_entry_def d
        sample_built_grant_def sample_built_def sample_confirmed_policy_def unix_time_def second_def)
  moreover have "publish_policy sample_env s ''n'' (unix_time 300) 5
      (sample_confirmed_policy\<lparr>p_Revision := 0, p_GeneratedAt := zero_time\<rparr>)
    = Inr (sample_confirmed_policy, store_policy sample_confirmed_policy ''n'' s)"
    unfolding publish_policy_Inr assms(7) using sample_confirmed_valid
    by (simp add: sample_confirmed_policy_def sample_built_def)
  moreover have "DecodePolicy sample_env (body_len (Some sample_empty)) (Some sample_empty) (clusterID s) ''n'' = Inr sample_empty"
    using sample_empty_publish [OF assms(7)] by (simp add: DecodePolicy_Inr body_len_def publish_policy_Inr assms(7))
  ultimately show ?thesis
    unfolding buildPolicy_def q bindE_simps
    by (simp add: MaxInt64_def sample_confirmed_policy_def sample_empty_def sample_built_def)
qed

lemma sample_confirm:
  "\<exists>g s'. ApplyGrantAction sample_env sample_approved local_admin ''g1'' 2 GrantConfirm (unix_time 300) = Inr (g, s')
     \<and> grants s' = [sample_grant_row\<lparr>g_last_control_success := 300\<rparr>]"
proof -
  let ?g = "hd (grants sample_approved)" and ?s1 = "set_grant_state ''g1'' Active (2 + 1) 300 sample_approved"
  note defs = sample_approved_def sample_asked_def notifyPolicy_def writeAudit_def store_policy_def update_policy_row_def
    set_grant_state_def update_where_def
  have g: "?g = \<lparr>g_id = ''g1'', g_node_id = ''n'', g_tailnet_id = ''t1'', g_state = OwnerApproved, g_revision = 2,
     g_explicit_until = 0, g_last_control_success = 0\<rparr>" by (simp add: defs sample_grant_row_def)
  have v: "gr_NodeID (sample_view ?g) = ''n''" "gr_TailnetID (sample_view ?g) = ''t1''" "gr_State (sample_view ?g) = OwnerApproved"
    "gr_Revision (sample_view ?g) = 2" "gr_TailnetOwnerID (sample_view ?g) = ''u''"
    by (simp_all add: g sample_view_def grant_view_def effective_state_def sample_store_def)
  have sc: "scanGrant sample_approved (\<lambda>g. g_id g = ''g1'') (unix_time 300) = Inr (sample_view ?g)"
    "grantResourcesEnabled sample_approved ''n'' ''t1'' = Inr True"
    by (rule sample_scan(1) sample_scan(2) [where g = ?g]; simp add: defs sample_grant_row_def)+
  have b: "buildPolicy sample_env ?s1 ''n'' (unix_time 300) =
      Inr (sample_confirmed_policy, store_policy sample_confirmed_policy ''n'' ?s1)"
    by (rule sample_confirm_build)
      (simp_all add: defs sample_store_def sample_policy_row_def sample_grant_row_def sample_empty_def sample_built_def
        unix_def unix_time_def second_def)
  have "unix (unix_time 300) = 300" by (simp add: unix_def unix_time_def second_def)
  then have "ApplyGrantAction sample_env sample_approved local_admin ''g1'' 2 GrantConfirm (unix_time 300)
    = Inr ((sample_view ?g)\<lparr>gr_State := Active, gr_Revision := 2 + 1\<rparr>,
        notifyPolicy (gr_NodeID (sample_view ?g)) (writeAudit (ac_ID local_admin) ''u'' ''grant'' ''g1''
          (''grant.'' @ action_name GrantConfirm) (unix_time 300) (store_policy sample_confirmed_policy ''n'' ?s1)))"
    by (intro ApplyGrantAction_step [OF sc(1), where owner = "''u''"])
      (use v sc(2) b in \<open>simp_all add: local_admin_def may_act_def activeActor_def MaxInt64_def\<close>)
  moreover have "grants (store_policy sample_confirmed_policy ''n'' ?s1) = [sample_grant_row\<lparr>g_last_control_success := 300\<rparr>]"
    by (simp add: defs sample_grant_row_def)
  ultimately show ?thesis by (simp add: notifyPolicy_def writeAudit_def)
qed

theorem grant_active_consent_witness:
  "\<exists>s' log. grant_trace sample_env sample_asked log s' \<and> (\<exists>row\<in>set (grants s'). g_state row = Active)
     \<and> (\<exists>a. (''g1'', a, GrantApprove) \<in> set log \<and> may_act a ''u'')"
proof -
  from sample_approve obtain g where
    a: "ApplyGrantAction sample_env sample_asked local_admin ''g1'' 1 GrantApprove (unix_time 300) = Inr (g, sample_approved)"
    by blast
  from sample_confirm obtain g' s' where
    c: "ApplyGrantAction sample_env sample_approved local_admin ''g1'' 2 GrantConfirm (unix_time 300) = Inr (g', s')"
    and gs: "grants s' = [sample_grant_row\<lparr>g_last_control_success := 300\<rparr>]" by blast
  have tr: "grant_trace sample_env sample_asked [(''g1'', local_admin, GrantConfirm), (''g1'', local_admin, GrantApprove)] s'"
    by (rule grant_trace.act [OF grant_trace.act [OF grant_trace.start a] c])
  have r: "hd (grants sample_asked) \<in> set (grants sample_asked)" "g_state (hd (grants sample_asked)) = Requested"
    "g_id (hd (grants sample_asked)) = ''g1''"
    "find_node sample_asked (g_node_id (hd (grants sample_asked))) = Some sample_node"
    "find_tailnet sample_asked (g_tailnet_id (hd (grants sample_asked))) = Some (hd (tailnets sample_store))"
    by (simp_all add: sample_asked_def sample_store_defs find_node_def find_tailnet_def)
  have "\<exists>a b. (''g1'', a, GrantApprove) \<in> set [(''g1'', local_admin, GrantConfirm), (''g1'', local_admin, GrantApprove)]
      \<and> may_act a ''u'' \<and> (''g1'', b, GrantConfirm) \<in> set [(''g1'', local_admin, GrantConfirm), (''g1'', local_admin, GrantApprove)]
      \<and> may_act b ''u''"
    using grant_active_consent [OF tr sample_asked_inv r(1) _ _ r(4,5), of "sample_grant_row\<lparr>g_last_control_success := 300\<rparr>"]
    by (simp add: r gs sample_grant_row_def sample_node_def sample_store_def)
  with tr gs show ?thesis by (intro exI conjI) (auto simp: sample_grant_row_def)
qed

theorem grant_action_retry_witness:
  "\<exists>g s'. ApplyGrantAction sample_env sample_store local_admin ''g1'' 3 GrantRevoke (unix_time 300) = Inr (g, s')
     \<and> ApplyGrantAction sample_env s' local_admin ''g1'' 3 GrantRevoke (unix_time 300) = Inr (g, s')"
proof -
  from sample_revoke obtain g s' where
    r: "ApplyGrantAction sample_env sample_store local_admin ''g1'' 3 GrantRevoke (unix_time 300) = Inr (g, s')" by blast
  with grant_action_retry [OF r sample_store_inv] show ?thesis by blast
qed


end
