(* ===== verification/Domain.thy ===== *)
theory Domain
  imports Protocol
begin

text \<open>
  The domains of nodes and the proof that a node serves its domain:
  \<^verbatim>\<open>internal/control/domain.go\<close>. Resolution, dialling and the HTTPS exchange are given as their
  outcomes; which addresses the controller is willing to connect to is computed here.
\<close>

unbundle bit_operations_syntax

section \<open>Names\<close>

text \<open>
  The decimal form of an IPv4 address, as \<^verbatim>\<open>netip.ParseAddr\<close> reads a text whose first
  separator is a dot. A text with a colon is not a domain either way.
\<close>

definition octet_ok :: "string \<Rightarrow> bool" where
  "octet_ok f \<longleftrightarrow> f \<noteq> [] \<and> list_all (\<lambda>c. CHR ''0'' \<le> c \<and> c \<le> CHR ''9'') f
     \<and> (length f = 1 \<or> hd f \<noteq> CHR ''0'') \<and> (case read_digits f 0 of None \<Rightarrow> False | Some n \<Rightarrow> n \<le> 255)"

definition is_ipv4 :: "string \<Rightarrow> bool" where
  "is_ipv4 s \<longleftrightarrow> length (split_at CHR ''.'' s) = 4 \<and> list_all octet_ok (split_at CHR ''.'' s)"

definition label_ok :: "string \<Rightarrow> bool" where
  "label_ok l \<longleftrightarrow> l \<noteq> [] \<and> length l \<le> 63 \<and> hd l \<noteq> CHR ''-'' \<and> last l \<noteq> CHR ''-''
     \<and> list_all (\<lambda>c. is_lower_digit c \<or> c = CHR ''-'') l"

definition normalizeNodeDomain :: "string \<Rightarrow> string result" where
  "normalizeNodeDomain raw =
     (let domain = ToLower (TrimSuffix (TrimSpace raw) ''.'')
      in if domain = [] \<or> 253 < length domain \<or> CHR ''.'' \<notin> set domain then Inl ErrInvalid
         else if is_ipv4 domain then Inl ErrInvalid
         else if list_all label_ok (split_at CHR ''.'' domain) then Inr domain else Inl ErrInvalid)"

section \<open>Addresses\<close>

text \<open>\<^verbatim>\<open>netip.Addr\<close>: the zero value, an IPv4 address, or an IPv6 address with its zone.\<close>

datatype ip_addr = NoAddr | V4 "32 word" | V6 "128 word" string

datatype ip_prefix = P4 "32 word" nat | P6 "128 word" nat

definition is_4in6 :: "128 word \<Rightarrow> bool" where
  "is_4in6 w \<longleftrightarrow> drop_bit 32 w = 0xFFFF"

fun Unmap :: "ip_addr \<Rightarrow> ip_addr" where
  "Unmap (V6 w z) = (if is_4in6 w then V4 (ucast w) else V6 w z)"
| "Unmap a = a"

text \<open>\<^verbatim>\<open>Prefix.Contains\<close>: families must agree, and a zone matches no prefix.\<close>

fun prefix_contains :: "ip_prefix \<Rightarrow> ip_addr \<Rightarrow> bool" where
  "prefix_contains (P4 p b) (V4 w) = (drop_bit (32 - b) (w XOR p) = 0)"
| "prefix_contains (P6 p b) (V6 w z) = (z = [] \<and> drop_bit (128 - b) (w XOR p) = 0)"
| "prefix_contains _ _ = False"

fun IsLoopback :: "ip_addr \<Rightarrow> bool" where
  "IsLoopback (V4 w) = (drop_bit 24 w = 127)"
| "IsLoopback (V6 w _) = (w = 1)"
| "IsLoopback NoAddr = False"

fun IsMulticast :: "ip_addr \<Rightarrow> bool" where
  "IsMulticast (V4 w) = (drop_bit 28 w = 0xE)"
| "IsMulticast (V6 w _) = (drop_bit 120 w = 0xFF)"
| "IsMulticast NoAddr = False"

fun IsLinkLocalUnicast :: "ip_addr \<Rightarrow> bool" where
  "IsLinkLocalUnicast (V4 w) = (drop_bit 16 w = 0xA9FE)"
| "IsLinkLocalUnicast (V6 w _) = (drop_bit 118 w = 0x3FA)"
| "IsLinkLocalUnicast NoAddr = False"

fun IsPrivate :: "ip_addr \<Rightarrow> bool" where
  "IsPrivate (V4 w) = (drop_bit 24 w = 10 \<or> drop_bit 20 w = 0xAC1 \<or> drop_bit 16 w = 0xC0A8)"
| "IsPrivate (V6 w _) = (drop_bit 121 w = 0x7E)"
| "IsPrivate NoAddr = False"

text \<open>The callers apply these to unmapped addresses only.\<close>

definition IsGlobalUnicast :: "ip_addr \<Rightarrow> bool" where
  "IsGlobalUnicast ip \<longleftrightarrow>
     ip \<noteq> NoAddr \<and> ip \<noteq> V4 0 \<and> ip \<noteq> V4 0xFFFFFFFF \<and> ip \<noteq> V6 0 []
     \<and> \<not> IsLoopback ip \<and> \<not> IsMulticast ip \<and> \<not> IsLinkLocalUnicast ip"

text \<open>The nine ranges, \<^verbatim>\<open>2001:db8::/32\<close> and \<^verbatim>\<open>fec0::/10\<close> last.\<close>

definition restrictedNodeRanges :: "ip_prefix list" where
  "restrictedNodeRanges =
     [P4 0 8, P4 0x64400000 10, P4 0xC0000000 24, P4 0xC0000200 24, P4 0xC6120000 15, P4 0xC6336400 24,
      P4 0xCB007100 24, P6 0x20010DB8000000000000000000000000 32, P6 0xFEC00000000000000000000000000000 10]"

text \<open>Metadata services: \<^verbatim>\<open>100.100.100.200\<close> and \<^verbatim>\<open>fd00:ec2::254\<close>.\<close>

definition metadata_addrs :: "ip_addr list" where
  "metadata_addrs = [V4 0x646464C8, V6 0xFD000EC2000000000000000000000254 []]"

definition allowed :: "ip_prefix list \<Rightarrow> ip_addr \<Rightarrow> bool" where
  "allowed allowedCIDRs addr =
     (let ip = Unmap addr
      in if ip = NoAddr \<or> \<not> IsGlobalUnicast ip \<or> IsLoopback ip \<or> IsLinkLocalUnicast ip \<or> ip \<in> set metadata_addrs
         then False
         else if \<not> (IsPrivate ip \<or> list_ex (\<lambda>p. prefix_contains p ip) restrictedNodeRanges) then True
         else list_ex (\<lambda>p. prefix_contains p ip) allowedCIDRs)"

section \<open>Connections\<close>

text \<open>\<open>ips\<close> is the answer of the resolver, \<open>None\<close> when it fails.\<close>

definition resolve :: "ip_prefix list \<Rightarrow> string \<Rightarrow> ip_addr list option \<Rightarrow> ip_addr list result" where
  "resolve allowedCIDRs domain ips =
     bindE (normalizeNodeDomain domain) (\<lambda>_.
     case ips of
       None \<Rightarrow> Inl (ErrMsg ''node domain cannot be resolved'')
     | Some as \<Rightarrow>
         if as = [] then Inl (ErrMsg ''node domain cannot be resolved'')
         else if list_all (allowed allowedCIDRs) as then Inr as
         else Inl (ErrMsg ''node domain resolves to a disallowed address''))"

text \<open>
  The loop over the addresses. \<open>dial\<close> gives the remote end of a connection, its address if
  that parses and its port, or \<open>None\<close> when the connection fails.
\<close>

fun dial_loop ::
    "ip_prefix list \<Rightarrow> (ip_addr \<Rightarrow> string \<Rightarrow> (ip_addr option \<times> string) option) \<Rightarrow> string \<Rightarrow> ip_addr list \<Rightarrow> ip_addr result" where
  "dial_loop allowedCIDRs dial port [] = Inl (ErrMsg ''node domain connection failed'')"
| "dial_loop allowedCIDRs dial port (ip # ips) =
     (case dial ip port of
        None \<Rightarrow> dial_loop allowedCIDRs dial port ips
      | Some (None, _) \<Rightarrow> Inl (ErrMsg ''node connection target changed'')
      | Some (Some remote, remotePort) \<Rightarrow>
          if Unmap remote \<noteq> Unmap ip \<or> remotePort \<noteq> port \<or> \<not> allowed allowedCIDRs remote
          then Inl (ErrMsg ''node connection target changed'') else Inr remote)"

text \<open>The address is given as its host and port, \<open>None\<close> when it does not split.\<close>

definition dialDomainPort ::
    "ip_prefix list \<Rightarrow> ip_addr list option \<Rightarrow> (ip_addr \<Rightarrow> string \<Rightarrow> (ip_addr option \<times> string) option)
      \<Rightarrow> string \<Rightarrow> (string \<times> string) option \<Rightarrow> string \<Rightarrow> ip_addr result" where
  "dialDomainPort allowedCIDRs ips dial network address expectedPort =
     (case address of
        None \<Rightarrow> Inl ErrInvalid
      | Some (domain, port) \<Rightarrow>
          if network \<noteq> ''tcp'' \<or> port \<noteq> expectedPort then Inl ErrInvalid
          else bindE (resolve allowedCIDRs domain ips) (dial_loop allowedCIDRs dial port))"

definition dialDomain ::
    "ip_prefix list \<Rightarrow> ip_addr list option \<Rightarrow> (ip_addr \<Rightarrow> string \<Rightarrow> (ip_addr option \<times> string) option)
      \<Rightarrow> string \<Rightarrow> (string \<times> string) option \<Rightarrow> ip_addr result" where
  "dialDomain allowedCIDRs ips dial network address = dialDomainPort allowedCIDRs ips dial network address ''443''"

text \<open>
  The reply to a request: its status, the length of its body (\<open>None\<close> when reading fails) and
  the signature in it when the body is one document of the expected form.
\<close>

record http_reply =
  hr_status :: nat
  hr_len :: "nat option"
  hr_proof :: "string option"

definition challenge_url :: "string \<Rightarrow> string \<Rightarrow> string" where
  "challenge_url domain nonce = ''https://'' @ domain @ ''/cluster/v1/domain-challenge/'' @ nonce"

definition verify ::
    "env \<Rightarrow> ip_prefix list \<Rightarrow> ip_addr list option \<Rightarrow> (string \<Rightarrow> http_reply option) \<Rightarrow> time \<Rightarrow> node_challenge \<Rightarrow> unit result" where
  "verify E allowedCIDRs ips fetch now c =
     (case normalizeNodeDomain (ch_Domain c) of
        Inl _ \<Rightarrow> Inl ErrInvalid
      | Inr domain \<Rightarrow>
          if domain \<noteq> ch_Domain c \<or> length (ch_Nonce c) \<noteq> 64 \<or> \<not> hex_ok (ch_Nonce c)
             \<or> length (ch_PublicKey c) \<noteq> 32 \<or> \<not> now < ch_ExpiresAt c
          then Inl ErrInvalid
          else bindE (resolve allowedCIDRs domain ips) (\<lambda>_.
            case fetch (challenge_url domain (ch_Nonce c)) of
              None \<Rightarrow> Inl (ErrMsg ''node domain TLS connection failed'')
            | Some r \<Rightarrow>
                if hr_status r \<noteq> 200 then Inl (ErrMsg ''node domain proof unavailable'')
                else (case hr_len r of
                    None \<Rightarrow> Inl (ErrMsg ''invalid node domain proof'')
                  | Some n \<Rightarrow>
                      if 4096 < n then Inl (ErrMsg ''invalid node domain proof'')
                      else (case hr_proof r of
                          None \<Rightarrow> Inl (ErrMsg ''invalid node domain proof'')
                        | Some sig \<Rightarrow>
                            failIf (\<not> ed_verify E (ch_PublicKey c) (DomainSigning c) sig)
                              (ErrMsg ''invalid node domain proof'')))))"

section \<open>Normal names\<close>

lemma set_split_at: "c \<in> set s \<Longrightarrow> c \<noteq> d \<Longrightarrow> \<exists>l\<in>set (split_at d s). c \<in> set l"
  by (induction d s rule: split_at.induct) (auto split: list.splits)

lemma split_at_snoc: "split_at d (s @ [d]) = split_at d s @ [[]]"
  by (induction s) (auto split: list.splits)

lemma last_split_at: "s \<noteq> [] \<Longrightarrow> last s = d \<Longrightarrow> [] \<in> set (split_at d s)"
  by (cases s rule: rev_cases) (simp_all add: split_at_snoc)

definition domain_char :: "char \<Rightarrow> bool" where
  "domain_char c \<longleftrightarrow> is_lower_digit c \<or> c = CHR ''-'' \<or> c = CHR ''.''"

lemma domain_char_simps:
  assumes "domain_char c"
  shows "is_graph c" "lower_char c = c" "c \<noteq> CHR 0xE2" "c \<noteq> CHR 0xC4"
proof -
  have c: "of_char c = (45::nat) \<or> of_char c = (46::nat) \<or> (of_char c :: nat) \<in> {48..57} \<or> (of_char c :: nat) \<in> {97..122}"
    using assms by (auto simp: domain_char_def is_lower_digit_def less_eq_char_def)
  then show "is_graph c" by (auto simp: is_graph_def less_eq_char_def)
  from c show "lower_char c = c" by (auto simp: lower_char_def less_eq_char_def)
  from c show "c \<noteq> CHR 0xE2" "c \<noteq> CHR 0xC4" by auto
qed

lemma ToLower_lower: "list_all domain_char s \<Longrightarrow> ToLower s = s"
  by (induction s) (simp_all add: domain_char_simps)

lemma labels_chars:
  assumes "list_all label_ok (split_at CHR ''.'' s)"
  shows "list_all domain_char s"
proof -
  have "domain_char c" if "c \<in> set s" for c
    using set_split_at [OF that, of "CHR ''.''"] assms by (auto simp: label_ok_def list_all_iff domain_char_def)
  then show ?thesis by (simp add: list_all_iff)
qed

lemma normalizeNodeDomain_labels:
  assumes "normalizeNodeDomain raw = Inr d"
  shows "d \<noteq> []" "length d \<le> 253" "CHR ''.'' \<in> set d" "list_all label_ok (split_at CHR ''.'' d)" "\<not> is_ipv4 d"
  using assms by (auto simp: normalizeNodeDomain_def Let_def split: if_splits)

lemma normalizeNodeDomain_fixed:
  assumes "d \<noteq> []" "length d \<le> 253" "CHR ''.'' \<in> set d" "list_all label_ok (split_at CHR ''.'' d)" "\<not> is_ipv4 d"
  shows "normalizeNodeDomain d = Inr d"
proof -
  note cs = labels_chars [OF assms(4)]
  have "list_all is_graph d" using cs by (rule list.pred_mono_strong) (rule domain_char_simps(1))
  then have "TrimSpace d = d" by (rule TrimSpace_id)
  moreover have "last d \<noteq> CHR ''.''"
  proof
    assume "last d = CHR ''.''"
    from last_split_at [OF assms(1) this] assms(4) show False by (auto simp: list_all_iff label_ok_def)
  qed
  then have "\<not> suffix ''.'' d" unfolding suffix_def by (metis last_snoc)
  then have "TrimSuffix d ''.'' = d" by (simp only: TrimSuffix_def if_False)
  ultimately have "ToLower (TrimSuffix (TrimSpace d) ''.'') = d" using ToLower_lower [OF cs] by (simp only:)
  with assms show ?thesis unfolding normalizeNodeDomain_def Let_def by (simp only: if_False if_True not_le simp_thms) simp
qed

section \<open>Ranges of addresses\<close>

lemma xor_0_iff: "x XOR y = 0 \<longleftrightarrow> x = y" for x y :: "'a::len word"
  by (auto simp: bit_eq_iff bit_simps)

lemma word_unat_eq: "w = k \<longleftrightarrow> unat w = unat k" for w k :: "'a::len word"
  by (auto intro: unsigned_word_eqI)

text \<open>Addresses by their decimal form, and the interval a prefix stands for.\<close>

definition ip4 :: "nat \<Rightarrow> nat \<Rightarrow> nat \<Rightarrow> nat \<Rightarrow> nat" where
  "ip4 a b c d = ((a * 256 + b) * 256 + c) * 256 + d"

definition between :: "nat \<Rightarrow> nat \<Rightarrow> 32 word \<Rightarrow> bool" where
  "between lo hi w \<longleftrightarrow> lo \<le> unat w \<and> unat w \<le> hi"

lemma div_interval: "0 < m \<Longrightarrow> x div m = k \<longleftrightarrow> k * m \<le> x \<and> x < (k + 1) * (m::nat)"
  by (metis Suc_eq_plus1 div_nat_eqI dividend_less_div_times div_times_less_eq_dividend mult.commute mult_Suc)

lemma drop_bit_between:
  "drop_bit n (w :: 32 word) = k \<longleftrightarrow> between (unat k * 2 ^ n) ((unat k + 1) * 2 ^ n - 1) w"
proof -
  have "drop_bit n w = k \<longleftrightarrow> unat w div 2 ^ n = unat k"
    unfolding drop_bit_eq_div [symmetric, where 'a = nat] unat_drop_bit_eq [symmetric] by (rule word_unat_eq)
  also have "\<dots> \<longleftrightarrow> unat k * 2 ^ n \<le> unat w \<and> unat w < (unat k + 1) * 2 ^ n" by (rule div_interval) simp
  also have "\<dots> \<longleftrightarrow> between (unat k * 2 ^ n) ((unat k + 1) * 2 ^ n - 1) w"
    by (cases "(unat k + 1) * 2 ^ n") (auto simp: between_def)
  finally show ?thesis .
qed

text \<open>Never connected to, whatever the configuration.\<close>

definition never4 :: "32 word \<Rightarrow> bool" where
  "never4 w \<longleftrightarrow> unat w = ip4 0 0 0 0 \<or> unat w = ip4 255 255 255 255 \<or> unat w = ip4 100 100 100 200
     \<or> between (ip4 127 0 0 0) (ip4 127 255 255 255) w \<or> between (ip4 169 254 0 0) (ip4 169 254 255 255) w
     \<or> between (ip4 224 0 0 0) (ip4 239 255 255 255) w"

text \<open>Connected to only when the configuration lists them.\<close>

definition restricted4 :: "32 word \<Rightarrow> bool" where
  "restricted4 w \<longleftrightarrow>
     between (ip4 0 0 0 0) (ip4 0 255 255 255) w \<or> between (ip4 10 0 0 0) (ip4 10 255 255 255) w
     \<or> between (ip4 100 64 0 0) (ip4 100 127 255 255) w \<or> between (ip4 172 16 0 0) (ip4 172 31 255 255) w
     \<or> between (ip4 192 0 0 0) (ip4 192 0 0 255) w \<or> between (ip4 192 0 2 0) (ip4 192 0 2 255) w
     \<or> between (ip4 192 168 0 0) (ip4 192 168 255 255) w \<or> between (ip4 198 18 0 0) (ip4 198 19 255 255) w
     \<or> between (ip4 198 51 100 0) (ip4 198 51 100 255) w \<or> between (ip4 203 0 113 0) (ip4 203 0 113 255) w"

lemma never4_code:
  "never4 w \<longleftrightarrow> \<not> IsGlobalUnicast (V4 w) \<or> IsLoopback (V4 w) \<or> IsLinkLocalUnicast (V4 w) \<or> V4 w \<in> set metadata_addrs"
  unfolding never4_def IsGlobalUnicast_def metadata_addrs_def
  by (simp add: word_unat_eq [of w] drop_bit_between ip4_def) blast

lemma restricted4_code:
  "restricted4 w \<longleftrightarrow> IsPrivate (V4 w) \<or> list_ex (\<lambda>p. prefix_contains p (V4 w)) restrictedNodeRanges"
  unfolding restricted4_def restrictedNodeRanges_def
  by (simp add: xor_0_iff drop_bit_between ip4_def) blast

section \<open>Connections and proofs\<close>

lemma resolve_Inr: "resolve allowedCIDRs domain ips = Inr as \<Longrightarrow> ips = Some as \<and> list_all (allowed allowedCIDRs) as"
  by (auto simp: resolve_def bindE_Inr_iff split: option.splits if_splits)

lemma dial_loop_Inr:
  "dial_loop allowedCIDRs dial port ips = Inr remote \<Longrightarrow>
     allowed allowedCIDRs remote \<and> (\<exists>ip\<in>set ips. Unmap remote = Unmap ip \<and> dial ip port = Some (Some remote, port))"
  by (induction ips) (auto split: option.splits if_splits)

section \<open>Properties\<close>

text \<open>A normalised domain is a lower-case host name: at most 253 bytes, at least two labels of 1 to
  63 letters, digits and inner hyphens, and not an IPv4 address. Normalising it again gives
  it back, so the domain stored with a node is the one its challenges are checked against.\<close>

theorem normalizeNodeDomain_normal:
  assumes "normalizeNodeDomain raw = Inr d"
  shows "normalizeNodeDomain d = Inr d \<and> length d \<le> 253 \<and> 2 \<le> length (split_at CHR ''.'' d)
    \<and> list_all label_ok (split_at CHR ''.'' d) \<and> \<not> is_ipv4 d"
proof -
  note ok = normalizeNodeDomain_labels [OF assms]
  have "2 \<le> length (split_at CHR ''.'' s)" if "CHR ''.'' \<in> set s" for s
    using that by (induction s) (auto split: list.splits simp: Suc_le_eq)
  with ok normalizeNodeDomain_fixed [OF ok] show ?thesis by simp
qed

text \<open>Which IPv4 addresses the controller connects to, in decimal ranges. The unspecified and the
  broadcast address, loopback, link-local, multicast and the metadata service are refused
  whatever the configuration says; private, shared, documentation and benchmark ranges need
  an entry of the configuration; every other address is accepted. An address written as an
  IPv4-mapped IPv6 address is treated as the IPv4 address it contains.\<close>

theorem allowed_ipv4:
  assumes "Unmap addr = V4 w"
  shows "allowed allowedCIDRs addr \<longleftrightarrow>
    \<not> never4 w \<and> (restricted4 w \<longrightarrow> (\<exists>p b. P4 p b \<in> set allowedCIDRs \<and> drop_bit (32 - b) w = drop_bit (32 - b) p))"
proof -
  have "list_ex (\<lambda>p. prefix_contains p (V4 w)) allowedCIDRs
      \<longleftrightarrow> (\<exists>p b. P4 p b \<in> set allowedCIDRs \<and> drop_bit (32 - b) w = drop_bit (32 - b) p)"
    by (force simp: list_ex_iff xor_0_iff elim!: prefix_contains.elims)
  moreover have "allowed allowedCIDRs addr \<longleftrightarrow>
      \<not> never4 w \<and> (restricted4 w \<longrightarrow> list_ex (\<lambda>p. prefix_contains p (V4 w)) allowedCIDRs)"
    unfolding never4_code restricted4_code allowed_def Let_def assms
    by (simp only: if_bool_eq_conj ip_addr.distinct simp_thms) blast
  ultimately show ?thesis by (simp only:)
qed

text \<open>A connection to a node's domain always ends at an address the controller accepts and that
  the resolver gave for that domain, on the expected port: neither a changed answer of the
  resolver nor a redirected connection leads it elsewhere.\<close>

theorem dialDomainPort_allowed:
  assumes "dialDomainPort allowedCIDRs ips dial network address expectedPort = Inr remote"
  shows "allowed allowedCIDRs remote \<and> network = ''tcp''
    \<and> (\<exists>domain as ip. address = Some (domain, expectedPort) \<and> ips = Some as \<and> list_all (allowed allowedCIDRs) as
        \<and> ip \<in> set as \<and> Unmap remote = Unmap ip \<and> dial ip expectedPort = Some (Some remote, expectedPort))"
  using assms unfolding dialDomainPort_def
  by (auto simp: bindE_Inr_iff split: option.splits prod.splits if_splits dest!: resolve_Inr dial_loop_Inr)


text \<open>C20: Controller and node fit together: a node whose responder holds the challenge and the private
  key, served at its domain, passes the controller's verification, for every challenge with
  a normalised domain that resolves to accepted addresses. The document with a signature of
  64 bytes has 105 bytes.\<close>

theorem verify_accepts_responder:
  assumes "\<And>k m. ed_verify E (ed_public E k) m (ed_sign E k m)"
    and "normalizeNodeDomain (ch_Domain c) = Inr (ch_Domain c)" and "length (ch_Nonce c) = 64" and "hex_ok (ch_Nonce c)"
    and "ch_PublicKey c = ed_public E key" and "length (ch_PublicKey c) = 32" and "now < ch_ExpiresAt c"
    and "ips = Some as" and "as \<noteq> []" and "list_all (allowed allowedCIDRs) as"
    and "\<And>u path. u = ''https://'' @ ch_Domain c @ path \<Longrightarrow>
      fetch u = (case DomainResponder_ServeHTTP E (SetChallenge c (NewDomainResponder key)) now ''GET'' [] path of
        None \<Rightarrow> Some \<lparr>hr_status = 404, hr_len = Some 19, hr_proof = None\<rparr>
      | Some sig \<Rightarrow> Some \<lparr>hr_status = 200, hr_len = Some 105, hr_proof = Some sig\<rparr>)"
  shows "verify E allowedCIDRs ips fetch now c = Inr ()"
proof -
  have "CHR ''/'' \<notin> set (ch_Nonce c)"
    using assms(4) by (auto simp: hex_ok_def list_all_iff is_hex_def less_eq_char_def)
  moreover have "ch_Nonce c \<noteq> []" using assms(3) by auto
  ultimately have "DomainResponder_ServeHTTP E (SetChallenge c (NewDomainResponder key)) now ''GET'' []
      (''/cluster/v1/domain-challenge/'' @ ch_Nonce c) = Some (ed_sign E key (DomainSigning c))"
    using assms(7) by (simp add: DomainResponder_ServeHTTP_def SetChallenge_def NewDomainResponder_def)
  then have "fetch (challenge_url (ch_Domain c) (ch_Nonce c)) =
      Some \<lparr>hr_status = 200, hr_len = Some 105, hr_proof = Some (ed_sign E key (DomainSigning c))\<rparr>"
    using assms(11) [of "challenge_url (ch_Domain c) (ch_Nonce c)" "''/cluster/v1/domain-challenge/'' @ ch_Nonce c"]
    by (simp add: challenge_url_def)
  then show ?thesis
    using assms(1-10) by (simp add: verify_def resolve_def failIf_def)
qed

subsection \<open>Instances\<close>

definition sample_challenge :: node_challenge where
  "sample_challenge = \<lparr>ch_Purpose = ''enroll'', ch_ClusterID = ''c'', ch_NodeID = ''n'', ch_Domain = ''d.example'',
     ch_Nonce = replicate 64 CHR ''a'', ch_ExpiresAt = unix_time 400, ch_PublicKey = replicate 32 CHR ''k'', ch_InstanceID = ''i''\<rparr>"

lemma sample_domain: "normalizeNodeDomain ''d.example'' = Inr ''d.example''"
  by (rule normalizeNodeDomain_fixed) (simp_all add: label_ok_def is_lower_digit_def less_eq_char_def is_ipv4_def)

theorem normalizeNodeDomain_normal_witness:
  "normalizeNodeDomain ''d.example'' = Inr ''d.example'' \<and> 2 \<le> length (split_at CHR ''.'' ''d.example'')"
  using normalizeNodeDomain_normal [OF sample_domain] by simp

theorem allowed_ipv4_witness:
  "\<not> allowed [] (V6 0xFFFF0A000001 []) \<and> allowed [P4 0x0A000000 8] (V6 0xFFFF0A000001 [])"
proof -
  have u: "Unmap (V6 0xFFFF0A000001 []) = V4 0x0A000001" by (simp add: is_4in6_def)
  have "\<not> never4 0x0A000001" "restricted4 0x0A000001" by (simp_all add: never4_def restricted4_def between_def ip4_def)
  then show ?thesis
    unfolding allowed_ipv4 [OF u] by simp
qed

theorem dialDomainPort_allowed_witness:
  "\<exists>remote. dialDomainPort [] (Some [V4 0x08080808]) (\<lambda>ip port. Some (Some ip, port)) ''tcp''
     (Some (''d.example'', ''443'')) ''443'' = Inr remote \<and> allowed [] remote"
proof -
  have "\<not> never4 0x08080808" "\<not> restricted4 0x08080808"
    by (simp_all add: never4_def restricted4_def between_def ip4_def)
  then have "allowed [] (V4 0x08080808)"
    by (simp add: never4_code restricted4_code allowed_def Let_def)
  then have d: "dialDomainPort [] (Some [V4 0x08080808]) (\<lambda>ip port. Some (Some ip, port)) ''tcp''
     (Some (''d.example'', ''443'')) ''443'' = Inr (V4 0x08080808)"
    by (simp add: dialDomainPort_def resolve_def sample_domain)
  from dialDomainPort_allowed [OF d] d show ?thesis by blast
qed

definition sample_fetch :: "string \<Rightarrow> http_reply option" where
  "sample_fetch u = (case DomainResponder_ServeHTTP sample_env
       (SetChallenge sample_challenge (NewDomainResponder (replicate 32 CHR ''k''))) (unix_time 300) ''GET'' []
       (drop (length ''https://d.example'') u) of
     None \<Rightarrow> Some \<lparr>hr_status = 404, hr_len = Some 19, hr_proof = None\<rparr>
   | Some sig \<Rightarrow> Some \<lparr>hr_status = 200, hr_len = Some 105, hr_proof = Some sig\<rparr>)"

theorem verify_accepts_responder_witness:
  "verify sample_env [] (Some [V4 0x08080808]) sample_fetch (unix_time 300) sample_challenge = Inr ()"
proof -
  have n: "\<not> never4 0x08080808" "\<not> restricted4 0x08080808"
    by (simp_all add: never4_def restricted4_def between_def ip4_def)
  show ?thesis
  proof (rule verify_accepts_responder [where key = "replicate 32 CHR ''k''" and as = "[V4 0x08080808]"])
    show "ed_verify sample_env (ed_public sample_env k) m (ed_sign sample_env k m)" for k m by (simp add: sample_env_def)
    show "normalizeNodeDomain (ch_Domain sample_challenge) = Inr (ch_Domain sample_challenge)"
      using sample_domain by (simp add: sample_challenge_def)
    show "hex_ok (ch_Nonce sample_challenge)"
      by (simp add: sample_challenge_def hex_ok_def is_hex_def list_all_iff less_eq_char_def)
    show "list_all (allowed []) [V4 0x08080808]"
      using n by (simp add: never4_code restricted4_code allowed_def Let_def)
    show "sample_fetch u = (case DomainResponder_ServeHTTP sample_env
        (SetChallenge sample_challenge (NewDomainResponder (replicate 32 CHR ''k''))) (unix_time 300) ''GET'' [] path of
        None \<Rightarrow> Some \<lparr>hr_status = 404, hr_len = Some 19, hr_proof = None\<rparr>
      | Some sig \<Rightarrow> Some \<lparr>hr_status = 200, hr_len = Some 105, hr_proof = Some sig\<rparr>)"
      if "u = ''https://'' @ ch_Domain sample_challenge @ path" for u path
      using that by (simp add: sample_fetch_def sample_challenge_def)
  qed (simp_all add: sample_challenge_def sample_env_def unix_time_def second_def)
qed


end
