(* ===== verification/Nodes.thy ===== *)
theory Nodes
  imports Grants Domain
begin

text \<open>
  Nodes, their enrolment and their sessions: \<^verbatim>\<open>internal/control/nodes.go\<close> and \<^verbatim>\<open>node_self.go\<close>.
  An operation that talks to the network between two transactions takes the store of each
  transaction and the outcome of the exchange.
\<close>

section \<open>Nodes and enrolments\<close>

record node =
  nd_ID :: string
  nd_OwnerID :: string
  nd_Domain :: string
  nd_DERPPort :: int
  nd_STUNPort :: int
  nd_DisplayName :: string
  nd_RegionID :: nat
  nd_State :: node_state
  nd_LastHeartbeat :: int
  nd_LastError :: string
  nd_Enabled :: bool

record enrollment =
  en_NodeID :: string
  en_ClusterID :: string
  en_Domain :: string
  en_Code :: string
  en_ExpiresAt :: time

text \<open>
  The settings are written where they are missing. A text that is no prefix is \<open>None\<close>; the
  result is the list the domain verifier is made with.
\<close>

definition insert_setting :: "string \<Rightarrow> string \<Rightarrow> store \<Rightarrow> store" where
  "insert_setting k v s = (if setting k s = None then s\<lparr>settings := settings s @ [(k, v)]\<rparr> else s)"

definition default_settings :: "string \<Rightarrow> store \<Rightarrow> store" where
  "default_settings token s = insert_setting ''control_retention_seconds'' ''86400''
     (insert_setting ''identity_retention_seconds'' ''86400'' (insert_setting ''cluster_id'' token s))"

definition ConfigureNodes :: "store \<Rightarrow> ip_prefix option list \<Rightarrow> string \<Rightarrow> (ip_prefix list \<times> store) result" where
  "ConfigureNodes s allowedCIDRs token =
     bindE (failIf (None \<in> set allowedCIDRs \<or> \<not> credentialAEAD s) ErrInvalid) (\<lambda>_.
     case setting ''cluster_id'' (default_settings token s) of
       None \<Rightarrow> Inl ErrNoRows
     | Some cid \<Rightarrow> Inr (map the allowedCIDRs, (default_settings token s)\<lparr>clusterID := cid\<rparr>))"

definition scanNode :: "node_row \<Rightarrow> node" where
  "scanNode n = \<lparr>nd_ID = n_id n, nd_OwnerID = n_owner_id n, nd_Domain = n_domain n, nd_DERPPort = n_derp_port n,
     nd_STUNPort = n_stun_port n, nd_DisplayName = n_display_name n, nd_RegionID = n_region_id n, nd_State = n_state n,
     nd_LastHeartbeat = n_last_heartbeat n, nd_LastError = n_last_error n, nd_Enabled = n_enabled n\<rparr>"

definition Node :: "store \<Rightarrow> actor \<Rightarrow> string \<Rightarrow> node result" where
  "Node s actor rid =
     bindE (select_node s rid) (\<lambda>n.
     bindE (RequireOwner actor (n_owner_id n)) (\<lambda>_. Inr (scanNode n)))"

definition ListNodes :: "store \<Rightarrow> actor \<Rightarrow> node list result" where
  "ListNodes s actor =
     bindE (failIf (ac_Role actor \<noteq> ''admin'' \<and> ac_Role actor \<noteq> ''provider'') ErrForbidden) (\<lambda>_.
     bindE (RequireOwner actor (ac_ID actor)) (\<lambda>_.
     Inr (map scanNode (sort_key n_display_name
       (filter (\<lambda>n. n_owner_id n = ac_ID actor \<or> ac_Role actor = ''admin'') (nodes s))))))"

text \<open>
  The codes of enrolments are unique too, which the \<^verbatim>\<open>ON CONFLICT(node_id)\<close> clause does not cover.
\<close>

definition upsert_enrollment :: "enrollment_row \<Rightarrow> store \<Rightarrow> store result" where
  "upsert_enrollment e s =
     (if e_code_hash e \<in> e_code_hash ` set (enrollments s) then Inl ErrConstraint
      else Inr (s\<lparr>enrollments := upsert_row e_node_id e
             (\<lambda>x. x\<lparr>e_owner_id := e_owner_id e, e_code_hash := e_code_hash e, e_expires_at := e_expires_at e,
                    e_consumed_at := 0, e_request_hash := None, e_response := None\<rparr>) (enrollments s)\<rparr>))"

definition issueEnrollment :: "env \<Rightarrow> store \<Rightarrow> node_row \<Rightarrow> string \<Rightarrow> time \<Rightarrow> (enrollment \<times> store) result" where
  "issueEnrollment E s n code now =
     (let e = \<lparr>en_NodeID = n_id n, en_ClusterID = clusterID s, en_Domain = n_domain n, en_Code = code,
               en_ExpiresAt = truncate_second (now + 1800 * second)\<rparr>
      in bindE (upsert_enrollment \<lparr>e_node_id = n_id n, e_owner_id = n_owner_id n, e_code_hash = tokenHash E code,
             e_expires_at = unix (en_ExpiresAt e), e_consumed_at = 0, e_request_hash = None, e_response = None\<rparr> s) (\<lambda>s1.
         Inr (e, s1\<lparr>node_challenges := delete_where (\<lambda>c. nc_node_id c = n_id n) (node_challenges s1)\<rparr>)))"

text \<open>The smallest of the region numbers 900 to 999 that no node has.\<close>

definition free_region :: "store \<Rightarrow> nat option" where
  "free_region s = find (\<lambda>r. r \<notin> n_region_id ` set (nodes s)) [900..<1000]"

definition insert_node :: "node_row \<Rightarrow> store \<Rightarrow> store result" where
  "insert_node n s =
     (if n_id n \<in> n_id ` set (nodes s) \<or> n_domain n \<in> n_domain ` set (nodes s)
         \<or> n_region_id n \<in> n_region_id ` set (nodes s) \<or> n_owner_id n \<notin> u_id ` set (users s)
      then Inl ErrConflict else Inr (s\<lparr>nodes := nodes s @ [n]\<rparr>))"

definition new_node :: "string \<Rightarrow> string \<Rightarrow> string \<Rightarrow> int \<Rightarrow> int \<Rightarrow> string \<Rightarrow> nat \<Rightarrow> node_row" where
  "new_node rid owner domain derpPort stunPort name region =
     \<lparr>n_id = rid, n_owner_id = owner, n_domain = domain, n_derp_port = derpPort, n_stun_port = stunPort,
      n_display_name = name, n_region_id = region, n_public_key = None, n_state = Pending, n_instance_id = [],
      n_lease_until = 0, n_last_heartbeat = 0, n_last_error = [], n_enabled = True, n_domain_verified_at = 0\<rparr>"

definition bad_port :: "int \<Rightarrow> bool" where
  "bad_port p \<longleftrightarrow> p < 1 \<or> p > 65535"

definition CreateNode ::
    "env \<Rightarrow> store \<Rightarrow> actor \<Rightarrow> string \<Rightarrow> string \<Rightarrow> int \<Rightarrow> int \<Rightarrow> string \<Rightarrow> string \<Rightarrow> time \<Rightarrow> (node \<times> enrollment \<times> store) result" where
  "CreateNode E s actor name rawDomain derpPort stunPort rid code now =
     bindE (failIf (ac_Role actor \<noteq> ''admin'' \<and> ac_Role actor \<noteq> ''provider'') ErrForbidden) (\<lambda>_.
     bindE (failIf (clusterID s = [] \<or> TrimSpace name = [] \<or> 160 < length name \<or> bad_port derpPort \<or> bad_port stunPort)
       ErrInvalid) (\<lambda>_.
     case normalizeNodeDomain rawDomain of
       Inl _ \<Rightarrow> Inl (InputError ''invalid_hostname'' ''domain'')
     | Inr domain \<Rightarrow>
         bindE (activeActor s actor) (\<lambda>_.
         bindE (RequireOwner actor (ac_ID actor)) (\<lambda>_.
         case free_region s of
           None \<Rightarrow> Inl ErrConflict
         | Some region \<Rightarrow>
             let n = new_node rid (ac_ID actor) domain derpPort stunPort name region
             in bindE (insert_node n s) (\<lambda>s1.
                bindE (issueEnrollment E s1 n code now) (\<lambda>(e, s2).
                Inr (scanNode n, e, writeAudit (ac_ID actor) (n_owner_id n) ''node'' rid ''node.create'' now s2)))))))"

section \<open>Release\<close>

definition release_node_row :: "node_row \<Rightarrow> node_row" where
  "release_node_row n = n\<lparr>n_state := Pending, n_instance_id := [], n_lease_until := 0, n_domain_verified_at := 0,
     n_last_heartbeat := 0, n_last_error := []\<rparr>"

definition revoke_node_grants :: "string \<Rightarrow> store \<Rightarrow> store" where
  "revoke_node_grants rid s = s\<lparr>grants := update_where (\<lambda>g. g_node_id g = rid \<and> g_state g \<noteq> Revoked)
     (\<lambda>g. g\<lparr>g_state := Revoked, g_revision := g_revision g + 1, g_last_control_success := 0\<rparr>) (grants s)\<rparr>"

definition reset_policy_row :: "policy_row \<Rightarrow> policy_row" where
  "reset_policy_row r = r\<lparr>pr_received_revision := 0, pr_applied_revision := 0, pr_derper_usable := False, pr_policy := None\<rparr>"

definition releaseNode :: "env \<Rightarrow> store \<Rightarrow> string \<Rightarrow> time \<Rightarrow> store result" where
  "releaseNode E s rid now =
     (let s1 = update_policy_row rid reset_policy_row
                 (revoke_node_grants rid (update_node rid release_node_row (clear_node_tables rid s)))
      in if rid \<in> pr_node_id ` set (node_policies s1)
         then bindE (buildPolicy E s1 rid now) (\<lambda>(_, s2). Inr s2) else Inr s1)"

definition IssueEnrollment :: "env \<Rightarrow> store \<Rightarrow> actor \<Rightarrow> string \<Rightarrow> string \<Rightarrow> time \<Rightarrow> (enrollment \<times> store) result" where
  "IssueEnrollment E s actor rid code now =
     bindE (activeActor s actor) (\<lambda>_.
     bindE (select_node s rid) (\<lambda>n.
     bindE (RequireOwner actor (n_owner_id n)) (\<lambda>_.
     bindE (if n_state n \<noteq> Pending then releaseNode E s rid now else Inr s) (\<lambda>s1.
     bindE (issueEnrollment E s1 n code now) (\<lambda>(e, s2).
     Inr (e, closeNodeStream rid (writeAudit (ac_ID actor) (n_owner_id n) ''node'' rid ''enrollment.issue'' now s2)))))))"

section \<open>Challenges\<close>

definition validNodeInstance :: "string \<Rightarrow> bool" where
  "validNodeInstance x \<longleftrightarrow> x \<noteq> [] \<and> length x \<le> 128 \<and> list_all (\<lambda>c. is_alnum c \<or> c = CHR ''-'' \<or> c = CHR ''_'') x"

definition prune_challenges :: "string \<Rightarrow> time \<Rightarrow> store \<Rightarrow> store" where
  "prune_challenges rid now s = s\<lparr>node_challenges :=
     delete_where (\<lambda>c. nc_node_id c = rid \<and> (nc_expires_at c \<le> unix now \<or> nc_used_at c \<noteq> 0)) (node_challenges s)\<rparr>"

definition newNodeChallenge ::
    "env \<Rightarrow> store \<Rightarrow> string \<Rightarrow> string \<Rightarrow> string \<Rightarrow> string \<Rightarrow> string \<Rightarrow> string \<Rightarrow> time \<Rightarrow> (node_challenge \<times> store) result" where
  "newNodeChallenge E s purpose rid domain pub inst nonce now =
     (let c = \<lparr>ch_Purpose = purpose, ch_ClusterID = clusterID s, ch_NodeID = rid, ch_Domain = domain, ch_Nonce = nonce,
               ch_ExpiresAt = truncate_second (now + 120 * second), ch_PublicKey = pub, ch_InstanceID = inst\<rparr>;
          s1 = prune_challenges rid now s
      in if 8 \<le> length (filter (\<lambda>x. nc_node_id x = rid) (node_challenges s1)) then Inl ErrConflict
         else bindE (insert_row nc_nonce_hash \<lparr>nc_nonce_hash = tokenHash E nonce, nc_node_id = rid, nc_payload = c,
                       nc_expires_at = unix (ch_ExpiresAt c), nc_used_at = 0\<rparr> (node_challenges s1)) (\<lambda>cs.
              Inr (c, s1\<lparr>node_challenges := cs\<rparr>)))"

text \<open>An enrolment that is open: its code is current and unused, and its node waits for this key or any.\<close>

definition open_enrollment :: "env \<Rightarrow> store \<Rightarrow> string \<Rightarrow> string \<Rightarrow> time \<Rightarrow> node_row option" where
  "open_enrollment E s code pub now =
     (case find (\<lambda>e. e_code_hash e = tokenHash E code \<and> unix now < e_expires_at e \<and> e_consumed_at e = 0) (enrollments s) of
        None \<Rightarrow> None
      | Some e \<Rightarrow> find (\<lambda>n. n_id n = e_node_id e \<and> e_owner_id e = n_owner_id n \<and> n_state n = Pending
           \<and> (n_public_key n = None \<or> n_public_key n = Some pub) \<and> user_enabled s (n_owner_id n)) (nodes s))"

definition EnrollmentChallenge ::
    "env \<Rightarrow> store \<Rightarrow> string \<Rightarrow> string \<Rightarrow> string \<Rightarrow> string \<Rightarrow> time \<Rightarrow> (node_challenge \<times> store) result" where
  "EnrollmentChallenge E s code pub inst nonce now =
     bindE (failIf (length code \<noteq> 64 \<or> length pub \<noteq> 32 \<or> \<not> validNodeInstance inst \<or> clusterID s = []) ErrInvalid) (\<lambda>_.
     case open_enrollment E s code pub now of
       None \<Rightarrow> Inl ErrUnauthorized
     | Some n \<Rightarrow> newNodeChallenge E s ''enroll'' (n_id n) (n_domain n) pub inst nonce now)"

definition checkNodeChallenge :: "env \<Rightarrow> store \<Rightarrow> node_challenge \<Rightarrow> string \<Rightarrow> string \<Rightarrow> time \<Rightarrow> unit result" where
  "checkNodeChallenge E s c sig purpose now =
     bindE (failIf (ch_ClusterID c \<noteq> clusterID s \<or> ch_Purpose c \<noteq> purpose \<or> length (ch_PublicKey c) \<noteq> 32
        \<or> length sig \<noteq> 64 \<or> length (ch_Nonce c) \<noteq> 64 \<or> \<not> now < ch_ExpiresAt c) ErrUnauthorized) (\<lambda>_.
     case find (\<lambda>r. nc_nonce_hash r = tokenHash E (ch_Nonce c) \<and> nc_node_id r = ch_NodeID c
         \<and> unix now < nc_expires_at r \<and> nc_used_at r = 0) (node_challenges s) of
       None \<Rightarrow> Inl ErrUnauthorized
     | Some r \<Rightarrow> failIf (nc_payload r \<noteq> c \<or> \<not> ed_verify E (ch_PublicKey c) (nc_payload r) sig) ErrUnauthorized)"

definition use_challenge :: "env \<Rightarrow> node_challenge \<Rightarrow> time \<Rightarrow> store \<Rightarrow> store" where
  "use_challenge E c now s = s\<lparr>node_challenges :=
     update_where (\<lambda>r. nc_nonce_hash r = tokenHash E (ch_Nonce c)) (\<lambda>r. r\<lparr>nc_used_at := unix now\<rparr>) (node_challenges s)\<rparr>"

section \<open>Sessions\<close>

definition mintNodeSession ::
    "env \<Rightarrow> store \<Rightarrow> string \<Rightarrow> string \<Rightarrow> string \<Rightarrow> time \<Rightarrow> (node_session \<times> store) result" where
  "mintNodeSession E s rid inst token now =
     (let session = \<lparr>ses_ClusterID = clusterID s, ses_NodeID = rid, ses_InstanceID = inst, ses_Token = token,
               ses_ExpiresAt = truncate_second (now + 3600 * second), ses_LeaseUntil = truncate_second (now + 90 * second)\<rparr>
      in bindE (insert_row ns_token_hash \<lparr>ns_token_hash = tokenHash E token, ns_node_id = rid, ns_instance_id = inst,
             ns_expires_at = unix (ses_ExpiresAt session)\<rparr> (delete_where (\<lambda>r. ns_node_id r = rid) (node_sessions s))) (\<lambda>xs.
         Inr (session, s\<lparr>node_sessions := xs\<rparr>)))"

text \<open>
  \<^verbatim>\<open>enrollmentReceipt\<close>: \<open>None\<close> for a code that is not used yet, and the session that was sealed
  when it was used for the same request. A text too short to be sealed does not open.
\<close>

definition enrollment_aad :: "string \<Rightarrow> string" where
  "enrollment_aad rid = ''enrollment:'' @ rid"

definition enrollmentReceipt :: "env \<Rightarrow> store \<Rightarrow> enrollment_request \<Rightarrow> time \<Rightarrow> node_session option result" where
  "enrollmentReceipt E s req now =
     (case find (\<lambda>e. e_code_hash e = tokenHash E (er_Code req) \<and> e_node_id e = ch_NodeID (er_Challenge req)
          \<and> unix now < e_expires_at e
          \<and> list_ex (\<lambda>n. n_id n = e_node_id e \<and> e_owner_id e = n_owner_id n \<and> user_enabled s (n_owner_id n)) (nodes s))
          (enrollments s) of
        None \<Rightarrow> Inl ErrUnauthorized
      | Some e \<Rightarrow>
          if e_consumed_at e = 0 then Inr None
          else if e_request_hash e \<noteq> Some (requestDigest E req) \<or> \<not> credentialAEAD s then Inl ErrUnauthorized
          else (case e_response e of
              None \<Rightarrow> Inl ErrUnauthorized
            | Some data \<Rightarrow>
                (case open_session E data (enrollment_aad (ch_NodeID (er_Challenge req))) of
                   None \<Rightarrow> Inl ErrUnauthorized
                 | Some session \<Rightarrow> if \<not> now < ses_ExpiresAt session then Inl ErrUnauthorized else Inr (Some session))))"

text \<open>The first transaction of \<^verbatim>\<open>EnrollNode\<close>: \<open>Some\<close> session when the request was served before.\<close>

definition enroll_check :: "env \<Rightarrow> store \<Rightarrow> enrollment_request \<Rightarrow> time \<Rightarrow> node_session option result" where
  "enroll_check E s req now =
     bindE (enrollmentReceipt E s req now) (\<lambda>receipt.
     case receipt of
       Some session \<Rightarrow> Inr (Some session)
     | None \<Rightarrow> bindE (checkNodeChallenge E s (er_Challenge req) (er_Signature req) ''enroll'' now) (\<lambda>_. Inr None))"

definition register_node :: "node_challenge \<Rightarrow> time \<Rightarrow> store \<Rightarrow> store" where
  "register_node c now = update_node (ch_NodeID c) (\<lambda>n. n\<lparr>n_public_key := Some (ch_PublicKey c),
     n_instance_id := ch_InstanceID c, n_state := Registered, n_lease_until := unix (now + 90 * second),
     n_domain_verified_at := unix now\<rparr>)"

text \<open>\<^verbatim>\<open>INSERT INTO node_policies(node_id)\<close> with the defaults of the schema.\<close>

definition default_policy_row :: "string \<Rightarrow> policy_row" where
  "default_policy_row rid = \<lparr>pr_node_id = rid, pr_desired_revision = 0, pr_received_revision = 0, pr_applied_revision = 0,
     pr_generated_at = 0, pr_policy = None, pr_budget_bps = 100000000, pr_owner_weight = 8, pr_shared_weight = 2,
     pr_shared_max_bps = 0, pr_derper_usable = False\<rparr>"

definition ensure_policy_row :: "string \<Rightarrow> store \<Rightarrow> store" where
  "ensure_policy_row rid s =
     (if rid \<in> pr_node_id ` set (node_policies s) then s
      else s\<lparr>node_policies := node_policies s @ [default_policy_row rid]\<rparr>)"

definition consume_enrollment :: "env \<Rightarrow> enrollment_request \<Rightarrow> node_session \<Rightarrow> string \<Rightarrow> time \<Rightarrow> store \<Rightarrow> store" where
  "consume_enrollment E req session nonce now s = s\<lparr>enrollments :=
     update_where (\<lambda>e. e_node_id e = ses_NodeID session)
       (\<lambda>e. e\<lparr>e_consumed_at := unix now, e_request_hash := Some (requestDigest E req),
              e_response := Some (seal_session E session nonce (enrollment_aad (ses_NodeID session)))\<rparr>) (enrollments s)\<rparr>"

text \<open>The second transaction, once the domain is verified; first its writes.\<close>

definition enroll_register ::
    "env \<Rightarrow> store \<Rightarrow> enrollment_request \<Rightarrow> node_row \<Rightarrow> string \<Rightarrow> string \<Rightarrow> time \<Rightarrow> (node_session \<times> store) result" where
  "enroll_register E s req n token nonce now =
     (let c = er_Challenge req in
      bindE (buildPolicy E (ensure_policy_row (ch_NodeID c) (register_node c now s)) (ch_NodeID c) now) (\<lambda>(_, s1).
      bindE (mintNodeSession E (use_challenge E c now s1) (ch_NodeID c) (ch_InstanceID c) token now) (\<lambda>(session, s2).
      Inr (session, writeAudit (''node:'' @ ses_NodeID session) (n_owner_id n) ''node'' (ses_NodeID session)
             ''node.enroll'' now (consume_enrollment E req session nonce now s2)))))"

definition pending_node :: "store \<Rightarrow> node_challenge \<Rightarrow> node_row option" where
  "pending_node s c = find (\<lambda>n. n_id n = ch_NodeID c \<and> n_domain n = ch_Domain c \<and> n_state n = Pending
     \<and> (n_public_key n = None \<or> n_public_key n = Some (ch_PublicKey c))) (nodes s)"

definition enroll_commit ::
    "env \<Rightarrow> store \<Rightarrow> enrollment_request \<Rightarrow> string \<Rightarrow> string \<Rightarrow> time \<Rightarrow> (node_session \<times> store) result" where
  "enroll_commit E s req token nonce now =
     (let c = er_Challenge req in
      bindE (enrollmentReceipt E s req now) (\<lambda>receipt.
      case receipt of
        Some session \<Rightarrow> Inr (session, s)
      | None \<Rightarrow>
          bindE (checkNodeChallenge E s c (er_Signature req) ''enroll'' now) (\<lambda>_.
          case pending_node s c of
            None \<Rightarrow> Inl ErrUnauthorized
          | Some n \<Rightarrow> enroll_register E s req n token nonce now)))"

text \<open>
  \<open>s\<close> and \<open>s'\<close> are the stores of the two transactions, \<open>verified\<close> says whether a slot was free in
  time and \<^verbatim>\<open>verifyDomain\<close> succeeded. The cluster has an identity once \<^verbatim>\<open>ConfigureNodes\<close> has run.
\<close>

definition EnrollNode ::
    "env \<Rightarrow> store \<Rightarrow> store \<Rightarrow> bool \<Rightarrow> enrollment_request \<Rightarrow> string \<Rightarrow> string \<Rightarrow> time \<Rightarrow> time \<Rightarrow> (node_session \<times> store) result" where
  "EnrollNode E s s' verified req token nonce now now' =
     bindE (failIf (clusterID s = [] \<or> length (er_Code req) \<noteq> 64) ErrInvalid) (\<lambda>_.
     bindE (enroll_check E s req now) (\<lambda>done.
     case done of
       Some session \<Rightarrow> Inr (session, s')
     | None \<Rightarrow> if \<not> verified then Inl ErrUnauthorized else enroll_commit E s' req token nonce now'))"

text \<open>The length of the key is checked together with the error of the query.\<close>

definition SessionChallenge ::
    "env \<Rightarrow> store \<Rightarrow> string \<Rightarrow> string \<Rightarrow> string \<Rightarrow> time \<Rightarrow> (node_challenge \<times> store) result" where
  "SessionChallenge E s rid inst nonce now =
     bindE (failIf (\<not> validNodeInstance inst \<or> clusterID s = []) ErrInvalid) (\<lambda>_.
     case find (\<lambda>n. n_id n = rid \<and> (serving_state (n_state n) \<or> n_state n = DomainPending)
         \<and> user_enabled s (n_owner_id n)) (nodes s) of
       None \<Rightarrow> Inl ErrUnauthorized
     | Some n \<Rightarrow>
         (case n_public_key n of
            None \<Rightarrow> Inl ErrUnauthorized
          | Some pub \<Rightarrow>
              if length pub \<noteq> 32 then Inl ErrUnauthorized
              else newNodeChallenge E s (if n_state n = DomainPending then ''domain_change'' else ''session'')
                     rid (n_domain n) pub inst nonce now))"

text \<open>The transaction before the domain of a \<^verbatim>\<open>domain_change\<close> is verified.\<close>

definition renew_check :: "env \<Rightarrow> store \<Rightarrow> node_challenge \<Rightarrow> string \<Rightarrow> time \<Rightarrow> unit result" where
  "renew_check E s c sig now =
     bindE (checkNodeChallenge E s c sig ''domain_change'' now) (\<lambda>_.
     failIf (\<not> list_ex (\<lambda>n. n_id n = ch_NodeID c \<and> n_domain n = ch_Domain c \<and> n_public_key n = Some (ch_PublicKey c)
        \<and> n_state n = DomainPending \<and> user_enabled s (n_owner_id n)) (nodes s)) ErrUnauthorized)"

definition renewable :: "store \<Rightarrow> node_challenge \<Rightarrow> node_row option" where
  "renewable s c = find (\<lambda>n. n_id n = ch_NodeID c \<and> n_domain n = ch_Domain c
     \<and> (ch_Purpose c = ''session'' \<and> serving_state (n_state n) \<or> ch_Purpose c = ''domain_change'' \<and> n_state n = DomainPending)
     \<and> user_enabled s (n_owner_id n)) (nodes s)"

text \<open>A second instance while the first one's lease runs: nobody keeps a session.\<close>

definition renew_conflict :: "env \<Rightarrow> store \<Rightarrow> node_challenge \<Rightarrow> node_row \<Rightarrow> time \<Rightarrow> store result" where
  "renew_conflict E s c n now =
     (let rid = ch_NodeID c;
          s1 = update_node rid (\<lambda>n. n\<lparr>n_state := IdentityConflict,
                 n_last_error := ''node identity is active on another instance''\<rparr>) s;
          s2 = use_challenge E c now (s1\<lparr>node_sessions := delete_where (\<lambda>r. ns_node_id r = rid) (node_sessions s1)\<rparr>);
          s3 = writeAudit (''node:'' @ rid) (n_owner_id n) ''node'' rid ''node.identity_conflict'' now
                 (insert_event (n_owner_id n) ''node'' rid ''identity_conflict''
                    ''Node identity was presented by another running instance.'' now s2)
      in bindE (buildPolicy E s3 rid now) (\<lambda>(_, s4). Inr (notifyPolicy rid s4)))"

definition renew_grant :: "env \<Rightarrow> store \<Rightarrow> node_challenge \<Rightarrow> node_row \<Rightarrow> string \<Rightarrow> time \<Rightarrow> (node_session \<times> store) result" where
  "renew_grant E s c n token now =
     (let rid = ch_NodeID c;
          s1 = update_node rid (\<lambda>n. n\<lparr>n_instance_id := ch_InstanceID c, n_lease_until := unix (now + 90 * second),
                 n_state := if n_state n = DomainPending then Registered else n_state n\<rparr>) (use_challenge E c now s);
          s2 = (if ch_Purpose c = ''domain_change''
                then writeAudit (''node:'' @ rid) (n_owner_id n) ''node'' rid ''node.domain.verify'' now
                       (update_node rid (\<lambda>n. n\<lparr>n_domain_verified_at := unix now\<rparr>) s1)
                else s1)
      in mintNodeSession E s2 rid (ch_InstanceID c) token now)"

text \<open>The conflict is committed and reported, so the store may change although no session is given.\<close>

definition renew_commit ::
    "env \<Rightarrow> store \<Rightarrow> node_challenge \<Rightarrow> string \<Rightarrow> string \<Rightarrow> time \<Rightarrow> node_session result \<times> store" where
  "renew_commit E s c sig token now =
     (case checkNodeChallenge E s c sig (ch_Purpose c) now of
        Inl e \<Rightarrow> (Inl e, s)
      | Inr _ \<Rightarrow>
          (case renewable s c of
             None \<Rightarrow> (Inl ErrUnauthorized, s)
           | Some n \<Rightarrow>
               if n_public_key n \<noteq> Some (ch_PublicKey c) then (Inl ErrUnauthorized, s)
               else if n_instance_id n \<noteq> ch_InstanceID c \<and> unix now < n_lease_until n
               then (case renew_conflict E s c n now of Inl e \<Rightarrow> (Inl e, s) | Inr s' \<Rightarrow> (Inl ErrIdentityConflict, s'))
               else (case renew_grant E s c n token now of Inl e \<Rightarrow> (Inl e, s) | Inr (session, s') \<Rightarrow> (Inr session, s'))))"

definition RenewNodeSession ::
    "env \<Rightarrow> store \<Rightarrow> store \<Rightarrow> bool \<Rightarrow> node_challenge \<Rightarrow> string \<Rightarrow> string \<Rightarrow> time \<Rightarrow> time \<Rightarrow> node_session result \<times> store" where
  "RenewNodeSession E s s' verified c sig token now now' =
     (if ch_Purpose c \<noteq> ''session'' \<and> ch_Purpose c \<noteq> ''domain_change'' then (Inl ErrUnauthorized, s')
      else if ch_Purpose c = ''domain_change''
      then (case renew_check E s c sig now of
              Inl e \<Rightarrow> (Inl e, s')
            | Inr _ \<Rightarrow> if \<not> verified then (Inl ErrUnauthorized, s') else renew_commit E s' c sig token now')
      else renew_commit E s' c sig token now')"

definition RecoverNodeInstance :: "env \<Rightarrow> store \<Rightarrow> actor \<Rightarrow> string \<Rightarrow> string \<Rightarrow> time \<Rightarrow> store result" where
  "RecoverNodeInstance E s actor rid inst now =
     bindE (failIf (\<not> validNodeInstance inst) ErrInvalid) (\<lambda>_.
     bindE (activeActor s actor) (\<lambda>_.
     bindE (select_node s rid) (\<lambda>n.
     bindE (RequireOwner actor (n_owner_id n)) (\<lambda>_.
     bindE (failIf (n_state n \<noteq> IdentityConflict) ErrConflict) (\<lambda>_.
     let s1 = update_node rid (\<lambda>n. n\<lparr>n_state := Registered, n_instance_id := inst,
                n_lease_until := unix (now + 90 * second), n_last_error := []\<rparr>) s;
         s2 = s1\<lparr>node_sessions := delete_where (\<lambda>r. ns_node_id r = rid) (node_sessions s1),
                 node_challenges := delete_where (\<lambda>c. nc_node_id c = rid) (node_challenges s1)\<rparr>;
         s3 = resolve_events (\<lambda>e. ev_resource_type e = ''node'' \<and> ev_resource_id e = rid \<and> ev_kind e = ''identity_conflict'') now s2;
         s4 = writeAudit (ac_ID actor) (n_owner_id n) ''node'' rid ''node.recover'' now s3
     in bindE (buildPolicy E s4 rid now) (\<lambda>(_, s5). Inr (notifyPolicy rid s5)))))))"

text \<open>\<^verbatim>\<open>AuthenticateNode\<close> runs \<^verbatim>\<open>nodeSession\<close> in a transaction of its own.\<close>

definition live_session :: "env \<Rightarrow> store \<Rightarrow> string \<Rightarrow> time \<Rightarrow> (node_session_row \<times> node_row) option" where
  "live_session E s token now =
     (case find (\<lambda>r. ns_token_hash r = tokenHash E token \<and> unix now < ns_expires_at r) (node_sessions s) of
        None \<Rightarrow> None
      | Some r \<Rightarrow> map_option (Pair r) (find (\<lambda>n. n_id n = ns_node_id r \<and> ns_instance_id r = n_instance_id n
           \<and> serving_state (n_state n) \<and> user_enabled s (n_owner_id n)) (nodes s)))"

definition nodeSession :: "env \<Rightarrow> store \<Rightarrow> string \<Rightarrow> time \<Rightarrow> node_session result" where
  "nodeSession E s token now =
     bindE (failIf (length token \<noteq> 64 \<or> \<not> hex_ok token) ErrUnauthorized) (\<lambda>_.
     case live_session E s token now of
       None \<Rightarrow> Inl ErrUnauthorized
     | Some (r, n) \<Rightarrow> Inr \<lparr>ses_ClusterID = clusterID s, ses_NodeID = n_id n, ses_InstanceID = n_instance_id n, ses_Token = [],
          ses_ExpiresAt = unix_time (ns_expires_at r), ses_LeaseUntil = unix_time (n_lease_until n)\<rparr>)"

definition AuthenticateNode :: "env \<Rightarrow> store \<Rightarrow> string \<Rightarrow> time \<Rightarrow> node_session result" where
  "AuthenticateNode = nodeSession"

text \<open>\<^verbatim>\<open>setNodePorts\<close> (resources.go) and the node's own operations.\<close>

definition setNodePorts :: "store \<Rightarrow> node_row \<Rightarrow> string \<Rightarrow> int \<Rightarrow> int \<Rightarrow> time \<Rightarrow> store result" where
  "setNodePorts s n actorID derpPort stunPort now =
     (if bad_port derpPort \<or> bad_port stunPort then Inl ErrInvalid
      else if derpPort = n_derp_port n \<and> stunPort = n_stun_port n then Inr s
      else let s1 = update_node (n_id n) (\<lambda>m. m\<lparr>n_derp_port := derpPort, n_stun_port := stunPort\<rparr>) s;
               s2 = s1\<lparr>node_observations := update_where (\<lambda>x. o_node_id x = n_id n) (\<lambda>x. x\<lparr>o_probes := None\<rparr>) (node_observations s1)\<rparr>
           in Inr (writeAudit actorID (n_owner_id n) ''node'' (n_id n) ''node.ports.change'' now s2))"

definition SetNodeSessionPorts :: "env \<Rightarrow> store \<Rightarrow> string \<Rightarrow> int \<Rightarrow> int \<Rightarrow> time \<Rightarrow> store result" where
  "SetNodeSessionPorts E s token derpPort stunPort now =
     bindE (nodeSession E s token now) (\<lambda>session.
     bindE (select_node s (ses_NodeID session)) (\<lambda>n.
     setNodePorts s n (''node:'' @ n_id n) derpPort stunPort now))"

definition ReleaseNode :: "env \<Rightarrow> store \<Rightarrow> string \<Rightarrow> time \<Rightarrow> store result" where
  "ReleaseNode E s token now =
     bindE (nodeSession E s token now) (\<lambda>session.
     bindE (releaseNode E s (ses_NodeID session) now) (\<lambda>s1. Inr (closeNodeStream (ses_NodeID session) s1)))"

section \<open>Consistency\<close>

lemma refs_insert: "refs k xs K \<Longrightarrow> refs k xs (insert a K)"
  by (auto simp: refs_def)

lemma db_inv_nodes_insert:
  assumes "db_inv E s" and "n_id n \<notin> node_ids s" and "n_domain n \<notin> n_domain ` set (nodes s)"
    and "n_region_id n \<notin> n_region_id ` set (nodes s)" and "n_owner_id n \<in> provider_ids s" and "node_ok n"
  shows "db_inv E (s\<lparr>nodes := nodes s @ [n]\<rparr>)"
proof -
  have "rules_inv (insert (n_id n, n_owner_id n) (node_owners s)) (tailnet_owners s) (tailnet_rules s)"
  proof -
    have "rule_ok (insert (n_id n, n_owner_id n) (node_owners s)) (tailnet_owners s) r"
      if "rule_ok (node_owners s) (tailnet_owners s) r" for r
    proof -
      have "fst ` node_owners s = node_ids s" by (simp add: node_owners_def node_ids_def image_image)
      with that assms(2) have "r_node_id r \<noteq> n_id n" by (metis rule_ok_def)
      with that show ?thesis by (simp add: rule_ok_def)
    qed
    with assms(1) show ?thesis by (simp add: db_inv_def rules_inv_def list_all_iff)
  qed
  moreover have "node_ids (s\<lparr>nodes := nodes s @ [n]\<rparr>) = insert (n_id n) (node_ids s)"
    "node_owners (s\<lparr>nodes := nodes s @ [n]\<rparr>) = insert (n_id n, n_owner_id n) (node_owners s)"
    "user_ids (s\<lparr>nodes := nodes s @ [n]\<rparr>) = user_ids s" "provider_ids (s\<lparr>nodes := nodes s @ [n]\<rparr>) = provider_ids s"
    "tailnet_ids (s\<lparr>nodes := nodes s @ [n]\<rparr>) = tailnet_ids s" "setting k (s\<lparr>nodes := nodes s @ [n]\<rparr>) = setting k s"
    "tailnet_owners (s\<lparr>nodes := nodes s @ [n]\<rparr>) = tailnet_owners s" for k
    by (simp_all add: db_sets)
  moreover have "nodes_inv (provider_ids s) (nodes s @ [n])"
    using assms by (simp add: db_inv_def nodes_inv_def row_rules node_ids_def)
  ultimately show ?thesis
    using assms(1)
    by (simp add: db_inv_def enrollments_inv_def node_sessions_inv_def grants_inv_def policies_inv_def
        challenges_inv_def observations_inv_def refs_insert)
qed

lemma db_inv_policies_insert:
  "db_inv E s \<Longrightarrow> pr_node_id r \<in> node_ids s \<Longrightarrow> pr_node_id r \<notin> pr_node_id ` set (node_policies s)
    \<Longrightarrow> policy_row_ok E (setting ''cluster_id'' s) r \<Longrightarrow> db_inv E (s\<lparr>node_policies := node_policies s @ [r]\<rparr>)"
  by (simp add: db_inv_def db_sets policies_inv_def row_rules)

lemma unique_update_other:
  assumes "unique k xs" and "unique h xs" and "v \<notin> h ` set xs" and "\<And>x. h (f x) = v"
  shows "unique h (update_where (\<lambda>x. k x = a) f xs)"
  using assms(1-3)
proof (induction xs)
  case (Cons x xs)
  have "update_where (\<lambda>y. k y = a) f xs = xs" if "k x = a"
  proof -
    have "\<forall>y\<in>set xs. k y \<noteq> a" using Cons.prems(1) that by (simp add: unique_def) (metis image_eqI)
    then show ?thesis unfolding update_where_def by (intro map_idI) simp
  qed
  moreover have "h x \<notin> h ` set (update_where (\<lambda>y. k y = a) f xs)"
    using Cons.prems assms(4) by (auto simp: set_update_where unique_def split: if_splits)
  ultimately show ?case using Cons assms(4) by (auto simp: unique_def)
qed simp

lemma upsert_enrollment_inv:
  assumes "upsert_enrollment e s = Inr s'" and "e_node_id e \<in> node_ids s" and "db_inv E s"
  shows "db_inv E s'"
proof -
  let ?f = "\<lambda>x. x\<lparr>e_owner_id := e_owner_id e, e_code_hash := e_code_hash e, e_expires_at := e_expires_at e,
    e_consumed_at := 0, e_request_hash := None, e_response := None\<rparr>"
  from assms(1) have h: "e_code_hash e \<notin> e_code_hash ` set (enrollments s)"
    and s': "s' = s\<lparr>enrollments := upsert_row e_node_id e ?f (enrollments s)\<rparr>"
    by (auto simp: upsert_enrollment_def split: if_splits)
  from assms(3) have inv: "enrollments_inv (node_ids s) (enrollments s)" by (simp add: db_inv_def)
  have upd: "unique e_code_hash (update_where (\<lambda>x. e_node_id x = e_node_id e) ?f (enrollments s))"
    using inv h by (intro unique_update_other [where v = "e_code_hash e"]) (simp_all add: enrollments_inv_def)
  have "enrollments_inv (node_ids s) (upsert_row e_node_id e ?f (enrollments s))"
    using inv upd h assms(2)
    by (auto simp: enrollments_inv_def upsert_row_def unique_update_where refs_update_where row_rules)
  with assms(3) show ?thesis by (simp add: s' db_inv_def db_sets)
qed

lemma issueEnrollment_Inr:
  assumes "issueEnrollment E s n code now = Inr (e, s')"
  obtains row s1 where "upsert_enrollment row s = Inr s1" "e_node_id row = n_id n" "e_owner_id row = n_owner_id n"
    "e_code_hash row = tokenHash E code" "e_expires_at row = unix (en_ExpiresAt e)" "e_consumed_at row = 0"
    "s' = s1\<lparr>node_challenges := delete_where (\<lambda>c. nc_node_id c = n_id n) (node_challenges s1)\<rparr>"
    "en_NodeID e = n_id n" "en_Domain e = n_domain n" "en_Code e = code"
    "en_ExpiresAt e = truncate_second (now + 1800 * second)"
  using assms unfolding issueEnrollment_def Let_def bindE_Inr_iff by (auto intro: that)

lemma issueEnrollment_inv:
  assumes "issueEnrollment E s n code now = Inr (e, s')" and "n_id n \<in> node_ids s" and "db_inv E s"
  shows "db_inv E s'"
  using assms(1)
proof (rule issueEnrollment_Inr)
  fix row s1
  assume "upsert_enrollment row s = Inr s1" "e_node_id row = n_id n"
    and s': "s' = s1\<lparr>node_challenges := delete_where (\<lambda>c. nc_node_id c = n_id n) (node_challenges s1)\<rparr>"
  with assms(2,3) have "db_inv E s1" by (metis upsert_enrollment_inv)
  then show ?thesis unfolding s' by (rule db_inv_node_tables)
qed

lemma insert_setting_inv:
  assumes "db_inv E s"
  shows "db_inv E (insert_setting k v s)"
proof (cases "setting k s")
  case (Some x)
  then show ?thesis using assms by (simp add: insert_setting_def)
next
  case None
  have "policy_row_ok E (setting ''cluster_id'' (s\<lparr>settings := settings s @ [(k, v)]\<rparr>)) r"
    if "policy_row_ok E (setting ''cluster_id'' s) r" for r
    using that None by (auto simp: policy_row_ok_def setting_def map_add_Some_iff split: option.splits)
  moreover have "setting ''cluster_id'' (s\<lparr>settings := settings s @ [(k, v)]\<rparr>) = Some (clusterID s)"
    if "setting ''cluster_id'' s = Some (clusterID s)"
    using that None by (auto simp: setting_def map_add_Some_iff)
  ultimately show ?thesis
    using assms None unfolding insert_setting_def db_inv_def
    by (auto simp: user_ids_def provider_ids_def node_ids_def tailnet_ids_def node_owners_def tailnet_owners_def
        policies_inv_def list_all_iff)
qed

lemma db_inv_clusterID:
  "db_inv E s \<Longrightarrow> setting ''cluster_id'' s = Some cid \<Longrightarrow> db_inv E (s\<lparr>clusterID := cid\<rparr>)"
  by (simp add: db_inv_def db_sets)

lemma ConfigureNodes_Inr:
  assumes "ConfigureNodes s allowedCIDRs token = Inr (ps, s')"
  obtains cid where "setting ''cluster_id'' (default_settings token s) = Some cid"
    "s' = (default_settings token s)\<lparr>clusterID := cid\<rparr>" "ps = map the allowedCIDRs" "None \<notin> set allowedCIDRs"
  using assms unfolding ConfigureNodes_def by (auto simp: bindE_Inr_iff failIf_Inr_iff split: option.splits intro: that)

lemma ConfigureNodes_inv [inv_intros]:
  assumes "ConfigureNodes s allowedCIDRs token = Inr (ps, s')" and "db_inv E s"
  shows "db_inv E s'"
  using assms(1)
proof (rule ConfigureNodes_Inr)
  fix cid
  assume "setting ''cluster_id'' (default_settings token s) = Some cid" "s' = (default_settings token s)\<lparr>clusterID := cid\<rparr>"
  moreover have "db_inv E (default_settings token s)"
    unfolding default_settings_def using assms(2) by (intro insert_setting_inv)
  ultimately show ?thesis by (simp add: db_inv_clusterID)
qed

text \<open>An active actor with a role may own nodes; the local administrator is no user.\<close>

lemma activeActor_provider:
  assumes "activeActor s actor = Inr ()" and "ac_Role actor = ''admin'' \<or> ac_Role actor = ''provider''"
    and "''local'' \<notin> user_ids s" and "ac_ID actor \<in> user_ids s"
  shows "ac_ID actor \<in> provider_ids s"
proof -
  from assms(3,4) have "ac_ID actor \<noteq> ''local''" by auto
  with assms(1) obtain u where "find (\<lambda>u. u_id u = ac_ID actor \<and> u_enabled u) (users s) = Some u" "u_role u = ac_Role actor"
    by (auto simp: activeActor_def failIf_Inr_iff split: option.splits)
  with assms(2) show ?thesis using find_SomeD by (fastforce simp: provider_ids_def intro!: image_eqI [of _ _ u])
qed

lemma free_region_range: "free_region s = Some r \<Longrightarrow> 900 \<le> r \<and> r < 1000 \<and> r \<notin> n_region_id ` set (nodes s)"
  unfolding free_region_def by (drule find_SomeD) auto

lemma CreateNode_Inr:
  assumes "CreateNode E s actor name rawDomain derpPort stunPort rid code now = Inr (nd, e, s')"
  obtains domain region s1 s2 where "ac_Role actor = ''admin'' \<or> ac_Role actor = ''provider''"
    "\<not> bad_port derpPort" "\<not> bad_port stunPort" "normalizeNodeDomain rawDomain = Inr domain" "activeActor s actor = Inr ()"
    "may_act actor (ac_ID actor)" "free_region s = Some region"
    "insert_node (new_node rid (ac_ID actor) domain derpPort stunPort name region) s = Inr s1"
    "issueEnrollment E s1 (new_node rid (ac_ID actor) domain derpPort stunPort name region) code now = Inr (e, s2)"
    "nd = scanNode (new_node rid (ac_ID actor) domain derpPort stunPort name region)"
    "s' = writeAudit (ac_ID actor) (ac_ID actor) ''node'' rid ''node.create'' now s2"
  using assms unfolding CreateNode_def Let_def
  by (auto simp: bindE_Inr_iff failIf_Inr_iff RequireOwner_Inr new_node_def split: sum.splits option.splits intro: that)

lemma insert_node_Inr:
  "insert_node n s = Inr s' \<longleftrightarrow> n_id n \<notin> n_id ` set (nodes s) \<and> n_domain n \<notin> n_domain ` set (nodes s)
     \<and> n_region_id n \<notin> n_region_id ` set (nodes s) \<and> n_owner_id n \<in> u_id ` set (users s) \<and> s' = s\<lparr>nodes := nodes s @ [n]\<rparr>"
  by (auto simp: insert_node_def)

lemma CreateNode_inv [inv_intros]:
  assumes "CreateNode E s actor name rawDomain derpPort stunPort rid code now = Inr (nd, e, s')"
    and "db_inv E s"
  shows "db_inv E s'"
  using assms(1)
proof (rule CreateNode_Inr)
  fix domain region s1 s2
  let ?n = "new_node rid (ac_ID actor) domain derpPort stunPort name region"
  assume role: "ac_Role actor = ''admin'' \<or> ac_Role actor = ''provider''" and ports: "\<not> bad_port derpPort" "\<not> bad_port stunPort"
    and act: "activeActor s actor = Inr ()" and region: "free_region s = Some region"
    and ins: "insert_node ?n s = Inr s1" and e: "issueEnrollment E s1 ?n code now = Inr (e, s2)"
    and s': "s' = writeAudit (ac_ID actor) (ac_ID actor) ''node'' rid ''node.create'' now s2"
  have sel: "n_id ?n = rid" "n_domain ?n = domain" "n_region_id ?n = region" "n_owner_id ?n = ac_ID actor"
    by (simp_all add: new_node_def)
  have "node_ok ?n"
    using ports free_region_range [OF region] by (auto simp: node_ok_def new_node_def port_ok_def bad_port_def)
  moreover have "ac_ID actor \<in> provider_ids s"
    using ins activeActor_provider [OF act role db_inv_local [OF assms(2)]] by (simp add: insert_node_Inr sel user_ids_def)
  ultimately have "db_inv E (s\<lparr>nodes := nodes s @ [?n]\<rparr>)"
    using ins assms(2) by (intro db_inv_nodes_insert) (simp_all add: insert_node_Inr sel node_ids_def)
  with ins have "db_inv E s1" and "n_id ?n \<in> node_ids s1" by (auto simp: insert_node_Inr node_ids_def)
  from issueEnrollment_inv [OF e this(2,1)] show ?thesis by (simp add: s')
qed

lemma policy_row_ok_reset: "policy_row_ok E cid r \<Longrightarrow> policy_row_ok E cid (reset_policy_row r)"
  by (auto simp: policy_row_ok_def reset_policy_row_def)

definition released :: "string \<Rightarrow> store \<Rightarrow> store" where
  "released rid s = update_policy_row rid reset_policy_row
     (revoke_node_grants rid (update_node rid release_node_row (clear_node_tables rid s)))"

lemma released_inv: "db_inv E s \<Longrightarrow> db_inv E (released rid s)"
  unfolding released_def
proof (rule db_inv_update_policy_row)
  assume "db_inv E s"
  then have "db_inv E (clear_node_tables rid s)" by (rule db_inv_node_tables)
  then have "db_inv E (update_node rid release_node_row (clear_node_tables rid s))"
    by (rule db_inv_update_node) (simp_all add: release_node_row_def node_ok_def)
  then show "db_inv E (revoke_node_grants rid (update_node rid release_node_row (clear_node_tables rid s)))"
    unfolding revoke_node_grants_def by (rule db_inv_grants_update) simp_all
qed (simp_all add: policy_row_ok_reset, simp add: reset_policy_row_def)

lemma releaseNode_cases:
  assumes "releaseNode E s rid now = Inr s'"
  obtains p where "buildPolicy E (released rid s) rid now = Inr (p, s')"
  | "rid \<notin> pr_node_id ` set (node_policies (released rid s))" "s' = released rid s"
  using assms unfolding releaseNode_def released_def [symmetric] Let_def
  by (auto simp: bindE_Inr_iff split: if_splits)

lemma releaseNode_inv: "releaseNode E s rid now = Inr s' \<Longrightarrow> db_inv E s \<Longrightarrow> db_inv E s'"
  by (erule releaseNode_cases) (auto dest: buildPolicy_inv released_inv)

lemma releaseNode_nodes: "releaseNode E s rid now = Inr s' \<Longrightarrow> nodes s' = update_where (\<lambda>n. n_id n = rid) release_node_row (nodes s)"
  by (erule releaseNode_cases)
    (auto dest!: buildPolicy_same dest: same_tables simp: released_def update_policy_row_def revoke_node_grants_def
      update_node_def clear_node_tables_def)

lemma select_node_Inr: "select_node s rid = Inr n \<Longrightarrow> n \<in> set (nodes s) \<and> n_id n = rid \<and> rid \<in> node_ids s"
  by (auto simp: select_node_def node_ids_def dest: query_row_InrD)

lemma IssueEnrollment_Inr:
  assumes "IssueEnrollment E s actor rid code now = Inr (e, s')"
  obtains n s1 s2 where "activeActor s actor = Inr ()" "select_node s rid = Inr n" "may_act actor (n_owner_id n)"
    "(if n_state n \<noteq> Pending then releaseNode E s rid now else Inr s) = Inr s1"
    "issueEnrollment E s1 n code now = Inr (e, s2)"
    "s' = closeNodeStream rid (writeAudit (ac_ID actor) (n_owner_id n) ''node'' rid ''enrollment.issue'' now s2)"
  using assms unfolding IssueEnrollment_def
  by (auto simp: bindE_Inr_iff RequireOwner_Inr simp del: if_split_asm intro: that)

lemma IssueEnrollment_inv [inv_intros]:
  assumes "IssueEnrollment E s actor rid code now = Inr (e, s')" and "db_inv E s"
  shows "db_inv E s'"
  using assms(1)
proof (rule IssueEnrollment_Inr)
  fix n s1 s2
  assume n: "select_node s rid = Inr n" and s1: "(if n_state n \<noteq> Pending then releaseNode E s rid now else Inr s) = Inr s1"
    and e: "issueEnrollment E s1 n code now = Inr (e, s2)"
    and s': "s' = closeNodeStream rid (writeAudit (ac_ID actor) (n_owner_id n) ''node'' rid ''enrollment.issue'' now s2)"
  have "db_inv E s1" using s1 assms(2) by (auto dest: releaseNode_inv split: if_splits)
  moreover have "n_id n \<in> node_ids s1"
    using s1 select_node_Inr [OF n]
    by (auto simp: node_ids_def image_update_where [of n_id release_node_row] release_node_row_def dest!: releaseNode_nodes split: if_splits)
  ultimately have "db_inv E s2" using issueEnrollment_inv [OF e] by blast
  then show ?thesis by (simp add: s' db_inv_close)
qed

subsection \<open>Challenges and sessions\<close>

lemma prune_challenges_inv: "db_inv E s \<Longrightarrow> db_inv E (prune_challenges rid now s)"
  unfolding prune_challenges_def by (rule db_inv_node_tables)

lemma newNodeChallenge_Inr:
  assumes "newNodeChallenge E s purpose rid domain pub inst nonce now = Inr (c, s')"
  obtains row where "nc_nonce_hash row = tokenHash E nonce" "nc_node_id row = rid" "nc_payload row = c"
    "nc_used_at row = 0" "nc_expires_at row = unix (ch_ExpiresAt c)"
    "c = \<lparr>ch_Purpose = purpose, ch_ClusterID = clusterID s, ch_NodeID = rid, ch_Domain = domain, ch_Nonce = nonce,
       ch_ExpiresAt = truncate_second (now + 120 * second), ch_PublicKey = pub, ch_InstanceID = inst\<rparr>"
    "tokenHash E nonce \<notin> nc_nonce_hash ` set (node_challenges (prune_challenges rid now s))"
    "length (filter (\<lambda>x. nc_node_id x = rid) (node_challenges (prune_challenges rid now s))) < 8"
    "s' = (prune_challenges rid now s)\<lparr>node_challenges := node_challenges (prune_challenges rid now s) @ [row]\<rparr>"
proof -
  define s1 where "s1 = prune_challenges rid now s"
  define c0 where "c0 = \<lparr>ch_Purpose = purpose, ch_ClusterID = clusterID s, ch_NodeID = rid, ch_Domain = domain, ch_Nonce = nonce,
       ch_ExpiresAt = truncate_second (now + 120 * second), ch_PublicKey = pub, ch_InstanceID = inst\<rparr>"
  define row where "row = \<lparr>nc_nonce_hash = tokenHash E nonce, nc_node_id = rid, nc_payload = c0,
    nc_expires_at = unix (ch_ExpiresAt c0), nc_used_at = 0\<rparr>"
  have "c = c0 \<and> tokenHash E nonce \<notin> nc_nonce_hash ` set (node_challenges s1)
      \<and> length (filter (\<lambda>x. nc_node_id x = rid) (node_challenges s1)) < 8
      \<and> s' = s1\<lparr>node_challenges := node_challenges s1 @ [row]\<rparr>"
    using assms unfolding newNodeChallenge_def Let_def s1_def [symmetric] c0_def [symmetric] row_def [symmetric] bindE_Inr_iff
      insert_row_Inr
    by (simp only: not_le [symmetric] split: if_split_asm) (auto simp: bindE_Inr_iff insert_row_Inr row_def)
  then show thesis by (intro that [of row]) (simp_all add: row_def s1_def c0_def)
qed

lemma newNodeChallenge_inv:
  assumes "newNodeChallenge E s purpose rid domain pub inst nonce now = Inr (c, s')" and "rid \<in> node_ids s" and "db_inv E s"
  shows "db_inv E s'"
  using assms(1)
proof (rule newNodeChallenge_Inr)
  fix row
  assume "nc_nonce_hash row = tokenHash E nonce" "nc_node_id row = rid"
    and "tokenHash E nonce \<notin> nc_nonce_hash ` set (node_challenges (prune_challenges rid now s))"
    and s': "s' = (prune_challenges rid now s)\<lparr>node_challenges := node_challenges (prune_challenges rid now s) @ [row]\<rparr>"
  then show ?thesis unfolding s'
    using assms(2) prune_challenges_inv [OF assms(3)]
    by (intro db_inv_challenge_insert) (simp_all add: node_ids_def prune_challenges_def)
qed

lemma open_enrollment_Some:
  assumes "open_enrollment E s code pub now = Some n"
  shows "n \<in> set (nodes s)" "n_state n = Pending" "n_public_key n = None \<or> n_public_key n = Some pub"
    "user_enabled s (n_owner_id n)"
    "\<exists>e\<in>set (enrollments s). e_code_hash e = tokenHash E code \<and> e_node_id e = n_id n \<and> unix now < e_expires_at e
       \<and> e_consumed_at e = 0 \<and> e_owner_id e = n_owner_id n"
  using assms by (auto simp: open_enrollment_def split: option.splits dest!: find_SomeD)

lemma EnrollmentChallenge_Inr:
  assumes "EnrollmentChallenge E s code pub inst nonce now = Inr (c, s')"
  obtains n where "open_enrollment E s code pub now = Some n"
    "newNodeChallenge E s ''enroll'' (n_id n) (n_domain n) pub inst nonce now = Inr (c, s')"
  using assms unfolding EnrollmentChallenge_def
  by (auto simp: bindE_Inr_iff split: option.splits intro: that)

lemma EnrollmentChallenge_inv [inv_intros]:
  assumes "EnrollmentChallenge E s code pub inst nonce now = Inr (c, s')" and "db_inv E s"
  shows "db_inv E s'"
  using assms(1)
proof (rule EnrollmentChallenge_Inr)
  fix n assume "open_enrollment E s code pub now = Some n"
    and c: "newNodeChallenge E s ''enroll'' (n_id n) (n_domain n) pub inst nonce now = Inr (c, s')"
  from open_enrollment_Some(1) [OF this(1)] have "n_id n \<in> node_ids s" by (simp add: node_ids_def)
  from newNodeChallenge_inv [OF c this assms(2)] show ?thesis .
qed

lemma SessionChallenge_Inr:
  assumes "SessionChallenge E s rid inst nonce now = Inr (c, s')"
  obtains n pub where "n \<in> set (nodes s)" "n_id n = rid" "n_public_key n = Some pub"
    "newNodeChallenge E s (if n_state n = DomainPending then ''domain_change'' else ''session'') rid (n_domain n) pub inst nonce now
      = Inr (c, s')"
  using assms unfolding SessionChallenge_def bindE_Inr_iff
  by (auto split: option.splits if_splits dest!: find_SomeD intro: that)

lemma SessionChallenge_inv [inv_intros]:
  assumes "SessionChallenge E s rid inst nonce now = Inr (c, s')" and "db_inv E s"
  shows "db_inv E s'"
  using assms(1)
proof (rule SessionChallenge_Inr)
  fix n pub assume "n \<in> set (nodes s)" "n_id n = rid"
    and c: "newNodeChallenge E s (if n_state n = DomainPending then ''domain_change'' else ''session'')
      rid (n_domain n) pub inst nonce now = Inr (c, s')"
  then have "rid \<in> node_ids s" by (auto simp: node_ids_def)
  from newNodeChallenge_inv [OF c this assms(2)] show ?thesis .
qed

lemma use_challenge_inv: "db_inv E s \<Longrightarrow> db_inv E (use_challenge E' c now s)"
  unfolding use_challenge_def by (rule db_inv_challenge_update) simp_all

lemma mintNodeSession_Inr:
  assumes "mintNodeSession E s rid inst token now = Inr (session, s')"
  obtains row where "ns_token_hash row = tokenHash E token" "ns_node_id row = rid" "ns_instance_id row = inst"
    "ns_expires_at row = unix (ses_ExpiresAt session)" "ses_ExpiresAt session = truncate_second (now + 3600 * second)"
    "ses_NodeID session = rid" "ses_InstanceID session = inst" "ses_Token session = token" "ses_ClusterID session = clusterID s"
    "tokenHash E token \<notin> ns_token_hash ` set (delete_where (\<lambda>r. ns_node_id r = rid) (node_sessions s))"
    "s' = s\<lparr>node_sessions := delete_where (\<lambda>r. ns_node_id r = rid) (node_sessions s) @ [row]\<rparr>"
proof -
  let ?row = "\<lparr>ns_token_hash = tokenHash E token, ns_node_id = rid, ns_instance_id = inst,
    ns_expires_at = unix (truncate_second (now + 3600 * second))\<rparr>"
  show thesis
    by (rule that [of ?row])
      (use assms in \<open>auto simp: mintNodeSession_def Let_def bindE_Inr_iff insert_row_Inr simp del: set_delete_where\<close>)
qed

lemma mintNodeSession_inv:
  assumes "mintNodeSession E s rid inst token now = Inr (session, s')" and "rid \<in> node_ids s" and "db_inv E s"
  shows "db_inv E s'"
  using assms(1)
proof (rule mintNodeSession_Inr)
  fix row
  let ?s1 = "s\<lparr>node_sessions := delete_where (\<lambda>r. ns_node_id r = rid) (node_sessions s)\<rparr>"
  assume row: "ns_token_hash row = tokenHash E token" "ns_node_id row = rid"
    "tokenHash E token \<notin> ns_token_hash ` set (delete_where (\<lambda>r. ns_node_id r = rid) (node_sessions s))"
    and s': "s' = s\<lparr>node_sessions := delete_where (\<lambda>r. ns_node_id r = rid) (node_sessions s) @ [row]\<rparr>"
  have "db_inv E ?s1" using assms(3) by (rule db_inv_node_tables)
  then have "db_inv E (?s1\<lparr>node_sessions := node_sessions ?s1 @ [row]\<rparr>)"
    using row assms(2) by (intro db_inv_node_session_insert) (auto simp: node_ids_def)
  then show ?thesis by (simp add: s')
qed

lemma node_ids_update_node [simp]: "(\<And>n. n_id (f n) = n_id n) \<Longrightarrow> node_ids (update_node rid f s) = node_ids s"
  by (simp add: node_ids_def update_node_def image_update_where)

lemma node_ids_frame [simp]:
  "node_ids (use_challenge E c now s) = node_ids s" "node_ids (writeAudit a b d e f now s) = node_ids s"
  by (simp_all add: node_ids_def use_challenge_def writeAudit_def)

lemma register_node_inv: "db_inv E s \<Longrightarrow> db_inv E (register_node c now s)"
  unfolding register_node_def by (rule db_inv_update_node) (simp_all add: node_ok_def)

lemma ensure_policy_row_inv: "db_inv E s \<Longrightarrow> rid \<in> node_ids s \<Longrightarrow> db_inv E (ensure_policy_row rid s)"
  by (auto simp: ensure_policy_row_def default_policy_row_def policy_row_ok_def validCeiling_def validWeight_def MaxInt64_def
      intro!: db_inv_policies_insert)

lemma node_ids_build: "buildPolicy E s node now = Inr (p, s') \<Longrightarrow> node_ids s' = node_ids s"
  using same_tables(6) [OF buildPolicy_same] by (simp add: node_ids_def)

lemma enroll_register_Inr:
  assumes "enroll_register E s req n token nonce now = Inr (session, s')"
  obtains p s1 s2 where
    "buildPolicy E (ensure_policy_row (ch_NodeID (er_Challenge req)) (register_node (er_Challenge req) now s))
       (ch_NodeID (er_Challenge req)) now = Inr (p, s1)"
    "mintNodeSession E (use_challenge E (er_Challenge req) now s1) (ch_NodeID (er_Challenge req))
       (ch_InstanceID (er_Challenge req)) token now = Inr (session, s2)"
    "s' = writeAudit (''node:'' @ ses_NodeID session) (n_owner_id n) ''node'' (ses_NodeID session) ''node.enroll'' now
       (consume_enrollment E req session nonce now s2)"
  using assms unfolding enroll_register_def Let_def bindE_Inr_iff by (auto simp: bindE_Inr_iff)

lemma pending_node_Some:
  assumes "pending_node s c = Some n"
  shows "n \<in> set (nodes s)" "n_id n = ch_NodeID c" "n_domain n = ch_Domain c" "n_state n = Pending"
    "n_public_key n = None \<or> n_public_key n = Some (ch_PublicKey c)" "ch_NodeID c \<in> node_ids s"
proof -
  from find_SomeD [OF assms [unfolded pending_node_def]]
  show n: "n \<in> set (nodes s)" "n_id n = ch_NodeID c" "n_domain n = ch_Domain c" "n_state n = Pending"
    "n_public_key n = None \<or> n_public_key n = Some (ch_PublicKey c)" by auto
  from n(1,2) show "ch_NodeID c \<in> node_ids s" by (metis image_eqI node_ids_def)
qed

lemma enroll_commit_cases:
  assumes "enroll_commit E s req token nonce now = Inr (session, s')"
  obtains "enrollmentReceipt E s req now = Inr (Some session)" "s' = s"
  | n where "enrollmentReceipt E s req now = Inr None"
    "checkNodeChallenge E s (er_Challenge req) (er_Signature req) ''enroll'' now = Inr ()"
    "pending_node s (er_Challenge req) = Some n" "enroll_register E s req n token nonce now = Inr (session, s')"
proof -
  obtain receipt where r: "enrollmentReceipt E s req now = Inr receipt"
    using assms by (cases "enrollmentReceipt E s req now") (simp_all add: enroll_commit_def Let_def)
  note eq = assms [unfolded enroll_commit_def Let_def r bindE_simps]
  show thesis
  proof (cases receipt)
    case (Some x)
    from eq have "session = x" "s' = s" unfolding Some by simp_all
    then show thesis using that(1) r Some by blast
  next
    case None
    note eq' = eq [unfolded None option.case bindE_Inr_iff]
    then obtain n where "pending_node s (er_Challenge req) = Some n" by (auto split: option.splits)
    with eq' that(2) r None show thesis by auto
  qed
qed

lemma enroll_register_inv:
  assumes "enroll_register E s req n token nonce now = Inr (session, s')"
    and rid: "ch_NodeID (er_Challenge req) \<in> node_ids s" and inv: "db_inv E s"
  shows "db_inv E s'"
  using assms(1)
proof (rule enroll_register_Inr)
  fix p s1 s2
  let ?c = "er_Challenge req" let ?id = "ch_NodeID ?c"
  assume b: "buildPolicy E (ensure_policy_row ?id (register_node ?c now s)) ?id now = Inr (p, s1)"
    and m: "mintNodeSession E (use_challenge E ?c now s1) ?id (ch_InstanceID ?c) token now = Inr (session, s2)"
    and s': "s' = writeAudit (''node:'' @ ses_NodeID session) (n_owner_id n) ''node'' (ses_NodeID session) ''node.enroll'' now
       (consume_enrollment E req session nonce now s2)"
  from rid have rid1: "?id \<in> node_ids (register_node ?c now s)" by (simp add: register_node_def)
  then have "db_inv E (ensure_policy_row ?id (register_node ?c now s))"
    by (rule ensure_policy_row_inv [OF register_node_inv [OF inv]])
  then have "db_inv E s1" by (rule buildPolicy_inv [OF b])
  moreover have "?id \<in> node_ids (use_challenge E ?c now s1)"
    using rid1 node_ids_build [OF b] by (simp add: use_challenge_def ensure_policy_row_def node_ids_def)
  ultimately have "db_inv E s2" by (intro mintNodeSession_inv [OF m] use_challenge_inv)
  then have "db_inv E (consume_enrollment E req session nonce now s2)"
    unfolding consume_enrollment_def by (rule db_inv_enrollments_update) simp_all
  then show ?thesis by (simp add: s')
qed

lemma enroll_commit_inv:
  "enroll_commit E s req token nonce now = Inr (session, s') \<Longrightarrow> db_inv E s \<Longrightarrow> db_inv E s'"
  by (erule enroll_commit_cases) (auto elim: enroll_register_inv dest: pending_node_Some(6))

lemma EnrollNode_inv [inv_intros]:
  assumes "EnrollNode E s s' verified req token nonce now now' = Inr (session, s'')" and "db_inv E s'"
  shows "db_inv E s''"
  using assms unfolding EnrollNode_def bindE_Inr_iff
  by (auto simp: bindE_Inr_iff split: option.splits if_splits elim: enroll_commit_inv)

lemma renewable_Some:
  assumes "renewable s c = Some n"
  shows "n \<in> set (nodes s)" "n_id n = ch_NodeID c" "n_domain n = ch_Domain c" "user_enabled s (n_owner_id n)"
    "ch_Purpose c = ''session'' \<and> serving_state (n_state n) \<or> ch_Purpose c = ''domain_change'' \<and> n_state n = DomainPending"
    "ch_NodeID c \<in> node_ids s"
proof -
  from find_SomeD [OF assms [unfolded renewable_def]]
  show n: "n \<in> set (nodes s)" "n_id n = ch_NodeID c" "n_domain n = ch_Domain c" "user_enabled s (n_owner_id n)"
    "ch_Purpose c = ''session'' \<and> serving_state (n_state n) \<or> ch_Purpose c = ''domain_change'' \<and> n_state n = DomainPending"
    by simp_all
  from n(1,2) show "ch_NodeID c \<in> node_ids s" by (metis image_eqI node_ids_def)
qed

text \<open>The three ends of a renewal: refused, in conflict, or granted.\<close>

lemma renew_commit_cases:
  obtains e where "renew_commit E s c sig token now = (Inl e, s)"
  | n s' where "renew_commit E s c sig token now = (Inl ErrIdentityConflict, s')"
    "checkNodeChallenge E s c sig (ch_Purpose c) now = Inr ()" "renewable s c = Some n" "n_public_key n = Some (ch_PublicKey c)"
    "n_instance_id n \<noteq> ch_InstanceID c" "unix now < n_lease_until n" "renew_conflict E s c n now = Inr s'"
  | n session s' where "renew_commit E s c sig token now = (Inr session, s')"
    "checkNodeChallenge E s c sig (ch_Purpose c) now = Inr ()" "renewable s c = Some n" "n_public_key n = Some (ch_PublicKey c)"
    "n_instance_id n = ch_InstanceID c \<or> n_lease_until n \<le> unix now" "renew_grant E s c n token now = Inr (session, s')"
proof (cases "checkNodeChallenge E s c sig (ch_Purpose c) now")
  case (Inl e)
  then show thesis using that(1) by (simp add: renew_commit_def)
next
  case c: (Inr u)
  show thesis
  proof (cases "renewable s c")
    case None
    with c show thesis using that(1) by (simp add: renew_commit_def)
  next
    case n: (Some n)
    note eq = renew_commit_def [of E s c sig token now, unfolded c n sum.case option.case]
    consider "n_public_key n \<noteq> Some (ch_PublicKey c)"
      | "n_public_key n = Some (ch_PublicKey c)" "n_instance_id n \<noteq> ch_InstanceID c \<and> unix now < n_lease_until n"
      | "n_public_key n = Some (ch_PublicKey c)" "\<not> (n_instance_id n \<noteq> ch_InstanceID c \<and> unix now < n_lease_until n)" by blast
    then show thesis
    proof cases
      case 1
      then show thesis using eq that(1) by simp
    next
      case 2
      then show thesis using eq that(1,2) c n by (cases "renew_conflict E s c n now") simp_all
    next
      case 3
      have ok: "n_instance_id n = ch_InstanceID c \<or> n_lease_until n \<le> unix now" using 3(2) by auto
      have eq3: "renew_commit E s c sig token now =
          (case renew_grant E s c n token now of Inl e \<Rightarrow> (Inl e, s) | Inr (session, s') \<Rightarrow> (Inr session, s'))"
        using 3(1) eq unfolding if_not_P [OF 3(2)] by simp
      show thesis
      proof (cases "renew_grant E s c n token now")
        case (Inl e)
        then show thesis using eq3 that(1) by simp
      next
        case (Inr r)
        then obtain session s' where "renew_grant E s c n token now = Inr (session, s')" by (cases r) simp
        with eq3 that(3) c n 3(1) ok show thesis by simp
      qed
    qed
  qed
qed

lemma renew_conflict_Inr:
  assumes "renew_conflict E s c n now = Inr s'"
  obtains s2 p s4 where "buildPolicy E s2 (ch_NodeID c) now = Inr (p, s4)" "s' = notifyPolicy (ch_NodeID c) s4"
    "s2 = writeAudit (''node:'' @ ch_NodeID c) (n_owner_id n) ''node'' (ch_NodeID c) ''node.identity_conflict'' now
       (insert_event (n_owner_id n) ''node'' (ch_NodeID c) ''identity_conflict''
          ''Node identity was presented by another running instance.'' now
          (use_challenge E c now ((update_node (ch_NodeID c) (\<lambda>n. n\<lparr>n_state := IdentityConflict,
             n_last_error := ''node identity is active on another instance''\<rparr>) s)
             \<lparr>node_sessions := delete_where (\<lambda>r. ns_node_id r = ch_NodeID c) (node_sessions s)\<rparr>)))"
  using assms unfolding renew_conflict_def Let_def bindE_Inr_iff by (auto simp: update_node_def)

lemma renew_conflict_inv: "renew_conflict E s c n now = Inr s' \<Longrightarrow> db_inv E s \<Longrightarrow> db_inv E s'"
proof (erule renew_conflict_Inr)
  fix s2 p s4
  let ?u = "update_node (ch_NodeID c) (\<lambda>n. n\<lparr>n_state := IdentityConflict,
    n_last_error := ''node identity is active on another instance''\<rparr>) s"
  assume inv: "db_inv E s" and b: "buildPolicy E s2 (ch_NodeID c) now = Inr (p, s4)" and s': "s' = notifyPolicy (ch_NodeID c) s4"
    and s2: "s2 = writeAudit (''node:'' @ ch_NodeID c) (n_owner_id n) ''node'' (ch_NodeID c) ''node.identity_conflict'' now
       (insert_event (n_owner_id n) ''node'' (ch_NodeID c) ''identity_conflict''
          ''Node identity was presented by another running instance.'' now
          (use_challenge E c now (?u\<lparr>node_sessions := delete_where (\<lambda>r. ns_node_id r = ch_NodeID c) (node_sessions s)\<rparr>)))"
  from inv have "db_inv E ?u" by (rule db_inv_update_node) (simp_all add: node_ok_def)
  then have "db_inv E (?u\<lparr>node_sessions := delete_where (\<lambda>r. ns_node_id r = ch_NodeID c) (node_sessions ?u)\<rparr>)"
    by (rule db_inv_node_tables)
  then have "db_inv E s2" unfolding s2 by (simp add: use_challenge_inv update_node_def)
  from buildPolicy_inv [OF b this] show "db_inv E s'" by (simp add: s')
qed

lemma renew_grant_inv:
  assumes "renew_grant E s c n token now = Inr (session, s')" and "ch_NodeID c \<in> node_ids s" and "db_inv E s"
  shows "db_inv E s'"
proof -
  let ?s1 = "update_node (ch_NodeID c) (\<lambda>n. n\<lparr>n_instance_id := ch_InstanceID c, n_lease_until := unix (now + 90 * second),
    n_state := if n_state n = DomainPending then Registered else n_state n\<rparr>) (use_challenge E c now s)"
  have inv1: "db_inv E ?s1"
    using use_challenge_inv [OF assms(3)] by (rule db_inv_update_node) (simp_all add: node_ok_def)
  have inv2: "db_inv E (update_node (ch_NodeID c) (\<lambda>n. n\<lparr>n_domain_verified_at := unix now\<rparr>) ?s1)"
    using inv1 by (rule db_inv_update_node) (simp_all add: node_ok_def)
  have rid: "ch_NodeID c \<in> node_ids ?s1"
    "ch_NodeID c \<in> node_ids (update_node (ch_NodeID c) (\<lambda>n. n\<lparr>n_domain_verified_at := unix now\<rparr>) ?s1)"
    using assms(2) by simp_all
  show ?thesis
  proof (cases "ch_Purpose c = ''domain_change''")
    case True
    show ?thesis
      by (rule mintNodeSession_inv [OF assms(1) [unfolded renew_grant_def Let_def if_P [OF True]]])
        (use inv2 rid(2) in simp_all)
  next
    case False
    show ?thesis
      by (rule mintNodeSession_inv [OF assms(1) [unfolded renew_grant_def Let_def if_not_P [OF False]]]) (use inv1 rid(1) in simp_all)
  qed
qed

lemma renew_commit_inv: "renew_commit E s c sig token now = (r, s') \<Longrightarrow> db_inv E s \<Longrightarrow> db_inv E s'"
  by (rule renew_commit_cases [of E s c sig token now])
    (auto dest: renew_conflict_inv renewable_Some(6) elim: renew_grant_inv)

lemma RenewNodeSession_inv [inv_intros]:
  "RenewNodeSession E s s' verified c sig token now now' = (r, s'') \<Longrightarrow> db_inv E s' \<Longrightarrow> db_inv E s''"
  by (auto simp: RenewNodeSession_def split: sum.splits if_splits elim: renew_commit_inv)

lemma RecoverNodeInstance_Inr:
  assumes "RecoverNodeInstance E s actor rid inst now = Inr s'"
  obtains n s2 p s4 where "activeActor s actor = Inr ()" "select_node s rid = Inr n" "may_act actor (n_owner_id n)"
    "n_state n = IdentityConflict" "validNodeInstance inst"
    "buildPolicy E s2 rid now = Inr (p, s4)" "s' = notifyPolicy rid s4"
    "s2 = writeAudit (ac_ID actor) (n_owner_id n) ''node'' rid ''node.recover'' now
       (resolve_events (\<lambda>e. ev_resource_type e = ''node'' \<and> ev_resource_id e = rid \<and> ev_kind e = ''identity_conflict'') now
       ((update_node rid (\<lambda>n. n\<lparr>n_state := Registered, n_instance_id := inst,
                n_lease_until := unix (now + 90 * second), n_last_error := []\<rparr>) s)
         \<lparr>node_sessions := delete_where (\<lambda>r. ns_node_id r = rid) (node_sessions s),
          node_challenges := delete_where (\<lambda>c. nc_node_id c = rid) (node_challenges s)\<rparr>))"
  using assms unfolding RecoverNodeInstance_def Let_def bindE_Inr_iff RequireOwner_Inr failIf_Inr_iff
  by (auto simp: update_node_def intro: that)

lemma RecoverNodeInstance_inv [inv_intros]:
  assumes "RecoverNodeInstance E s actor rid inst now = Inr s'" and "db_inv E s"
  shows "db_inv E s'"
  using assms(1)
proof (rule RecoverNodeInstance_Inr)
  fix n s2 p s4
  let ?u = "update_node rid (\<lambda>n. n\<lparr>n_state := Registered, n_instance_id := inst,
    n_lease_until := unix (now + 90 * second), n_last_error := []\<rparr>) s"
  let ?v = "?u\<lparr>node_sessions := delete_where (\<lambda>r. ns_node_id r = rid) (node_sessions ?u)\<rparr>"
  assume b: "buildPolicy E s2 rid now = Inr (p, s4)" and s': "s' = notifyPolicy rid s4"
    and s2: "s2 = writeAudit (ac_ID actor) (n_owner_id n) ''node'' rid ''node.recover'' now
       (resolve_events (\<lambda>e. ev_resource_type e = ''node'' \<and> ev_resource_id e = rid \<and> ev_kind e = ''identity_conflict'') now
       (?u\<lparr>node_sessions := delete_where (\<lambda>r. ns_node_id r = rid) (node_sessions s),
          node_challenges := delete_where (\<lambda>c. nc_node_id c = rid) (node_challenges s)\<rparr>))"
  from assms(2) have "db_inv E ?u" by (rule db_inv_update_node) (simp_all add: node_ok_def)
  then have "db_inv E ?v" by (rule db_inv_node_tables)
  then have "db_inv E (?v\<lparr>node_challenges := delete_where (\<lambda>c. nc_node_id c = rid) (node_challenges ?v)\<rparr>)"
    by (rule db_inv_node_tables)
  then have "db_inv E s2" unfolding s2 by (simp add: update_node_def)
  from buildPolicy_inv [OF b this] show "db_inv E s'" by (simp add: s')
qed

lemma setNodePorts_inv: "setNodePorts s n actorID derpPort stunPort now = Inr s' \<Longrightarrow> db_inv E s \<Longrightarrow> db_inv E s'"
proof -
  assume r: "setNodePorts s n actorID derpPort stunPort now = Inr s'" and inv: "db_inv E s"
  let ?u = "update_node (n_id n) (\<lambda>m. m\<lparr>n_derp_port := derpPort, n_stun_port := stunPort\<rparr>) s"
  have "db_inv E (?u\<lparr>node_observations := update_where P (\<lambda>x. x\<lparr>o_probes := None\<rparr>) (node_observations ?u)\<rparr>)"
    if "\<not> bad_port derpPort" "\<not> bad_port stunPort" for P
  proof -
    from inv have "db_inv E ?u"
      by (rule db_inv_update_node) (use that in \<open>simp_all add: node_ok_def port_ok_def bad_port_def\<close>)
    then show ?thesis by (rule db_inv_observations_update) simp
  qed
  with r inv show "db_inv E s'" by (auto simp: setNodePorts_def Let_def split: if_splits)
qed

lemma SetNodeSessionPorts_inv [inv_intros]:
  "SetNodeSessionPorts E s token derpPort stunPort now = Inr s' \<Longrightarrow> db_inv E s \<Longrightarrow> db_inv E s'"
  by (auto simp: SetNodeSessionPorts_def bindE_Inr_iff elim: setNodePorts_inv)

lemma ReleaseNode_inv [inv_intros]: "ReleaseNode E s token now = Inr s' \<Longrightarrow> db_inv E s \<Longrightarrow> db_inv E s'"
  by (auto simp: ReleaseNode_def bindE_Inr_iff intro: db_inv_close elim: releaseNode_inv)

end
