(* ===== verification/Sessions.thy ===== *)
theory Sessions
  imports Nodes
begin

text \<open>
  What enrolment and the sessions of nodes guarantee: a challenge and an enrolment code are
  used once, a node has one session, two running instances of one identity lock the node,
  and a released node serves nobody.
\<close>

section \<open>Tables after an operation\<close>

definition stored_policy :: "store \<Rightarrow> string \<Rightarrow> policy option" where
  "stored_policy s node =
     (case find (\<lambda>r. pr_node_id r = node) (node_policies s) of
        None \<Rightarrow> None | Some row \<Rightarrow> (case pr_policy row of Some body \<Rightarrow> body | None \<Rightarrow> None))"

lemma buildPolicy_stored_policy: "buildPolicy E s node now = Inr (p, s') \<Longrightarrow> stored_policy s' node = Some p"
  by (drule buildPolicy_stored) (auto simp: stored_policy_def)

lemma buildPolicy_no_grants:
  assumes "buildPolicy E s node now = Inr (p, s')" and "find_node s node = Some n"
    and "\<not> (n_enabled n \<and> serving_state (n_state n))"
  shows "p_Grants p = []"
proof (rule ccontr)
  assume "p_Grants p \<noteq> []"
  from assms(1) obtain c where c: "policy_content s node = Inr c" and "p_Grants c = p_Grants p"
    by (auto elim!: buildPolicy_cases simp: unchanged_policy_def next_policy_def)
      (metis policy.select_convs(5) policy.surjective policy.update_convs(3,4))
  with \<open>p_Grants p \<noteq> []\<close> obtain gp where "gp \<in> set (p_Grants c)" by (cases "p_Grants p") auto
  from policy_content_grant [OF c this] assms(2,3) show False by auto
qed

lemma update_node_same [simp]:
  "users (update_node rid f s) = users s" "node_sessions (update_node rid f s) = node_sessions s"
  "enrollments (update_node rid f s) = enrollments s" "node_challenges (update_node rid f s) = node_challenges s"
  "clusterID (update_node rid f s) = clusterID s" "grants (update_node rid f s) = grants s"
  "credentialAEAD (update_node rid f s) = credentialAEAD s"
  "nodes (update_node rid f s) = update_where (\<lambda>n. n_id n = rid) f (nodes s)"
  by (simp_all add: update_node_def)

lemma log_same [simp]:
  "users (writeAudit a b d e f now s) = users s" "node_sessions (writeAudit a b d e f now s) = node_sessions s"
  "enrollments (writeAudit a b d e f now s) = enrollments s" "node_challenges (writeAudit a b d e f now s) = node_challenges s"
  "nodes (writeAudit a b d e f now s) = nodes s" "clusterID (writeAudit a b d e f now s) = clusterID s"
  "grants (writeAudit a b d e f now s) = grants s" "node_policies (writeAudit a b d e f now s) = node_policies s"
  "policyStreams (writeAudit a b d e f now s) = policyStreams s" "credentialAEAD (writeAudit a b d e f now s) = credentialAEAD s"
  "users (notifyPolicy rid s) = users s" "node_sessions (notifyPolicy rid s) = node_sessions s"
  "node_challenges (notifyPolicy rid s) = node_challenges s" "nodes (notifyPolicy rid s) = nodes s"
  "node_policies (notifyPolicy rid s) = node_policies s"
  by (simp_all add: writeAudit_def notifyPolicy_def)

lemma use_challenge_same [simp]:
  "users (use_challenge E c now s) = users s" "node_sessions (use_challenge E c now s) = node_sessions s"
  "enrollments (use_challenge E c now s) = enrollments s" "nodes (use_challenge E c now s) = nodes s"
  "clusterID (use_challenge E c now s) = clusterID s" "node_policies (use_challenge E c now s) = node_policies s"
  by (simp_all add: use_challenge_def)

text \<open>A minted session replaces every other session of its node.\<close>

definition only_session :: "env \<Rightarrow> store \<Rightarrow> string \<Rightarrow> string \<Rightarrow> string \<Rightarrow> time \<Rightarrow> bool" where
  "only_session E s rid inst token expires \<longleftrightarrow>
     (\<forall>r\<in>set (node_sessions s). ns_node_id r = rid \<longrightarrow> ns_token_hash r = tokenHash E token)
     \<and> (\<exists>r. find (\<lambda>r. ns_token_hash r = tokenHash E token) (node_sessions s) = Some r
         \<and> ns_node_id r = rid \<and> ns_instance_id r = inst \<and> ns_expires_at r = unix expires)"

lemma mintNodeSession_only:
  assumes "mintNodeSession E s rid inst token now = Inr (session, s')"
  shows "only_session E s' rid inst token (ses_ExpiresAt session)"
  using assms
proof (rule mintNodeSession_Inr)
  fix row
  assume row: "ns_token_hash row = tokenHash E token" "ns_node_id row = rid" "ns_instance_id row = inst"
    "ns_expires_at row = unix (ses_ExpiresAt session)"
    and fresh: "tokenHash E token \<notin> ns_token_hash ` set (delete_where (\<lambda>r. ns_node_id r = rid) (node_sessions s))"
    and s': "s' = s\<lparr>node_sessions := delete_where (\<lambda>r. ns_node_id r = rid) (node_sessions s) @ [row]\<rparr>"
  from fresh have "find (\<lambda>r. ns_token_hash r = tokenHash E token) (delete_where (\<lambda>r. ns_node_id r = rid) (node_sessions s)) = None"
    unfolding find_None_image .
  with row show ?thesis by (auto simp: only_session_def s' find_append)
qed

lemma find_conj: "find P xs = Some r \<Longrightarrow> Q r \<Longrightarrow> find (\<lambda>x. P x \<and> Q x) xs = Some r"
  by (induction xs) (auto split: if_splits)

lemma only_session_live:
  assumes "only_session E s rid inst token expires" and "unique n_id (nodes s)"
    and "n \<in> set (nodes s)" "n_id n = rid" "n_instance_id n = inst" "serving_state (n_state n)" "user_enabled s (n_owner_id n)"
    and "length token = 64" "hex_ok token" "unix t < unix expires"
  shows "\<exists>session. nodeSession E s token t = Inr session \<and> ses_NodeID session = rid \<and> ses_InstanceID session = inst
    \<and> ses_ClusterID session = clusterID s"
proof -
  from assms(1) obtain r where r: "find (\<lambda>r. ns_token_hash r = tokenHash E token) (node_sessions s) = Some r"
    "ns_node_id r = rid" "ns_instance_id r = inst" "ns_expires_at r = unix expires" by (auto simp: only_session_def)
  then have "find (\<lambda>r. ns_token_hash r = tokenHash E token \<and> unix t < ns_expires_at r) (node_sessions s) = Some r"
    using assms(10) by (intro find_conj) simp_all
  moreover have "find (\<lambda>n. n_id n = ns_node_id r \<and> ns_instance_id r = n_instance_id n
       \<and> serving_state (n_state n) \<and> user_enabled s (n_owner_id n)) (nodes s) = Some n"
    using assms r by (intro find_Some_unique [of n_id]) simp_all
  ultimately show ?thesis using assms by (simp add: nodeSession_def live_session_def failIf_def)
qed

lemma nodeSession_row:
  assumes "nodeSession E s token t = Inr session"
  obtains r n where "r \<in> set (node_sessions s)" "ns_token_hash r = tokenHash E token" "ns_node_id r = ses_NodeID session"
    "n \<in> set (nodes s)" "n_id n = ses_NodeID session" "n_instance_id n = ses_InstanceID session" "serving_state (n_state n)"
    "user_enabled s (n_owner_id n)" "unix t < ns_expires_at r" "ns_instance_id r = ses_InstanceID session"
  using assms unfolding nodeSession_def live_session_def bindE_Inr_iff
  by (auto split: option.splits prod.splits dest!: find_SomeD intro: that)

lemma only_session_exclusive:
  assumes "only_session E s rid inst token expires" and "nodeSession E s token' t = Inr session" and "ses_NodeID session = rid"
  shows "tokenHash E token' = tokenHash E token"
  using assms(2)
proof (rule nodeSession_row)
  fix r assume "r \<in> set (node_sessions s)" "ns_token_hash r = tokenHash E token'" "ns_node_id r = ses_NodeID session"
  with assms(1,3) show ?thesis by (auto simp: only_session_def)
qed

section \<open>What a granted session leaves behind\<close>

text \<open>
  The node as the session finds it: its instance, a serving state, an enabled owner, and the
  challenge used up.
\<close>

definition session_ready :: "env \<Rightarrow> store \<Rightarrow> node_challenge \<Rightarrow> node_row \<Rightarrow> time \<Rightarrow> bool" where
  "session_ready E s c n now \<longleftrightarrow> n \<in> set (nodes s) \<and> n_id n = ch_NodeID c \<and> n_instance_id n = ch_InstanceID c
     \<and> serving_state (n_state n) \<and> user_enabled s (n_owner_id n) \<and> n_public_key n = Some (ch_PublicKey c)
     \<and> (\<forall>r\<in>set (node_challenges s). nc_nonce_hash r = tokenHash E (ch_Nonce c) \<longrightarrow> nc_used_at r = unix now)"

lemma user_enabled_cong: "users s' = users s \<Longrightarrow> user_enabled s' u = user_enabled s u"
  by (simp add: user_enabled_def)

lemma used_challenges:
  "\<forall>r\<in>set (node_challenges (use_challenge E c now s)). nc_nonce_hash r = tokenHash E (ch_Nonce c) \<longrightarrow> nc_used_at r = unix now"
  by (auto simp: use_challenge_def set_update_where)

lemma renew_grant_ready:
  assumes "renew_grant E s c n token now = Inr (session, s')" and "renewable s c = Some n"
    and "n_public_key n = Some (ch_PublicKey c)"
  shows "\<exists>n'. session_ready E s' c n' now"
    and "only_session E s' (ch_NodeID c) (ch_InstanceID c) token (ses_ExpiresAt session)"
    and "ses_NodeID session = ch_NodeID c" "ses_InstanceID session = ch_InstanceID c" "ses_Token session = token"
    and "ses_ExpiresAt session = truncate_second (now + 3600 * second)"
proof -
  let ?f = "\<lambda>n. n\<lparr>n_instance_id := ch_InstanceID c, n_lease_until := unix (now + 90 * second),
    n_state := if n_state n = DomainPending then Registered else n_state n\<rparr>"
  let ?g = "\<lambda>n. if ch_Purpose c = ''domain_change'' then (?f n)\<lparr>n_domain_verified_at := unix now\<rparr> else ?f n"
  from assms(1) obtain s2 where m: "mintNodeSession E s2 (ch_NodeID c) (ch_InstanceID c) token now = Inr (session, s')"
    and s2: "users s2 = users s" "node_challenges s2 = node_challenges (use_challenge E c now s)"
      "nodes s2 = map (\<lambda>n. if n_id n = ch_NodeID c then ?g n else n) (nodes s)"
    unfolding renew_grant_def Let_def by (auto simp: update_where_def split: if_splits)
  show "only_session E s' (ch_NodeID c) (ch_InstanceID c) token (ses_ExpiresAt session)"
    by (rule mintNodeSession_only [OF m])
  from m show "ses_NodeID session = ch_NodeID c" "ses_InstanceID session = ch_InstanceID c" "ses_Token session = token"
    "ses_ExpiresAt session = truncate_second (now + 3600 * second)"
    by (auto elim: mintNodeSession_Inr)
  from m have tabs: "nodes s' = nodes s2" "users s' = users s2" "node_challenges s' = node_challenges s2"
    by (auto elim!: mintNodeSession_Inr)
  note n = renewable_Some [OF assms(2)]
  have "?g n \<in> set (nodes s')" unfolding tabs s2(3) using n(1,2) by (force simp: image_iff)
  then have "session_ready E s' c (?g n) now"
    using n assms(3) used_challenges [of E c now s] tabs(2,3) s2(1,2)
    by (auto simp: session_ready_def user_enabled_def serving_state_def)
  then show "\<exists>n'. session_ready E s' c n' now" by blast
qed

text \<open>The tables after an enrolment.\<close>

lemma enroll_register_tables:
  assumes "enroll_register E s req n token nonce now = Inr (session, s')"
  shows "users s' = users s" "credentialAEAD s' = credentialAEAD s"
    and "nodes s' = nodes (register_node (er_Challenge req) now s)"
    and "node_challenges s' = node_challenges (use_challenge E (er_Challenge req) now s)"
    and "enrollments s' = update_where (\<lambda>e. e_node_id e = ses_NodeID session)
       (\<lambda>e. e\<lparr>e_consumed_at := unix now, e_request_hash := Some (requestDigest E req),
              e_response := Some (seal_session E session nonce (enrollment_aad (ses_NodeID session)))\<rparr>) (enrollments s)"
    and "only_session E s' (ch_NodeID (er_Challenge req)) (ch_InstanceID (er_Challenge req)) token (ses_ExpiresAt session)"
    and "ses_NodeID session = ch_NodeID (er_Challenge req)" "ses_InstanceID session = ch_InstanceID (er_Challenge req)"
      "ses_Token session = token" "ses_ExpiresAt session = truncate_second (now + 3600 * second)"
proof -
  let ?c = "er_Challenge req" let ?id = "ch_NodeID ?c" let ?s0 = "ensure_policy_row ?id (register_node ?c now s)"
  from assms obtain p s1 s2 where b: "buildPolicy E ?s0 ?id now = Inr (p, s1)"
    and m: "mintNodeSession E (use_challenge E ?c now s1) ?id (ch_InstanceID ?c) token now = Inr (session, s2)"
    and s': "s' = writeAudit (''node:'' @ ses_NodeID session) (n_owner_id n) ''node'' (ses_NodeID session) ''node.enroll'' now
       (consume_enrollment E req session nonce now s2)"
    by (rule enroll_register_Inr)
  have t1: "users s1 = users s" "nodes s1 = nodes (register_node ?c now s)" "enrollments s1 = enrollments s"
    "node_challenges s1 = node_challenges s"
    using same_tables [OF buildPolicy_same [OF b]] by (simp_all add: ensure_policy_row_def register_node_def)
  have "credentialAEAD (s1\<lparr>node_policies := node_policies ?s0\<rparr>) = credentialAEAD s"
    unfolding buildPolicy_same [OF b, unfolded same_but_policies_def] by (simp add: ensure_policy_row_def register_node_def)
  then have t2: "users s2 = users s" "nodes s2 = nodes (register_node ?c now s)" "enrollments s2 = enrollments s"
    "node_challenges s2 = node_challenges (use_challenge E ?c now s)" "credentialAEAD s2 = credentialAEAD s"
    using t1 m by (auto elim!: mintNodeSession_Inr simp: use_challenge_def)
  then show "users s' = users s" "credentialAEAD s' = credentialAEAD s" "nodes s' = nodes (register_node ?c now s)"
    "node_challenges s' = node_challenges (use_challenge E ?c now s)"
    "enrollments s' = update_where (\<lambda>e. e_node_id e = ses_NodeID session)
       (\<lambda>e. e\<lparr>e_consumed_at := unix now, e_request_hash := Some (requestDigest E req),
              e_response := Some (seal_session E session nonce (enrollment_aad (ses_NodeID session)))\<rparr>) (enrollments s)"
    by (simp_all add: s' consume_enrollment_def)
  from mintNodeSession_only [OF m] show "only_session E s' ?id (ch_InstanceID ?c) token (ses_ExpiresAt session)"
    by (simp add: only_session_def s' consume_enrollment_def)
  from m show "ses_NodeID session = ?id" "ses_InstanceID session = ch_InstanceID ?c" "ses_Token session = token"
    "ses_ExpiresAt session = truncate_second (now + 3600 * second)"
    by (auto elim: mintNodeSession_Inr)
qed

lemma enroll_register_ready:
  assumes "enroll_register E s req n token nonce now = Inr (session, s')" and "pending_node s (er_Challenge req) = Some n"
    and "user_enabled s (n_owner_id n)"
  shows "\<exists>n'. session_ready E s' (er_Challenge req) n' now"
proof -
  let ?c = "er_Challenge req"
  note t = enroll_register_tables [OF assms(1)]
  define n' where "n' = n\<lparr>n_public_key := Some (ch_PublicKey ?c), n_instance_id := ch_InstanceID ?c, n_state := Registered,
    n_lease_until := unix (now + 90 * second), n_domain_verified_at := unix now\<rparr>"
  have "n' \<in> set (nodes s')"
    unfolding t(3) using pending_node_Some(1,2) [OF assms(2)]
    by (force simp: register_node_def update_where_def n'_def image_iff)
  then have "session_ready E s' ?c n' now"
    using pending_node_Some(2) [OF assms(2)] assms(3) used_challenges [of E ?c now s] t(1,4)
    by (auto simp: session_ready_def n'_def serving_state_def user_enabled_def)
  then show ?thesis by blast
qed

lemma receipt_owner_enabled:
  assumes "enrollmentReceipt E s req now = Inr None" and "pending_node s (er_Challenge req) = Some n" and "unique n_id (nodes s)"
  shows "user_enabled s (n_owner_id n)"
proof -
  from assms(1) obtain m where m: "m \<in> set (nodes s)" "n_id m = ch_NodeID (er_Challenge req)" "user_enabled s (n_owner_id m)"
    by (auto simp: enrollmentReceipt_def list_ex_iff split: option.splits if_splits dest!: find_SomeD)
  moreover note pending_node_Some(1,2) [OF assms(2)]
  ultimately have "m = n" using assms(3) by (metis uniqueD)
  with m(3) show ?thesis by simp
qed

lemma unique_nodes: "db_inv E s \<Longrightarrow> unique n_id (nodes s)"
  by (simp add: db_inv_def nodes_inv_def)

section \<open>Locked and released nodes\<close>

definition no_session :: "env \<Rightarrow> store \<Rightarrow> string \<Rightarrow> bool" where
  "no_session E s rid \<longleftrightarrow> (\<forall>token t session. nodeSession E s token t = Inr session \<longrightarrow> ses_NodeID session \<noteq> rid)"

lemma no_sessionI: "\<forall>r\<in>set (node_sessions s). ns_node_id r \<noteq> rid \<Longrightarrow> no_session E s rid"
  unfolding no_session_def by (auto elim!: nodeSession_row)

lemma find_node_update:
  "(\<And>n. n_id (f n) = n_id n) \<Longrightarrow> nodes s' = update_where (\<lambda>n. n_id n = rid) f (nodes s)
    \<Longrightarrow> find_node s' rid = map_option f (find_node s rid)"
  by (simp add: find_node_def find_update_where)

lemma renew_conflict_locked:
  assumes "renew_conflict E s c n now = Inr s'" and "find_node s (ch_NodeID c) = Some n0"
  shows "no_session E s' (ch_NodeID c)" "\<exists>p. stored_policy s' (ch_NodeID c) = Some p \<and> p_Grants p = []"
    "\<exists>n'. find_node s' (ch_NodeID c) = Some n' \<and> n_state n' = IdentityConflict"
    "node_challenges s' = node_challenges (use_challenge E c now s)"
proof -
  let ?f = "\<lambda>n. n\<lparr>n_state := IdentityConflict, n_last_error := ''node identity is active on another instance''\<rparr>"
  from assms(1) obtain s2 p s4 where b: "buildPolicy E s2 (ch_NodeID c) now = Inr (p, s4)" and s': "s' = notifyPolicy (ch_NodeID c) s4"
    and s2: "s2 = writeAudit (''node:'' @ ch_NodeID c) (n_owner_id n) ''node'' (ch_NodeID c) ''node.identity_conflict'' now
       (insert_event (n_owner_id n) ''node'' (ch_NodeID c) ''identity_conflict''
          ''Node identity was presented by another running instance.'' now
          (use_challenge E c now ((update_node (ch_NodeID c) ?f s)
             \<lparr>node_sessions := delete_where (\<lambda>r. ns_node_id r = ch_NodeID c) (node_sessions s)\<rparr>)))"
    by (rule renew_conflict_Inr)
  have t2: "nodes s2 = update_where (\<lambda>n. n_id n = ch_NodeID c) ?f (nodes s)"
    "node_sessions s2 = delete_where (\<lambda>r. ns_node_id r = ch_NodeID c) (node_sessions s)"
    "node_challenges s2 = node_challenges (use_challenge E c now s)"
    by (simp_all add: s2 insert_event_def use_challenge_def)
  note t4 = same_tables [OF buildPolicy_same [OF b]]
  have f2: "find_node s2 (ch_NodeID c) = Some (?f n0)" using find_node_update [OF _ t2(1)] assms(2) by simp
  have "p_Grants p = []" by (rule buildPolicy_no_grants [OF b f2]) (simp add: serving_state_def)
  then show "\<exists>p. stored_policy s' (ch_NodeID c) = Some p \<and> p_Grants p = []"
    using buildPolicy_stored_policy [OF b] by (simp add: stored_policy_def s')
  show "no_session E s' (ch_NodeID c)" by (rule no_sessionI) (simp add: s' t4 t2(2))
  show "\<exists>n'. find_node s' (ch_NodeID c) = Some n' \<and> n_state n' = IdentityConflict"
    using f2 t4 by (simp add: find_node_def s')
  show "node_challenges s' = node_challenges (use_challenge E c now s)" using t4 t2(3) by (simp add: s')
qed

lemma used_challenge_refused:
  assumes "\<forall>r\<in>set (node_challenges s). nc_nonce_hash r = tokenHash E (ch_Nonce c) \<longrightarrow> nc_used_at r = unix now"
    and "unix now \<noteq> 0" and "ch_Nonce c' = ch_Nonce c"
  shows "checkNodeChallenge E s c' sig purpose t = Inl ErrUnauthorized"
proof -
  have "find (\<lambda>r. nc_nonce_hash r = tokenHash E (ch_Nonce c') \<and> nc_node_id r = ch_NodeID c'
      \<and> unix t < nc_expires_at r \<and> nc_used_at r = 0) (node_challenges s) = None"
    using assms by (auto simp: find_None_iff)
  then show ?thesis by (auto simp: checkNodeChallenge_def failIf_def)
qed

text \<open>The join in the receipt's query: the node is the owner's still, and its owner is enabled.\<close>

definition receipt_owner :: "store \<Rightarrow> enrollment_row \<Rightarrow> bool" where
  "receipt_owner s e \<longleftrightarrow>
     list_ex (\<lambda>n. n_id n = e_node_id e \<and> e_owner_id e = n_owner_id n \<and> user_enabled s (n_owner_id n)) (nodes s)"

lemma receipt_row:
  assumes "enrollmentReceipt E s req now = Inr None"
  shows "\<exists>e\<in>set (enrollments s). e_code_hash e = tokenHash E (er_Code req) \<and> e_node_id e = ch_NodeID (er_Challenge req)
    \<and> unix now < e_expires_at e \<and> receipt_owner s e"
  using assms
  by (auto simp: enrollmentReceipt_def receipt_owner_def split: option.splits if_splits dest!: find_SomeD)

lemma list_ex_update_where: "(\<And>x. P (f x) = P x) \<Longrightarrow> list_ex P (update_where Q f xs) = list_ex P xs"
  by (induction xs) auto

lemma receipt_owner_register:
  assumes "nodes s' = nodes (register_node c now s)" and "users s' = users s"
  shows "receipt_owner s' e = receipt_owner s e"
  using assms by (simp add: receipt_owner_def register_node_def list_ex_update_where user_enabled_def)

lemma find_upt_least:
  assumes "find P [a..<b] = Some r"
  shows "a \<le> r \<and> r < b \<and> P r \<and> (\<forall>x\<in>{a..<r}. \<not> P x)"
proof -
  from assms obtain i where i: "i < b - a" "P (a + i)" "r = a + i" "\<forall>j<i. \<not> P (a + j)"
    by (auto simp: find_Some_iff)
  have "\<not> P x" if x: "x \<in> {a..<r}" for x
  proof -
    from x obtain j where "x = a + j" using le_Suc_ex by auto
    with x i(3,4) show ?thesis by auto
  qed
  with i show ?thesis by auto
qed

section \<open>Properties\<close>

text \<open>C14: A session a node obtains, by enrolling or by renewing, authenticates it under its instance until
  the session expires, and it is the node's only session: no other token authenticates this
  node any more.\<close>

theorem session_exclusive:
  assumes "RenewNodeSession E s0 s verified c sig token now0 now = (Inr session, s')
    \<or> enrollmentReceipt E s req now = Inr None \<and> enroll_commit E s req token nonce now = Inr (session, s') \<and> c = er_Challenge req"
    and "db_inv E s" and "length token = 64" and "hex_ok token"
  shows "ses_ExpiresAt session = truncate_second (now + 3600 * second)
    \<and> (\<forall>t. unix t < unix (ses_ExpiresAt session) \<longrightarrow>
        (\<exists>r. nodeSession E s' token t = Inr r \<and> ses_NodeID r = ch_NodeID c \<and> ses_InstanceID r = ch_InstanceID c))
    \<and> (\<forall>token' t r. nodeSession E s' token' t = Inr r \<and> ses_NodeID r = ch_NodeID c \<longrightarrow> tokenHash E token' = tokenHash E token)"
proof -
  have "ses_ExpiresAt session = truncate_second (now + 3600 * second) \<and> (\<exists>n. session_ready E s' c n now)
    \<and> only_session E s' (ch_NodeID c) (ch_InstanceID c) token (ses_ExpiresAt session) \<and> db_inv E s'"
    using assms(1)
  proof
    assume r: "RenewNodeSession E s0 s verified c sig token now0 now = (Inr session, s')"
    then have "renew_commit E s c sig token now = (Inr session, s')"
      by (auto simp: RenewNodeSession_def split: if_splits sum.splits)
    then show ?thesis
      by (rule_tac renew_commit_cases [of E s c sig token now])
        (use RenewNodeSession_inv [OF r assms(2)] renew_grant_ready in auto)
  next
    assume e: "enrollmentReceipt E s req now = Inr None \<and> enroll_commit E s req token nonce now = Inr (session, s')
      \<and> c = er_Challenge req"
    then obtain n where n: "pending_node s c = Some n" "enroll_register E s req n token nonce now = Inr (session, s')"
      by (auto elim!: enroll_commit_cases)
    have u: "user_enabled s (n_owner_id n)" using receipt_owner_enabled [OF _ _ unique_nodes [OF assms(2)]] e n(1) by blast
    from e enroll_commit_inv assms(2) have "db_inv E s'" by blast
    with enroll_register_ready [OF n(2) _ u] enroll_register_tables [OF n(2)] e n(1) show ?thesis by simp
  qed
  then show ?thesis
    using assms(3,4) only_session_live [of E s' "ch_NodeID c" "ch_InstanceID c" token "ses_ExpiresAt session"]
      only_session_exclusive unique_nodes
    unfolding session_ready_def by blast
qed



text \<open>C17: An enrolment code is used once, and its use can be retried: after a node enrolled, the same request
  is answered with the same session, without another change, for as long as the code and the
  session last, and a different request with the code is refused.\<close>

theorem enrollment_once:
  assumes "enrollmentReceipt E s req now = Inr None" and "enroll_commit E s req token nonce now = Inr (session, s')"
    and "db_inv E s" and "unix now \<noteq> 0" and "credentialAEAD s"
    and "open_session E (seal_session E session nonce (enrollment_aad (ses_NodeID session))) (enrollment_aad (ses_NodeID session))
      = Some session"
  shows "(\<exists>e\<in>set (enrollments s'). e_code_hash e = tokenHash E (er_Code req) \<and> unix now < e_expires_at e
      \<and> (\<forall>t. unix t < e_expires_at e \<and> t < ses_ExpiresAt session \<longrightarrow> enroll_check E s' req t = Inr (Some session)))
    \<and> (\<forall>req' t. er_Code req' = er_Code req \<and> requestDigest E req' \<noteq> requestDigest E req \<longrightarrow>
        enrollmentReceipt E s' req' t = Inl ErrUnauthorized)"
proof -
  let ?f = "\<lambda>e. e\<lparr>e_consumed_at := unix now, e_request_hash := Some (requestDigest E req),
    e_response := Some (seal_session E session nonce (enrollment_aad (ses_NodeID session)))\<rparr>"
  from assms(1,2) obtain n where reg: "enroll_register E s req n token nonce now = Inr (session, s')"
    by (auto elim!: enroll_commit_cases)
  note t = enroll_register_tables [OF reg]
  from receipt_row [OF assms(1)] obtain e where e: "e \<in> set (enrollments s)" "e_code_hash e = tokenHash E (er_Code req)"
    "e_node_id e = ch_NodeID (er_Challenge req)" "unix now < e_expires_at e" "receipt_owner s e" by blast
  have inv': "db_inv E s'" by (rule enroll_commit_inv [OF assms(2,3)])
  have mem: "?f e \<in> set (enrollments s')" unfolding t(5) using e(1,3) t(7) by (force simp: update_where_def image_iff)
  have own: "receipt_owner s' (?f e)" using e(5) receipt_owner_register [OF t(3,1)] by (simp add: receipt_owner_def)
  have uniq: "unique e_code_hash (enrollments s')" using inv' by (simp add: db_inv_def enrollments_inv_def)
  have "enroll_check E s' req tt = Inr (Some session)" if "unix tt < e_expires_at e" "tt < ses_ExpiresAt session" for tt
  proof -
    have "find (\<lambda>x. e_code_hash x = tokenHash E (er_Code req) \<and> e_node_id x = ch_NodeID (er_Challenge req)
        \<and> unix tt < e_expires_at x \<and> receipt_owner s' x) (enrollments s') = Some (?f e)"
      using mem own e that by (intro find_Some_unique [OF uniq]) simp_all
    then show ?thesis
      using assms(4-6) that t(2,7) by (simp add: enroll_check_def enrollmentReceipt_def receipt_owner_def)
  qed
  moreover have "enrollmentReceipt E s' req' tt = Inl ErrUnauthorized"
    if d: "er_Code req' = er_Code req" "requestDigest E req' \<noteq> requestDigest E req" for req' tt
  proof -
    have "x = ?f e" if "find (\<lambda>x. e_code_hash x = tokenHash E (er_Code req') \<and> e_node_id x = ch_NodeID (er_Challenge req')
        \<and> unix tt < e_expires_at x \<and> receipt_owner s' x) (enrollments s') = Some x" for x
      using find_SomeD [OF that] mem uniq e(2) d(1) by (intro uniqueD [OF uniq]) simp_all
    then show ?thesis
      using d(2) assms(4) by (auto simp: enrollmentReceipt_def receipt_owner_def split: option.splits)
  qed
  ultimately show ?thesis using mem e(2,4) by (intro conjI bexI [of _ "?f e"]) auto
qed

text \<open>C18: A node that is released serves nobody: it has no session and its stream is closed, every grant of
  it is revoked, and the policy stored for it grants nothing.\<close>

theorem released_node:
  assumes "ReleaseNode E s token now = Inr s'" and "nodeSession E s token now = Inr session" and "db_inv E s"
  shows "no_session E s' (ses_NodeID session) \<and> \<not> stream_open (ses_NodeID session) s'
    \<and> (\<forall>g\<in>set (grants s'). g_node_id g = ses_NodeID session \<longrightarrow> g_state g = Revoked)
    \<and> (\<forall>p. stored_policy s' (ses_NodeID session) = Some p \<longrightarrow> p_Grants p = [])
    \<and> (\<exists>n. find_node s' (ses_NodeID session) = Some n \<and> n_state n = Pending)"
proof -
  let ?id = "ses_NodeID session"
  from assms(1,2) obtain s1 where r: "releaseNode E s ?id now = Inr s1" and s': "s' = closeNodeStream ?id s1"
    by (auto simp: ReleaseNode_def bindE_Inr_iff)
  from assms(2) obtain n0 where "find_node s ?id = Some n0"
    by (rule nodeSession_row) (metis find_node_def find_None_image image_eqI not_None_eq)
  then have n: "find_node (released ?id s) ?id = Some (release_node_row n0)"
    by (subst find_node_update [where f = release_node_row and s = s])
      (simp_all add: release_node_row_def released_def update_policy_row_def revoke_node_grants_def clear_node_tables_def)
  have t: "nodes s1 = nodes (released ?id s)" "grants s1 = grants (released ?id s)"
    "node_sessions s1 = node_sessions (released ?id s)"
    using r by (auto elim!: releaseNode_cases dest!: buildPolicy_same dest: same_tables)
  have "\<forall>x\<in>set (node_sessions s'). ns_node_id x \<noteq> ?id"
    by (simp add: s' closeNodeStream_def t(3) released_def update_policy_row_def revoke_node_grants_def clear_node_tables_def)
  then have "no_session E s' ?id" by (rule no_sessionI)
  moreover have "\<not> stream_open ?id s'" by (auto simp: stream_open_def s' closeNodeStream_def list_ex_iff)
  moreover have "\<forall>g\<in>set (grants s'). g_node_id g = ?id \<longrightarrow> g_state g = Revoked"
    by (auto simp: s' closeNodeStream_def t(2) released_def update_policy_row_def revoke_node_grants_def set_update_where)
  moreover have "\<forall>p. stored_policy s' ?id = Some p \<longrightarrow> p_Grants p = []"
    using r
  proof (rule releaseNode_cases)
    fix p assume b: "buildPolicy E (released ?id s) ?id now = Inr (p, s1)"
    then have "p_Grants p = []"
      by (rule buildPolicy_no_grants [OF _ n]) (simp add: release_node_row_def serving_state_def)
    then show ?thesis using buildPolicy_stored_policy [OF b] by (simp add: s' closeNodeStream_def stored_policy_def)
  next
    assume "?id \<notin> pr_node_id ` set (node_policies (released ?id s))" "s1 = released ?id s"
    then have "find (\<lambda>x. pr_node_id x = ?id) (node_policies s1) = None" unfolding find_None_image by simp
    then show ?thesis by (simp add: stored_policy_def s' closeNodeStream_def)
  qed
  moreover have "find_node s' ?id = Some (release_node_row n0)"
    using n t(1) by (simp add: find_node_def s' closeNodeStream_def)
  ultimately show ?thesis by (simp add: release_node_row_def)
qed

text \<open>A new node gets the smallest free region number from 900 to 999, and is refused for want of a
  region only when all hundred are taken.\<close>

theorem CreateNode_region:
  "(case free_region s of
      None \<Rightarrow> {900..999} \<subseteq> n_region_id ` set (nodes s)
    | Some r \<Rightarrow> 900 \<le> r \<and> r \<le> 999 \<and> r \<notin> n_region_id ` set (nodes s) \<and> {900..<r} \<subseteq> n_region_id ` set (nodes s))
   \<and> (\<forall>nd e s'. CreateNode E s actor name domain derpPort stunPort rid code now = Inr (nd, e, s') \<longrightarrow>
        free_region s = Some (nd_RegionID nd))"
proof -
  have "900 \<le> r \<and> r \<le> 999 \<and> r \<notin> n_region_id ` set (nodes s) \<and> {900..<r} \<subseteq> n_region_id ` set (nodes s)"
    if "free_region s = Some r" for r
    using find_upt_least [OF that [unfolded free_region_def]] by auto
  moreover have "{900..999} \<subseteq> n_region_id ` set (nodes s)" if "free_region s = None"
  proof
    fix x :: nat assume "x \<in> {900..999}"
    then have "x \<in> set [900..<1000]" unfolding set_upt by auto
    with that show "x \<in> n_region_id ` set (nodes s)" unfolding free_region_def find_None_iff by blast
  qed
  moreover have "free_region s = Some (nd_RegionID nd)"
    if "CreateNode E s actor name domain derpPort stunPort rid code now = Inr (nd, e, s')" for nd e s'
    using that by (rule CreateNode_Inr) (simp add: scanNode_def new_node_def)
  ultimately show ?thesis by (auto split: option.split)
qed

section \<open>Concrete inputs\<close>

lemma sample_serves_nothing:
  assumes "users s = users sample_store" "identity_snapshots s = identity_snapshots sample_store"
    and "settings s = settings sample_store" "clusterID s = ''c''"
    and "nodes s = [n]" "n_id n = ''n''" "n_owner_id n = ''u''"
    and "node_policies s = [sample_policy_row\<lparr>pr_received_revision := a, pr_applied_revision := b\<rparr>]"
    and "grants s = [] \<or> \<not> serving_state (n_state n)"
  shows "buildPolicy sample_env s ''n'' (unix_time 300) = Inr (sample_empty, store_policy sample_empty ''n'' s)"
proof (rule sample_build_empty_at)
  show "node_and_owner s ''n'' = Inr (n, sample_user)"
    using assms(1,5-7) by (simp add: node_and_owner_def query_row_def sample_store_defs)
  show "readRetentions s = Inr sample_day"
    using sample_retentions assms(3) by (simp add: readRetentions_def setting_def sample_day_def)
  show "policy_rows s ''n'' = [] \<or> \<not> (n_enabled n \<and> u_enabled sample_user \<and> serving_state (n_state n))"
    using assms(9) by (auto simp: policy_rows_def map_filter_simps)
  show "identitySnapshots s = Inr (projr (identitySnapshots sample_store))"
    using sample_snapshots assms(2) by (simp add: identitySnapshots_def)
qed (use assms in simp_all)

text \<open>A node that waits for its first key, with an open enrolment and the challenge its agent was given.\<close>

definition sample_code :: string where
  "sample_code = replicate 64 CHR ''b''"

definition sample_waiting :: store where
  "sample_waiting = sample_store\<lparr>nodes := [sample_node\<lparr>n_state := Pending, n_public_key := None\<rparr>], grants := [],
     enrollments := [\<lparr>e_node_id = ''n'', e_owner_id = ''u'', e_code_hash = CHR ''h'' # sample_code, e_expires_at = 900,
       e_consumed_at = 0, e_request_hash = None, e_response = None\<rparr>],
     node_challenges := [\<lparr>nc_nonce_hash = CHR ''h'' # replicate 64 CHR ''a'', nc_node_id = ''n'', nc_payload = sample_challenge,
       nc_expires_at = 400, nc_used_at = 0\<rparr>]\<rparr>"

definition sample_request :: enrollment_request where
  "sample_request = \<lparr>er_Code = sample_code, er_Challenge = sample_challenge,
     er_Signature = ed_sign sample_env (ch_PublicKey sample_challenge) sample_challenge\<rparr>"

definition sample_bearer :: string where
  "sample_bearer = replicate 64 CHR ''e''"

definition sample_session :: node_session where
  "sample_session = \<lparr>ses_ClusterID = ''c'', ses_NodeID = ''n'', ses_InstanceID = ''i'', ses_Token = sample_bearer,
     ses_ExpiresAt = unix_time 3900, ses_LeaseUntil = unix_time 390\<rparr>"


lemma sample_waiting_inv: "db_inv sample_env sample_waiting"
  unfolding sample_waiting_def by (simp del: set_filter add: db_inv_eval)

lemma sample_receipt: "enrollmentReceipt sample_env sample_waiting sample_request (unix_time 300) = Inr None"
  by (simp add: enrollmentReceipt_def sample_waiting_def sample_request_def sample_challenge_def sample_env_def
      sample_store_defs user_enabled_def)

lemma sample_check:
  "checkNodeChallenge sample_env sample_waiting sample_challenge (er_Signature sample_request) ''enroll'' (unix_time 300) = Inr ()"
  by (simp add: checkNodeChallenge_def sample_waiting_def sample_request_def sample_challenge_def sample_env_def
      sample_store_defs unix_time_def unix_def)

lemma sample_mint:
  assumes "\<forall>r\<in>set (node_sessions s). ns_node_id r = ''n''" "clusterID s = ''c''"
  shows "\<exists>s2. mintNodeSession sample_env s ''n'' ''i'' sample_bearer (unix_time 300) = Inr (sample_session, s2)"
proof -
  have "delete_where (\<lambda>r. ns_node_id r = ''n'') (node_sessions s) = []" using assms(1) by (simp add: delete_where_def)
  then show ?thesis
    using assms(2) by (simp add: mintNodeSession_def insert_row_def sample_session_def truncate_second_def unix_time_def unix_def second_def)
qed

lemma sample_enroll:
  "\<exists>s'. enroll_commit sample_env sample_waiting sample_request sample_bearer [] (unix_time 300) = Inr (sample_session, s')"
proof -
  let ?s1 = "ensure_policy_row ''n'' (register_node sample_challenge (unix_time 300) sample_waiting)"
  let ?n = "sample_node\<lparr>n_public_key := Some (ch_PublicKey sample_challenge), n_instance_id := ''i'',
    n_lease_until := 390, n_domain_verified_at := 300\<rparr>"
  have p: "pending_node sample_waiting sample_challenge = Some (sample_node\<lparr>n_state := Pending, n_public_key := None\<rparr>)"
    by (simp add: pending_node_def sample_waiting_def sample_challenge_def sample_node_def)
  have "buildPolicy sample_env ?s1 ''n'' (unix_time 300) = Inr (sample_empty, store_policy sample_empty ''n'' ?s1)"
    by (rule sample_serves_nothing [where n = ?n and a = 4 and b = 3])
      (simp_all add: sample_waiting_def ensure_policy_row_def register_node_def update_node_def update_where_def
        sample_store_defs sample_challenge_def unix_time_def unix_def second_def)
  moreover have "\<exists>s2. mintNodeSession sample_env (use_challenge sample_env sample_challenge (unix_time 300)
      (store_policy sample_empty ''n'' ?s1)) ''n'' ''i'' sample_bearer (unix_time 300) = Inr (sample_session, s2)"
    by (rule sample_mint) (simp_all add: store_policy_def update_policy_row_def ensure_policy_row_def
        register_node_def sample_waiting_def sample_store_def)
  moreover have "er_Challenge sample_request = sample_challenge" "ch_NodeID sample_challenge = ''n''" "ch_InstanceID sample_challenge = ''i''"
    by (simp_all add: sample_request_def sample_challenge_def)
  ultimately show ?thesis
    unfolding enroll_commit_def Let_def sample_receipt bindE_simps option.case
    using sample_check p by (auto simp: enroll_register_def)
qed

lemma sample_bearer_ok: "length sample_bearer = 64" "hex_ok sample_bearer"
  by (simp_all add: sample_bearer_def hex_ok_def is_hex_def list_all_iff less_eq_char_def)

theorem session_exclusive_witness:
  "\<exists>s'. enroll_commit sample_env sample_waiting sample_request sample_bearer [] (unix_time 300) = Inr (sample_session, s')
    \<and> (\<forall>token' t r. nodeSession sample_env s' token' t = Inr r \<and> ses_NodeID r = ''n'' \<longrightarrow>
        tokenHash sample_env token' = tokenHash sample_env sample_bearer)"
proof -
  from sample_enroll obtain s' where
    s': "enroll_commit sample_env sample_waiting sample_request sample_bearer [] (unix_time 300) = Inr (sample_session, s')" ..
  have c: "ch_NodeID sample_challenge = ''n''" "er_Challenge sample_request = sample_challenge"
    by (simp_all add: sample_challenge_def sample_request_def)
  have "\<forall>token' t r. nodeSession sample_env s' token' t = Inr r \<and> ses_NodeID r = ch_NodeID sample_challenge \<longrightarrow>
      tokenHash sample_env token' = tokenHash sample_env sample_bearer"
    using session_exclusive [OF disjI2 sample_waiting_inv sample_bearer_ok, OF conjI, OF sample_receipt conjI, OF s' refl] c
    by simp
  with s' c show ?thesis by auto
qed


theorem enrollment_once_witness:
  "\<exists>s'. enroll_commit sample_env sample_waiting sample_request sample_bearer [] (unix_time 300) = Inr (sample_session, s')
    \<and> enrollmentReceipt sample_env s' (sample_request\<lparr>er_Signature := []\<rparr>) (unix_time 301) = Inl ErrUnauthorized"
proof -
  from sample_enroll obtain s' where
    s': "enroll_commit sample_env sample_waiting sample_request sample_bearer [] (unix_time 300) = Inr (sample_session, s')" ..
  have "credentialAEAD sample_waiting" by (simp add: sample_waiting_def sample_store_def)
  moreover have "open_session sample_env (seal_session sample_env sample_session [] aad) aad = Some sample_session" for aad
    by (simp add: sample_env_def sample_session_def)
  ultimately have "enrollmentReceipt sample_env s' (sample_request\<lparr>er_Signature := []\<rparr>) (unix_time 301) = Inl ErrUnauthorized"
    using enrollment_once [OF sample_receipt s' sample_waiting_inv]
    by (simp add: sample_request_def sample_env_def sample_challenge_def)
  with s' show ?thesis by blast
qed

text \<open>A second instance asks for a session while the lease of the first one runs.\<close>

definition sample_rival :: node_challenge where
  "sample_rival = sample_challenge\<lparr>ch_Purpose := ''session'', ch_InstanceID := ''j''\<rparr>"

definition sample_rivals :: store where
  "sample_rivals = sample_store\<lparr>nodes := [sample_node\<lparr>n_public_key := Some (ch_PublicKey sample_challenge), n_lease_until := 390\<rparr>],
     node_challenges := [\<lparr>nc_nonce_hash = CHR ''h'' # replicate 64 CHR ''a'', nc_node_id = ''n'', nc_payload = sample_rival,
       nc_expires_at = 400, nc_used_at = 0\<rparr>]\<rparr>"

lemma sample_rivals_inv: "db_inv sample_env sample_rivals"
  unfolding sample_rivals_def by (simp del: set_filter add: sample_challenge_def db_inv_eval)


theorem released_node_witness:
  "\<exists>s'. ReleaseNode sample_env sample_store (replicate 64 CHR ''a'') (unix_time 300) = Inr s' \<and> no_session sample_env s' ''n''"
proof -
  let ?s = "released ''n'' sample_store"
  have "buildPolicy sample_env ?s ''n'' (unix_time 300) = Inr (sample_empty, store_policy sample_empty ''n'' ?s)"
    by (rule sample_serves_nothing [where n = "release_node_row sample_node" and a = 0 and b = 0])
      (simp_all add: released_def update_policy_row_def revoke_node_grants_def clear_node_tables_def release_node_row_def
        reset_policy_row_def update_node_def update_where_def sample_store_defs serving_state_def)
  then have r: "\<exists>s'. releaseNode sample_env sample_store ''n'' (unix_time 300) = Inr s'"
    unfolding releaseNode_def Let_def released_def [symmetric] by simp
  have "hex_ok (replicate 64 CHR ''a'')" by (simp add: hex_ok_def is_hex_def list_all_iff less_eq_char_def)
  then have "\<exists>session. nodeSession sample_env sample_store (replicate 64 CHR ''a'') (unix_time 300) = Inr session \<and> ses_NodeID session = ''n''"
    by (simp add: nodeSession_def live_session_def sample_store_defs sample_env_def serving_state_def user_enabled_def)
  then obtain session where n: "nodeSession sample_env sample_store (replicate 64 CHR ''a'') (unix_time 300) = Inr session"
    "ses_NodeID session = ''n''" by blast
  with r obtain s' where s': "ReleaseNode sample_env sample_store (replicate 64 CHR ''a'') (unix_time 300) = Inr s'"
    by (auto simp: ReleaseNode_def)
  from released_node [OF s' n(1) sample_store_inv] n(2) s' show ?thesis by auto
qed

theorem CreateNode_region_witness:
  "free_region sample_store = Some 901 \<and> 901 \<notin> n_region_id ` set (nodes sample_store)"
proof -
  have "[900..<1000] = 900 # 901 # [902..<1000]" by (simp add: upt_rec [of 900] upt_rec [of 901] del: upt_Suc)
  then have "free_region sample_store = Some 901"
    unfolding free_region_def by (simp only: find.simps) (simp add: sample_store_def sample_node_def)
  then show ?thesis using CreateNode_region [of sample_store] by simp
qed

end
