(* ===== verification/Guard.thy ===== *)
theory Guard
  imports Sessions
begin

text \<open>
  The contract every operation on somebody's resource keeps: it acts for an actor that is
  active and may act for an owner of the resource, and it leaves one audit entry that names
  the actor and the owner. The consequences are proved once, in the locale, and hold of each
  operation that is interpreted in it.
\<close>

section \<open>The contract\<close>

text \<open>
  \<open>effect s a x s'\<close>: the operation on \<open>x\<close>, asked for by \<open>a\<close>, commits and leads from \<open>s\<close> to \<open>s'\<close>.
  \<open>owner s x u\<close>: the resource belongs to \<open>u\<close>, possibly among others.
\<close>

definition logged_by :: "actor \<Rightarrow> (string \<Rightarrow> bool) \<Rightarrow> store \<Rightarrow> store \<Rightarrow> bool" where
  "logged_by a owns s s' \<longleftrightarrow>
     (\<exists>row. audit s' = audit s @ [row] \<and> a_actor_id row = ac_ID a \<and> owns (a_owner_id row))"

definition guarded_effect :: "actor \<Rightarrow> (string \<Rightarrow> bool) \<Rightarrow> store \<Rightarrow> store \<Rightarrow> bool" where
  "guarded_effect a owns s s' \<longleftrightarrow> activeActor s a = Inr () \<and> (\<exists>u. owns u \<and> may_act a u)
     \<and> (s' = s \<or> logged_by a owns s s')"

locale owned_operation =
  fixes effect :: "store \<Rightarrow> actor \<Rightarrow> 'x \<Rightarrow> store \<Rightarrow> bool"
    and owner :: "store \<Rightarrow> 'x \<Rightarrow> string \<Rightarrow> bool"
  assumes guarded: "effect s a x s' \<Longrightarrow> guarded_effect a (owner s x) s s'"
begin

lemma stranger_refused:
  assumes "ac_Role a \<noteq> ''admin''" and "\<not> owner s x (ac_ID a)"
  shows "\<not> effect s a x s'"
  using guarded [of s a x s'] assms by (auto simp: may_act_def guarded_effect_def)

lemma inactive_refused:
  assumes "ac_ID a \<noteq> ''local''" and "\<not> user_enabled s (ac_ID a)"
  shows "\<not> effect s a x s'"
proof -
  have "activeActor s a \<noteq> Inr ()"
    using assms by (auto simp: activeActor_def user_enabled_def list_ex_iff split: option.split dest!: find_SomeD)
  then show ?thesis using guarded by (auto simp: guarded_effect_def)
qed

text \<open>Along any sequence of such operations, every change is on record.\<close>

lemma trail:
  assumes "(\<lambda>s s'. \<exists>a x. effect s a x s')\<^sup>*\<^sup>* s s'"
  shows "\<exists>rows. audit s' = audit s @ rows \<and> (rows = [] \<longrightarrow> s' = s)"
  using assms
proof (induction rule: rtranclp_induct)
  case (step t u)
  then obtain rows a x where rows: "audit t = audit s @ rows" "rows = [] \<longrightarrow> t = s" and e: "effect t a x u" by blast
  from guarded [OF e] have "u = t \<or> logged_by a (owner t x) t u" by (simp add: guarded_effect_def)
  then show ?case
  proof
    assume "u = t" with rows show ?case by auto
  next
    assume "logged_by a (owner t x) t u"
    then obtain row where "audit u = (audit s @ rows) @ [row]" using rows(1) by (auto simp: logged_by_def)
    then show ?case by (intro exI [of _ "rows @ [row]"]) simp
  qed
qed simp

end

section \<open>Grants, enrolment and recovery\<close>

definition owns_node :: "store \<Rightarrow> string \<Rightarrow> string \<Rightarrow> bool" where
  "owns_node s rid u \<longleftrightarrow> (\<exists>n\<in>set (nodes s). n_id n = rid \<and> n_owner_id n = u)"

definition owns_tailnet :: "store \<Rightarrow> string \<Rightarrow> string \<Rightarrow> bool" where
  "owns_tailnet s rid u \<longleftrightarrow> (\<exists>t\<in>set (tailnets s). t_id t = rid \<and> t_owner_id t = u)"

definition party_to_grant :: "store \<Rightarrow> string \<Rightarrow> string \<Rightarrow> bool" where
  "party_to_grant s rid u \<longleftrightarrow>
     (\<exists>g\<in>set (grants s). g_id g = rid \<and> (owns_node s (g_node_id g) u \<or> owns_tailnet s (g_tailnet_id g) u))"

lemma owns_node_select: "select_node s rid = Inr n \<Longrightarrow> owns_node s rid (n_owner_id n)"
  using select_node_Inr by (auto simp: owns_node_def)

lemma logged_byI:
  "audit s' = audit s \<Longrightarrow> owns u \<Longrightarrow> logged_by a owns s (writeAudit (ac_ID a) u k r w now s')"
  by (simp add: logged_by_def writeAudit_def)

lemma logged_by_frame [simp]:
  "logged_by a owns s (notifyPolicy rid s') = logged_by a owns s s'"
  "logged_by a owns s (notifyPolicies s') = logged_by a owns s s'"
  "logged_by a owns s (closeNodeStream rid s') = logged_by a owns s s'"
  by (simp_all add: logged_by_def notifyPolicy_def notifyPolicies_def closeNodeStream_def)

lemma logged_by_build: "same_but_policies s1 s' \<Longrightarrow> logged_by a owns s s' = logged_by a owns s s1"
  by (simp add: logged_by_def same_tables(12))

lemma audit_same [simp]:
  "audit (update_node rid f s) = audit s" "audit (set_grant_state g st r c s) = audit s"
  "audit (update_policy_row rid h s) = audit s" "audit (clear_node_tables rid s) = audit s"
  "audit (revoke_node_grants rid s) = audit s" "audit (resolve_events P now s) = audit s"
  "audit (delete_node_row rid s) = audit s" "audit (delete_tailnet_row rid s) = audit s"
  by (simp_all add: update_node_def set_grant_state_def update_policy_row_def clear_node_tables_def
      revoke_node_grants_def resolve_events_def delete_node_row_def delete_tailnet_row_def)

lemma find_owners:
  "find_node s rid = Some n \<Longrightarrow> owns_node s rid (n_owner_id n)"
  "find_tailnet s rid = Some t \<Longrightarrow> owns_tailnet s rid (t_owner_id t)"
  by (auto simp: find_node_def find_tailnet_def owns_node_def owns_tailnet_def dest!: find_SomeD)

lemma action_rule_party:
  assumes "scanGrant s (\<lambda>g. g_id g = rid) now = Inr g" and "action_rule action g = Some (u, nxt, ok)"
  shows "party_to_grant s rid u"
  using assms(1)
proof (rule scanGrant_Inr)
  fix row n t name
  assume r: "row \<in> set (grants s)" "g_id row = rid" "find_node s (g_node_id row) = Some n"
    "find_tailnet s (g_tailnet_id row) = Some t" "g = grant_view row n t name now"
  then have "u = n_owner_id n \<or> u = t_owner_id t"
    using assms(2) by (auto simp: grant_view_def elim!: action_rule.elims)
  with r find_owners show ?thesis unfolding party_to_grant_def by blast
qed

lemma ApplyGrantAction_guarded:
  assumes "ApplyGrantAction E s a rid expected action now = Inr (g, s')"
  shows "guarded_effect a (party_to_grant s rid) s s'"
  using assms
  by (rule ApplyGrantAction_cases)
    (auto simp: guarded_effect_def dest: action_rule_party dest!: buildPolicy_same intro!: logged_byI simp: same_tables(12))

interpretation grant_action_op: owned_operation
  "\<lambda>s a rid s'. \<exists>expected action now g. ApplyGrantAction E s a rid expected action now = Inr (g, s')"
  party_to_grant for E
  by unfold_locales (auto dest: ApplyGrantAction_guarded)

lemma request_write_logged:
  assumes "request_write E s a u st until0 untilUnix g0 now = Inr (g, s')" and "owns u"
  shows "logged_by a owns s s'"
proof -
  have up: "upsert_grant h s = Inr s1 \<Longrightarrow> audit s1 = audit s" for h s1
    by (auto simp: upsert_grant_def bindE_Inr_iff split: if_splits)
  from assms(1) obtain s2 where "audit s2 = audit s"
    and "s' = notifyPolicy (gr_NodeID g0) (writeAudit (ac_ID a) u ''grant'' (gr_ID g0) ''grant.request'' now s2)"
    unfolding request_write_def bindE_Inr_iff by (auto dest!: buildPolicy_same up same_tables(12))
  with assms(2) show ?thesis by (auto intro: logged_byI)
qed

lemma RequestGrant_guarded:
  assumes "RequestGrant E s a node tailnet expected until0 token now = Inr (g, s')"
  shows "guarded_effect a (owns_tailnet s tailnet) s s'"
  using assms
proof (rule RequestGrant_cases)
  fix n t base until untilUnix
  assume t: "query_row (\<lambda>t. t_id t = tailnet) (tailnets s) = Inr t" and a: "activeActor s a = Inr ()" "may_act a (t_owner_id t)"
    and b: "base = Inl g \<and> s' = s \<or> (\<exists>g0. base = Inr g0
      \<and> request_write E s a (t_owner_id t) (request_state n t) until untilUnix g0 now = Inr (g, s'))"
  have "owns_tailnet s tailnet (t_owner_id t)" using query_row_InrD [OF t] by (auto simp: owns_tailnet_def)
  with a b show ?thesis unfolding guarded_effect_def by (auto intro: request_write_logged)
qed

interpretation grant_request_op: owned_operation
  "\<lambda>s a tailnet s'. \<exists>node expected until0 token now g. RequestGrant E s a node tailnet expected until0 token now = Inr (g, s')"
  owns_tailnet for E
  by unfold_locales (auto dest: RequestGrant_guarded)

lemma IssueEnrollment_guarded:
  assumes "IssueEnrollment E s a rid code now = Inr (e, s')"
  shows "guarded_effect a (owns_node s rid) s s'"
  using assms
proof (rule IssueEnrollment_Inr)
  fix n s1 s2
  assume n: "activeActor s a = Inr ()" "select_node s rid = Inr n" "may_act a (n_owner_id n)"
    and s1: "(if n_state n \<noteq> Pending then releaseNode E s rid now else Inr s) = Inr s1"
    and s2: "issueEnrollment E s1 n code now = Inr (e, s2)"
    and s': "s' = closeNodeStream rid (writeAudit (ac_ID a) (n_owner_id n) ''node'' rid ''enrollment.issue'' now s2)"
  have "audit s2 = audit s1" using s2 by (auto simp: issueEnrollment_def Let_def bindE_Inr_iff upsert_enrollment_def split: if_splits)
  also have "audit s1 = audit s"
    using s1 by (auto simp: released_def dest!: buildPolicy_same elim!: releaseNode_cases split: if_splits simp: same_tables(12))
  finally show ?thesis using n owns_node_select unfolding s' guarded_effect_def by (auto intro!: logged_byI)
qed

interpretation enrollment_op: owned_operation
  "\<lambda>s a rid s'. \<exists>code now e. IssueEnrollment E s a rid code now = Inr (e, s')" owns_node for E
  by unfold_locales (auto dest: IssueEnrollment_guarded)

lemma RecoverNodeInstance_guarded:
  assumes "RecoverNodeInstance E s a rid inst now = Inr s'"
  shows "guarded_effect a (owns_node s rid) s s'"
  using assms
  by (rule RecoverNodeInstance_Inr)
    (use owns_node_select in \<open>auto simp: guarded_effect_def logged_by_build dest!: buildPolicy_same intro!: logged_byI\<close>)

interpretation recovery_op: owned_operation
  "\<lambda>s a rid s'. \<exists>inst now. RecoverNodeInstance E s a rid inst now = Inr s'" owns_node for E
  by unfold_locales (auto dest: RecoverNodeInstance_guarded)

end
