(* ===== verification/Resources.thy ===== *)
theory Resources
  imports Guard
begin

text \<open>
  The operations of owners on their nodes and tailnets (resources.go) and the bandwidth rules
  of a node (qos.go). Each one runs in a transaction, so an error leaves the store as it was;
  the streams of the nodes are notified after the commit.
\<close>

section \<open>Nodes and tailnets\<close>

definition SetNodePorts :: "store \<Rightarrow> actor \<Rightarrow> string \<Rightarrow> int \<Rightarrow> int \<Rightarrow> time \<Rightarrow> store result" where
  "SetNodePorts s actor rid derpPort stunPort now =
     bindE (failIf (bad_port derpPort \<or> bad_port stunPort) ErrInvalid) (\<lambda>_.
     bindE (activeActor s actor) (\<lambda>_.
     bindE (select_node s rid) (\<lambda>n.
     bindE (RequireOwner actor (n_owner_id n)) (\<lambda>_.
     setNodePorts s n (ac_ID actor) derpPort stunPort now))))"

definition update_tailnet :: "string \<Rightarrow> (tailnet_row \<Rightarrow> tailnet_row) \<Rightarrow> store \<Rightarrow> store" where
  "update_tailnet rid f s = s\<lparr>tailnets := update_where (\<lambda>t. t_id t = rid) f (tailnets s)\<rparr>"

definition SetTailnetEnabled :: "env \<Rightarrow> store \<Rightarrow> actor \<Rightarrow> string \<Rightarrow> bool \<Rightarrow> time \<Rightarrow> store result" where
  "SetTailnetEnabled E s actor rid enabled now =
     bindE (tailnetOwner s actor rid) (\<lambda>owner.
     bindE (rebuildPolicies E now (update_tailnet rid (\<lambda>t. t\<lparr>t_enabled := enabled\<rparr>) s)) (\<lambda>s1.
     Inr (notifyPolicies (writeAudit (ac_ID actor) owner ''tailnet'' rid ''tailnet.enabled'' now s1))))"

definition DeleteTailnet :: "env \<Rightarrow> store \<Rightarrow> actor \<Rightarrow> string \<Rightarrow> time \<Rightarrow> store result" where
  "DeleteTailnet E s actor rid now =
     bindE (tailnetOwner s actor rid) (\<lambda>owner.
     bindE (rebuildPolicies E now (delete_tailnet_row rid s)) (\<lambda>s1.
     Inr (notifyPolicies (writeAudit (ac_ID actor) owner ''tailnet'' rid ''tailnet.delete'' now s1))))"

definition SetNodeEnabled :: "env \<Rightarrow> store \<Rightarrow> actor \<Rightarrow> string \<Rightarrow> bool \<Rightarrow> time \<Rightarrow> store result" where
  "SetNodeEnabled E s actor rid enabled now =
     bindE (activeActor s actor) (\<lambda>_.
     bindE (select_node s rid) (\<lambda>n.
     bindE (RequireOwner actor (n_owner_id n)) (\<lambda>_.
     bindE (failIf (enabled \<and> n_state n = DomainPending) ErrConflict) (\<lambda>_.
     let s1 = update_node rid (\<lambda>m. m\<lparr>n_enabled := enabled\<rparr>) s
     in bindE (if n_state n \<noteq> Pending then bindE (buildPolicy E s1 rid now) (\<lambda>(_, s2). Inr s2) else Inr s1) (\<lambda>s2.
        Inr (notifyPolicy rid (writeAudit (ac_ID actor) (n_owner_id n) ''node'' rid ''node.enabled'' now s2)))))))"

text \<open>A connected agent that has not applied the policy it should have is still serving the old one.\<close>

definition unapplied :: "store \<Rightarrow> string \<Rightarrow> bool" where
  "unapplied s rid \<longleftrightarrow>
     (case find (\<lambda>r. pr_node_id r = rid) (node_policies s) of
        None \<Rightarrow> False | Some r \<Rightarrow> pr_applied_revision r \<noteq> pr_desired_revision r)"

definition DeleteNode :: "store \<Rightarrow> actor \<Rightarrow> string \<Rightarrow> time \<Rightarrow> store result" where
  "DeleteNode s actor rid now =
     bindE (activeActor s actor) (\<lambda>_.
     bindE (select_node s rid) (\<lambda>n.
     bindE (RequireOwner actor (n_owner_id n)) (\<lambda>_.
     bindE (failIf (n_state n \<noteq> Pending \<and> n_enabled n) ErrConflict) (\<lambda>_.
     bindE (failIf (n_state n \<noteq> Pending \<and> stream_open rid s \<and> unapplied s rid) ErrConflict) (\<lambda>_.
     Inr (notifyPolicy rid (writeAudit (ac_ID actor) (n_owner_id n) ''node'' rid ''node.delete'' now (delete_node_row rid s))))))))"

definition domain_change_row :: "string \<Rightarrow> node_row \<Rightarrow> node_row" where
  "domain_change_row domain n = n\<lparr>n_domain := domain, n_state := DomainPending, n_domain_verified_at := 0, n_last_error := []\<rparr>"

definition ChangeNodeDomain :: "store \<Rightarrow> actor \<Rightarrow> string \<Rightarrow> string \<Rightarrow> time \<Rightarrow> store result" where
  "ChangeNodeDomain s actor rid rawDomain now =
     (case normalizeNodeDomain rawDomain of
        Inl _ \<Rightarrow> Inl (InputError ''invalid_hostname'' ''domain'')
      | Inr domain \<Rightarrow>
          bindE (activeActor s actor) (\<lambda>_.
          bindE (select_node s rid) (\<lambda>n.
          bindE (RequireOwner actor (n_owner_id n)) (\<lambda>_.
          bindE (failIf (n_enabled n \<or> \<not> (serving_state (n_state n) \<or> n_state n = DomainPending)) ErrConflict) (\<lambda>_.
          if domain = n_domain n then Inr s
          else bindE (failIf (list_ex (\<lambda>m. n_domain m = domain \<and> n_id m \<noteq> rid) (nodes s)) ErrConflict) (\<lambda>_.
          bindE (query_row (\<lambda>r. pr_node_id r = rid) (node_policies s)) (\<lambda>row.
          bindE (failIf (stream_open rid s \<and> pr_desired_revision row \<noteq> pr_applied_revision row) ErrConflict) (\<lambda>_.
          Inr (notifyPolicy rid (writeAudit (ac_ID actor) (n_owner_id n) ''node'' rid ''node.domain.change'' now
                 (clear_node_tables rid (update_node rid (domain_change_row domain) s))))))))))))"

section \<open>Bandwidth rules\<close>

text \<open>A grant that is asked for, approved or active has a rule; the states are those of the queries.\<close>

definition live_grant :: "grant_row \<Rightarrow> bool" where
  "live_grant g \<longleftrightarrow> g_state g = Requested \<or> g_state g = OwnerApproved \<or> g_state g = Active"

definition may_see_rules :: "store \<Rightarrow> actor \<Rightarrow> string \<Rightarrow> string \<Rightarrow> bool" where
  "may_see_rules s actor node owner \<longleftrightarrow> RequireOwner actor owner = Inr ()
     \<or> list_ex (\<lambda>g. g_node_id g = node \<and> live_grant g
         \<and> (case find_tailnet s (g_tailnet_id g) of None \<Rightarrow> False | Some t \<Rightarrow> t_owner_id t = ac_ID actor)) (grants s)"

text \<open>One row of the listing; \<open>full\<close> says that the actor may act for the node's owner.\<close>

definition rule_of_grant :: "store \<Rightarrow> actor \<Rightarrow> bool \<Rightarrow> string \<Rightarrow> grant_row \<Rightarrow> tailnet_qos option" where
  "rule_of_grant s actor full owner g =
     (case find_tailnet s (g_tailnet_id g) of
        None \<Rightarrow> None
      | Some t \<Rightarrow> if t_owner_id t = ac_ID actor \<or> full
                  then Some (rule_entry owner g t (find_rule s (g_node_id g) (g_tailnet_id g))) else None)"

definition NodeQoS :: "store \<Rightarrow> actor \<Rightarrow> string \<Rightarrow> qos_policy result" where
  "NodeQoS s actor node =
     bindE (RequireOwner actor (ac_ID actor)) (\<lambda>_.
     bindE (select_node s node) (\<lambda>n.
     bindE (failIf (\<not> may_see_rules s actor node (n_owner_id n)) ErrForbidden) (\<lambda>_.
     bindE (query_row (\<lambda>r. pr_node_id r = node) (node_policies s)) (\<lambda>r.
     Inr \<lparr>q_BudgetBPS = pr_budget_bps r, q_OwnerWeight = pr_owner_weight r, q_SharedWeight = pr_shared_weight r,
          q_SharedMaxBPS = pr_shared_max_bps r,
          q_Tailnets = List.map_filter (rule_of_grant s actor (RequireOwner actor (n_owner_id n) = Inr ()) (n_owner_id n))
             (sort_key g_tailnet_id (filter (\<lambda>g. g_node_id g = node \<and> live_grant g) (grants s)))\<rparr>))))"

definition set_budget :: "string \<Rightarrow> qos_policy \<Rightarrow> store \<Rightarrow> store" where
  "set_budget node q = update_policy_row node (\<lambda>r. r\<lparr>pr_budget_bps := q_BudgetBPS q, pr_owner_weight := q_OwnerWeight q,
     pr_shared_weight := q_SharedWeight q, pr_shared_max_bps := q_SharedMaxBPS q\<rparr>)"

definition clear_rules :: "string \<Rightarrow> store \<Rightarrow> store" where
  "clear_rules node s = s\<lparr>tailnet_rules := delete_where (\<lambda>r. r_node_id r = node) (tailnet_rules s)\<rparr>"

text \<open>The owner of the tailnet of a live grant, and the insertion of one rule.\<close>

definition granted_owner :: "store \<Rightarrow> string \<Rightarrow> string \<Rightarrow> string option" where
  "granted_owner s node tailnet =
     (if list_ex (\<lambda>g. g_node_id g = node \<and> g_tailnet_id g = tailnet \<and> live_grant g) (grants s)
      then map_option t_owner_id (find_tailnet s tailnet) else None)"

definition new_rule :: "string \<Rightarrow> tailnet_qos \<Rightarrow> rule_row" where
  "new_rule node rule = \<lparr>r_node_id = node, r_tailnet_id = tq_TailnetID rule, r_group_name = tq_Group rule,
     r_weight = tq_Weight rule, r_max_bps = tq_MaxBPS rule\<rparr>"

definition insert_rule :: "string \<Rightarrow> string \<Rightarrow> tailnet_qos \<Rightarrow> store \<Rightarrow> store result" where
  "insert_rule node owner rule s =
     (case granted_owner s node (tq_TailnetID rule) of
        None \<Rightarrow> Inl ErrInvalid
      | Some tnOwner \<Rightarrow>
          if tq_Group rule = ''owner'' \<and> tnOwner \<noteq> owner then Inl ErrInvalid
          else bindE (insert_row (\<lambda>r. (r_node_id r, r_tailnet_id r)) (new_rule node rule) (tailnet_rules s)) (\<lambda>rs.
               Inr (s\<lparr>tailnet_rules := rs\<rparr>)))"

definition SetNodeQoS :: "env \<Rightarrow> store \<Rightarrow> actor \<Rightarrow> string \<Rightarrow> qos_policy \<Rightarrow> time \<Rightarrow> store result" where
  "SetNodeQoS E s actor node q now =
     (case ValidateQoS q of
        Inl _ \<Rightarrow> Inl ErrInvalid
      | Inr _ \<Rightarrow>
          bindE (activeActor s actor) (\<lambda>_.
          bindE (select_node s node) (\<lambda>n.
          bindE (RequireOwner actor (n_owner_id n)) (\<lambda>_.
          bindE (foldE (insert_rule node (n_owner_id n)) (q_Tailnets q) (clear_rules node (set_budget node q s))) (\<lambda>s1.
          bindE (buildPolicy E s1 node now) (\<lambda>(_, s2).
          Inr (notifyPolicy node (writeAudit (ac_ID actor) (n_owner_id n) ''node'' node ''node.qos'' now s2))))))))"

section \<open>What success means\<close>

lemma SetNodePorts_Inr:
  assumes "SetNodePorts s a rid derpPort stunPort now = Inr s'"
  obtains n where "activeActor s a = Inr ()" "select_node s rid = Inr n" "may_act a (n_owner_id n)"
    "setNodePorts s n (ac_ID a) derpPort stunPort now = Inr s'"
  using assms unfolding SetNodePorts_def by (auto simp: bindE_Inr_iff RequireOwner_Inr failIf_Inr_iff)

lemma tailnetOwner_Inr:
  assumes "tailnetOwner s a rid = Inr u"
  shows "activeActor s a = Inr () \<and> owns_tailnet s rid u \<and> may_act a u"
  using assms by (auto simp: tailnetOwner_def bindE_Inr_iff RequireOwner_Inr owns_tailnet_def dest!: query_row_InrD)

lemma SetTailnetEnabled_Inr:
  assumes "SetTailnetEnabled E s a rid en now = Inr s'"
  obtains u s1 where "tailnetOwner s a rid = Inr u"
    "rebuildPolicies E now (update_tailnet rid (\<lambda>t. t\<lparr>t_enabled := en\<rparr>) s) = Inr s1"
    "s' = notifyPolicies (writeAudit (ac_ID a) u ''tailnet'' rid ''tailnet.enabled'' now s1)"
  using assms unfolding SetTailnetEnabled_def bindE_Inr_iff by (auto intro: that)

lemma DeleteTailnet_Inr:
  assumes "DeleteTailnet E s a rid now = Inr s'"
  obtains u s1 where "tailnetOwner s a rid = Inr u" "rebuildPolicies E now (delete_tailnet_row rid s) = Inr s1"
    "s' = notifyPolicies (writeAudit (ac_ID a) u ''tailnet'' rid ''tailnet.delete'' now s1)"
  using assms unfolding DeleteTailnet_def bindE_Inr_iff by (auto intro: that)

lemma SetNodeEnabled_Inr:
  assumes "SetNodeEnabled E s a rid en now = Inr s'"
  obtains n s2 where "activeActor s a = Inr ()" "select_node s rid = Inr n" "may_act a (n_owner_id n)"
    "\<not> (en \<and> n_state n = DomainPending)"
    "if n_state n = Pending then s2 = update_node rid (\<lambda>m. m\<lparr>n_enabled := en\<rparr>) s
     else \<exists>p. buildPolicy E (update_node rid (\<lambda>m. m\<lparr>n_enabled := en\<rparr>) s) rid now = Inr (p, s2)"
    "s' = notifyPolicy rid (writeAudit (ac_ID a) (n_owner_id n) ''node'' rid ''node.enabled'' now s2)"
proof -
  from assms obtain n s2 where *: "activeActor s a = Inr ()" "select_node s rid = Inr n" "may_act a (n_owner_id n)"
    "\<not> (en \<and> n_state n = DomainPending)"
    "(if n_state n \<noteq> Pending then bindE (buildPolicy E (update_node rid (\<lambda>m. m\<lparr>n_enabled := en\<rparr>) s) rid now) (\<lambda>(_, s2). Inr s2)
      else Inr (update_node rid (\<lambda>m. m\<lparr>n_enabled := en\<rparr>) s)) = Inr s2"
    "s' = notifyPolicy rid (writeAudit (ac_ID a) (n_owner_id n) ''node'' rid ''node.enabled'' now s2)"
    unfolding SetNodeEnabled_def Let_def bindE_Inr_iff RequireOwner_Inr failIf_Inr_iff by (auto simp del: if_split_asm)
  from *(5) have "if n_state n = Pending then s2 = update_node rid (\<lambda>m. m\<lparr>n_enabled := en\<rparr>) s
     else \<exists>p. buildPolicy E (update_node rid (\<lambda>m. m\<lparr>n_enabled := en\<rparr>) s) rid now = Inr (p, s2)"
    by (auto simp: bindE_Inr_iff)
  with * show thesis by (intro that)
qed

lemma DeleteNode_Inr:
  assumes "DeleteNode s a rid now = Inr s'"
  obtains n where "activeActor s a = Inr ()" "select_node s rid = Inr n" "may_act a (n_owner_id n)"
    "n_state n = Pending \<or> \<not> n_enabled n \<and> \<not> (stream_open rid s \<and> unapplied s rid)"
    "s' = notifyPolicy rid (writeAudit (ac_ID a) (n_owner_id n) ''node'' rid ''node.delete'' now (delete_node_row rid s))"
  using assms unfolding DeleteNode_def bindE_Inr_iff RequireOwner_Inr failIf_Inr_iff by (auto intro: that)

lemma ChangeNodeDomain_Inr:
  assumes "ChangeNodeDomain s a rid raw now = Inr s'"
  obtains domain n where "normalizeNodeDomain raw = Inr domain" "activeActor s a = Inr ()" "select_node s rid = Inr n"
    "may_act a (n_owner_id n)" "\<not> n_enabled n" "serving_state (n_state n) \<or> n_state n = DomainPending"
    "domain = n_domain n \<and> s' = s \<or> domain \<noteq> n_domain n \<and> \<not> list_ex (\<lambda>m. n_domain m = domain \<and> n_id m \<noteq> rid) (nodes s)
       \<and> \<not> (stream_open rid s \<and> unapplied s rid)
       \<and> s' = notifyPolicy rid (writeAudit (ac_ID a) (n_owner_id n) ''node'' rid ''node.domain.change'' now
                 (clear_node_tables rid (update_node rid (domain_change_row domain) s)))"
proof -
  from assms obtain domain where d: "normalizeNodeDomain raw = Inr domain"
    by (cases "normalizeNodeDomain raw") (auto simp: ChangeNodeDomain_def)
  note eq = assms [unfolded ChangeNodeDomain_def d sum.case bindE_Inr_iff RequireOwner_Inr failIf_Inr_iff]
  then obtain n where n: "activeActor s a = Inr ()" "select_node s rid = Inr n"
    "may_act a (n_owner_id n)" "\<not> n_enabled n" "serving_state (n_state n) \<or> n_state n = DomainPending"
    and r: "(if domain = n_domain n then Inr s
       else bindE (failIf (list_ex (\<lambda>m. n_domain m = domain \<and> n_id m \<noteq> rid) (nodes s)) ErrConflict) (\<lambda>_.
          bindE (query_row (\<lambda>r. pr_node_id r = rid) (node_policies s)) (\<lambda>row.
          bindE (failIf (stream_open rid s \<and> pr_desired_revision row \<noteq> pr_applied_revision row) ErrConflict) (\<lambda>_.
          Inr (notifyPolicy rid (writeAudit (ac_ID a) (n_owner_id n) ''node'' rid ''node.domain.change'' now
                 (clear_node_tables rid (update_node rid (domain_change_row domain) s)))))))) = Inr s'"
    by (auto simp del: if_split_asm)
  show thesis
  proof (cases "domain = n_domain n")
    case True
    with r n d show thesis by (intro that [of domain n]) simp_all
  next
    case False
    from r [unfolded if_not_P [OF False] bindE_Inr_iff failIf_Inr_iff query_row_Inr]
    have "\<not> list_ex (\<lambda>m. n_domain m = domain \<and> n_id m \<noteq> rid) (nodes s) \<and> \<not> (stream_open rid s \<and> unapplied s rid)
       \<and> s' = notifyPolicy rid (writeAudit (ac_ID a) (n_owner_id n) ''node'' rid ''node.domain.change'' now
                 (clear_node_tables rid (update_node rid (domain_change_row domain) s)))"
      by (auto simp: unapplied_def)
    with False n d show thesis by (intro that [of domain n]) blast+
  qed
qed

lemma insert_rules_Inr:
  assumes "foldE (insert_rule node owner) rules s = Inr s'"
  shows "s' = s\<lparr>tailnet_rules := tailnet_rules s @ map (new_rule node) rules\<rparr>
    \<and> (\<forall>rule\<in>set rules. \<exists>u. granted_owner s node (tq_TailnetID rule) = Some u \<and> (tq_Group rule = ''owner'' \<longrightarrow> u = owner))"
  using assms
proof (induction rules arbitrary: s)
  case (Cons rule rules)
  then obtain t where t: "insert_rule node owner rule s = Inr t" and rest: "foldE (insert_rule node owner) rules t = Inr s'"
    by (auto simp: bindE_Inr_iff)
  from t obtain u where u: "granted_owner s node (tq_TailnetID rule) = Some u" "tq_Group rule = ''owner'' \<longrightarrow> u = owner"
    and t': "t = s\<lparr>tailnet_rules := tailnet_rules s @ [new_rule node rule]\<rparr>"
    by (auto simp: insert_rule_def bindE_Inr_iff insert_row_def split: option.splits if_splits)
  have "granted_owner t = granted_owner s" by (auto simp: t' granted_owner_def find_tailnet_def fun_eq_iff)
  with Cons.IH [OF rest] u t' show ?case by auto
qed simp

lemma SetNodeQoS_Inr:
  assumes "SetNodeQoS E s a node q now = Inr s'"
  obtains n s1 p s2 where "qos_valid q" "activeActor s a = Inr ()" "select_node s node = Inr n" "may_act a (n_owner_id n)"
    "foldE (insert_rule node (n_owner_id n)) (q_Tailnets q) (clear_rules node (set_budget node q s)) = Inr s1"
    "buildPolicy E s1 node now = Inr (p, s2)"
    "s' = notifyPolicy node (writeAudit (ac_ID a) (n_owner_id n) ''node'' node ''node.qos'' now s2)"
  using assms unfolding SetNodeQoS_def
  by (cases "ValidateQoS q") (auto simp: bindE_Inr_iff RequireOwner_Inr ValidateQoS_iff)

section \<open>Consistency\<close>

lemma SetNodePorts_inv [inv_intros]:
  "SetNodePorts s a rid derpPort stunPort now = Inr s' \<Longrightarrow> db_inv E s \<Longrightarrow> db_inv E s'"
  by (erule SetNodePorts_Inr) (rule setNodePorts_inv)

lemma SetTailnetEnabled_inv [inv_intros]:
  "SetTailnetEnabled E s a rid en now = Inr s' \<Longrightarrow> db_inv E s \<Longrightarrow> db_inv E s'"
  by (erule SetTailnetEnabled_Inr) (auto simp: update_tailnet_def elim!: rebuildPolicies_inv intro: db_inv_tailnets_update)

lemma DeleteTailnet_inv [inv_intros]:
  "DeleteTailnet E s a rid now = Inr s' \<Longrightarrow> db_inv E s \<Longrightarrow> db_inv E s'"
  by (erule DeleteTailnet_Inr) (auto elim!: rebuildPolicies_inv intro: db_inv_delete_tailnet)

lemma SetNodeEnabled_inv [inv_intros]:
  assumes "SetNodeEnabled E s a rid en now = Inr s'" and "db_inv E s"
  shows "db_inv E s'"
  using assms(1)
proof (rule SetNodeEnabled_Inr)
  fix n s2
  assume b: "if n_state n = Pending then s2 = update_node rid (\<lambda>m. m\<lparr>n_enabled := en\<rparr>) s
     else \<exists>p. buildPolicy E (update_node rid (\<lambda>m. m\<lparr>n_enabled := en\<rparr>) s) rid now = Inr (p, s2)"
    and s': "s' = notifyPolicy rid (writeAudit (ac_ID a) (n_owner_id n) ''node'' rid ''node.enabled'' now s2)"
  have "db_inv E (update_node rid (\<lambda>m. m\<lparr>n_enabled := en\<rparr>) s)"
    using assms(2) by (rule db_inv_update_node) (simp_all add: node_ok_def)
  with b have "db_inv E s2" by (auto split: if_splits dest: buildPolicy_inv)
  then show ?thesis by (simp add: s')
qed

lemma DeleteNode_inv [inv_intros]: "DeleteNode s a rid now = Inr s' \<Longrightarrow> db_inv E s \<Longrightarrow> db_inv E s'"
  by (erule DeleteNode_Inr) (simp add: db_inv_delete_node)

lemma db_inv_change_domain:
  assumes "db_inv E s" and "domain \<notin> n_domain ` set (nodes s)"
  shows "db_inv E (update_node rid (domain_change_row domain) s)"
proof -
  have "unique n_domain (update_where (\<lambda>n. n_id n = rid) (domain_change_row domain) (nodes s))"
    by (rule unique_update_other [OF _ _ assms(2)])
      (use assms(1) in \<open>simp_all add: db_inv_def nodes_inv_def domain_change_row_def\<close>)
  moreover have "node_ok (domain_change_row domain n) = node_ok n" for n by (simp add: node_ok_def domain_change_row_def)
  moreover have [simp]: "n_id (domain_change_row domain n) = n_id n" "n_owner_id (domain_change_row domain n) = n_owner_id n"
    "n_region_id (domain_change_row domain n) = n_region_id n" for n
    by (simp_all add: domain_change_row_def)
  ultimately show ?thesis
    using assms(1) unfolding db_inv_def db_sets nodes_inv_def update_node_def
    by (simp add: image_update_where unique_update_where refs_update_where list_all_update_where)
qed

lemma domain_free:
  assumes "db_inv E s" "select_node s rid = Inr n" "domain \<noteq> n_domain n"
    and "\<not> list_ex (\<lambda>m. n_domain m = domain \<and> n_id m \<noteq> rid) (nodes s)"
  shows "domain \<notin> n_domain ` set (nodes s)"
proof
  assume "domain \<in> n_domain ` set (nodes s)"
  then obtain m where m: "m \<in> set (nodes s)" "n_domain m = domain" by auto
  with assms(4) have "n_id m = rid" by (auto simp: list_ex_iff)
  with m select_node_Inr [OF assms(2)] unique_nodes [OF assms(1)] have "m = n" by (metis uniqueD)
  with m assms(3) show False by simp
qed

lemma ChangeNodeDomain_inv [inv_intros]:
  assumes "ChangeNodeDomain s a rid raw now = Inr s'" and "db_inv E s"
  shows "db_inv E s'"
  using assms(1)
proof (rule ChangeNodeDomain_Inr)
  fix domain n
  let ?t = "clear_node_tables rid (update_node rid (domain_change_row domain) s)"
  assume n: "select_node s rid = Inr n"
    and alt: "domain = n_domain n \<and> s' = s \<or> domain \<noteq> n_domain n \<and> \<not> list_ex (\<lambda>m. n_domain m = domain \<and> n_id m \<noteq> rid) (nodes s)
       \<and> \<not> (stream_open rid s \<and> unapplied s rid)
       \<and> s' = notifyPolicy rid (writeAudit (ac_ID a) (n_owner_id n) ''node'' rid ''node.domain.change'' now ?t)"
  from alt show ?thesis
  proof (elim disjE conjE)
    assume "domain \<noteq> n_domain n" "\<not> list_ex (\<lambda>m. n_domain m = domain \<and> n_id m \<noteq> rid) (nodes s)"
      and s': "s' = notifyPolicy rid (writeAudit (ac_ID a) (n_owner_id n) ''node'' rid ''node.domain.change'' now ?t)"
    then have "db_inv E ?t"
      using domain_free [OF assms(2) n] db_inv_change_domain [OF assms(2)] by (intro db_inv_node_tables) simp
    then show ?thesis by (simp only: s' db_inv_log db_inv_notify)
  qed (use assms(2) in simp)
qed

lemma granted_owner_tailnet:
  assumes "granted_owner s node tn = Some u"
  shows "(tn, u) \<in> tailnet_owners s"
proof -
  from assms obtain t where "find_tailnet s tn = Some t" "t_owner_id t = u" by (auto simp: granted_owner_def split: if_splits)
  then have "t \<in> set (tailnets s)" "(tn, u) = (t_id t, t_owner_id t)" by (auto simp: find_tailnet_def dest!: find_SomeD)
  then show ?thesis unfolding tailnet_owners_def by (metis (no_types, lifting) image_eqI)
qed

lemma db_inv_set_budget: "qos_valid q \<Longrightarrow> db_inv E s \<Longrightarrow> db_inv E (set_budget node q s)"
  unfolding set_budget_def by (erule db_inv_update_policy_row) (simp_all add: policy_row_ok_def qos_valid_def split: option.splits)

lemma insert_rule_inv:
  assumes "insert_rule node u rule s = Inr s'" and "db_inv E s" and "\<not> badRule rule"
    and "n \<in> set (nodes s)" "n_id n = node" "n_owner_id n = u"
  shows "db_inv E s'"
proof -
  from assms(1) obtain w where w: "granted_owner s node (tq_TailnetID rule) = Some w" "tq_Group rule = ''owner'' \<longrightarrow> w = u"
    and fresh: "(node, tq_TailnetID rule) \<notin> (\<lambda>r. (r_node_id r, r_tailnet_id r)) ` set (tailnet_rules s)"
    and s': "s' = s\<lparr>tailnet_rules := tailnet_rules s @ [new_rule node rule]\<rparr>"
    by (auto simp: insert_rule_def bindE_Inr_iff insert_row_def new_rule_def split: option.splits if_splits)
  have N: "(node, v) \<in> node_owners s \<longleftrightarrow> v = u" for v
    using assms(4-6) unique_nodes [OF assms(2)] unfolding node_owners_def by (auto dest: uniqueD)
  have T: "(tq_TailnetID rule, v) \<in> tailnet_owners s \<longleftrightarrow> v = w" for v
  proof -
    have "unique t_id (tailnets s)" using assms(2) by (simp add: db_inv_def tailnets_inv_def)
    then show ?thesis using granted_owner_tailnet [OF w(1)] unfolding tailnet_owners_def by (auto dest: uniqueD)
  qed
  have "rule_ok (node_owners s) (tailnet_owners s) (new_rule node rule)"
    using assms(3) w(2) N T by (auto simp: rule_ok_def new_rule_def badRule_def) (metis fst_conv image_eqI)+
  then show ?thesis unfolding s' using assms(2) fresh by (intro db_inv_rules_insert) (simp_all add: new_rule_def)
qed

lemma SetNodeQoS_inv [inv_intros]:
  assumes "SetNodeQoS E s a node q now = Inr s'" and "db_inv E s"
  shows "db_inv E s'"
  using assms(1)
proof (rule SetNodeQoS_Inr)
  fix n s1 p s2
  let ?s0 = "clear_rules node (set_budget node q s)"
  assume q: "qos_valid q" and n: "select_node s node = Inr n" and b: "buildPolicy E s1 node now = Inr (p, s2)"
    and f: "foldE (insert_rule node (n_owner_id n)) (q_Tailnets q) ?s0 = Inr s1"
    and s': "s' = notifyPolicy node (writeAudit (ac_ID a) (n_owner_id n) ''node'' node ''node.qos'' now s2)"
  have "db_inv E s1 \<and> nodes s1 = nodes s"
    using f
  proof (rule foldE_invariant)
    show "db_inv E ?s0 \<and> nodes ?s0 = nodes s"
      using db_inv_rules_delete [OF db_inv_set_budget [OF q assms(2)]]
      by (simp add: clear_rules_def) (simp add: set_budget_def update_policy_row_def)
  next
    fix rule t t'
    assume r: "rule \<in> set (q_Tailnets q)" "db_inv E t \<and> nodes t = nodes s" "insert_rule node (n_owner_id n) rule t = Inr t'"
    then have "nodes t' = nodes s" by (auto simp: insert_rule_def bindE_Inr_iff split: option.splits if_splits)
    moreover have "\<not> badRule rule" using q r(1) by (auto simp: qos_valid_def list_all_iff)
    ultimately show "db_inv E t' \<and> nodes t' = nodes s"
      using insert_rule_inv [OF r(3)] r(2) select_node_Inr [OF n] by auto
  qed
  with b have "db_inv E s2" by (blast dest: buildPolicy_inv)
  then show ?thesis by (simp add: s')
qed

section \<open>The owner's contract\<close>

lemma guarded_audit:
  assumes "activeActor s a = Inr ()" "owns u" "may_act a u" "audit s1 = audit s"
  shows "guarded_effect a owns s (notifyPolicy rid (writeAudit (ac_ID a) u k r w now s1))"
    "guarded_effect a owns s (notifyPolicies (writeAudit (ac_ID a) u k r w now s1))"
    "guarded_effect a owns s (writeAudit (ac_ID a) u k r w now s1)"
  using assms by (auto simp: guarded_effect_def intro!: logged_byI)

lemma rebuildPolicies_audit: "rebuildPolicies E now s = Inr s' \<Longrightarrow> audit s' = audit s"
  by (auto dest!: rebuildPolicies_same simp: same_tables(12))

lemma buildPolicy_audit: "buildPolicy E s node now = Inr (p, s') \<Longrightarrow> audit s' = audit s"
  by (auto dest!: buildPolicy_same simp: same_tables(12))

interpretation node_ports_op: owned_operation
  "\<lambda>s a rid s'. \<exists>derpPort stunPort now. SetNodePorts s a rid derpPort stunPort now = Inr s'" owns_node
proof unfold_locales
  fix s a rid s'
  assume "\<exists>derpPort stunPort now. SetNodePorts s a rid derpPort stunPort now = Inr s'"
  then obtain derpPort stunPort now where "SetNodePorts s a rid derpPort stunPort now = Inr s'" by blast
  then show "guarded_effect a (owns_node s rid) s s'"
  proof (rule SetNodePorts_Inr)
    fix n assume n: "activeActor s a = Inr ()" "select_node s rid = Inr n" "may_act a (n_owner_id n)"
      and p: "setNodePorts s n (ac_ID a) derpPort stunPort now = Inr s'"
    from n p owns_node_select [OF n(2)] show ?thesis
      unfolding setNodePorts_def Let_def by (auto simp: guarded_effect_def split: if_splits intro!: logged_byI)
  qed
qed

lemma SetTailnetEnabled_guarded:
  "SetTailnetEnabled E s a rid en now = Inr s' \<Longrightarrow> guarded_effect a (owns_tailnet s rid) s s'"
  by (erule SetTailnetEnabled_Inr)
    (auto dest!: tailnetOwner_Inr rebuildPolicies_audit intro!: guarded_audit simp: update_tailnet_def)

lemma DeleteTailnet_guarded: "DeleteTailnet E s a rid now = Inr s' \<Longrightarrow> guarded_effect a (owns_tailnet s rid) s s'"
  by (erule DeleteTailnet_Inr) (auto dest!: tailnetOwner_Inr rebuildPolicies_audit intro!: guarded_audit)

interpretation tailnet_op: owned_operation
  "\<lambda>s a rid s'. \<exists>en now. SetTailnetEnabled E s a rid en now = Inr s' \<or> DeleteTailnet E s a rid now = Inr s'" owns_tailnet for E
  by unfold_locales (auto dest: SetTailnetEnabled_guarded DeleteTailnet_guarded)

lemma SetNodeEnabled_guarded: "SetNodeEnabled E s a rid en now = Inr s' \<Longrightarrow> guarded_effect a (owns_node s rid) s s'"
  by (erule SetNodeEnabled_Inr)
    (auto dest!: buildPolicy_audit owns_node_select intro!: guarded_audit split: if_splits)

lemma DeleteNode_guarded: "DeleteNode s a rid now = Inr s' \<Longrightarrow> guarded_effect a (owns_node s rid) s s'"
  by (erule DeleteNode_Inr) (auto dest!: owns_node_select intro!: guarded_audit)

lemma ChangeNodeDomain_guarded:
  assumes "ChangeNodeDomain s a rid raw now = Inr s'"
  shows "guarded_effect a (owns_node s rid) s s'"
  using assms
proof (rule ChangeNodeDomain_Inr)
  fix domain n
  let ?t = "clear_node_tables rid (update_node rid (domain_change_row domain) s)"
  assume n: "activeActor s a = Inr ()" "select_node s rid = Inr n" "may_act a (n_owner_id n)"
    and "domain = n_domain n \<and> s' = s \<or> domain \<noteq> n_domain n \<and> \<not> list_ex (\<lambda>m. n_domain m = domain \<and> n_id m \<noteq> rid) (nodes s)
       \<and> \<not> (stream_open rid s \<and> unapplied s rid)
       \<and> s' = notifyPolicy rid (writeAudit (ac_ID a) (n_owner_id n) ''node'' rid ''node.domain.change'' now ?t)"
  then consider "s' = s" | "s' = notifyPolicy rid (writeAudit (ac_ID a) (n_owner_id n) ''node'' rid ''node.domain.change'' now ?t)"
    by blast
  then show ?thesis
  proof cases
    case 1 with n owns_node_select [OF n(2)] show ?thesis by (auto simp: guarded_effect_def)
  next
    case 2
    show ?thesis unfolding 2 by (rule guarded_audit) (use n owns_node_select [OF n(2)] in simp_all)
  qed
qed

interpretation node_op: owned_operation
  "\<lambda>s a rid s'. \<exists>en raw now. SetNodeEnabled E s a rid en now = Inr s' \<or> DeleteNode s a rid now = Inr s'
     \<or> ChangeNodeDomain s a rid raw now = Inr s'" owns_node for E
  by unfold_locales (auto dest: SetNodeEnabled_guarded DeleteNode_guarded ChangeNodeDomain_guarded)

lemma SetNodeQoS_guarded:
  assumes "SetNodeQoS E s a node q now = Inr s'"
  shows "guarded_effect a (owns_node s node) s s'"
  using assms
proof (rule SetNodeQoS_Inr)
  fix n s1 p s2
  assume n: "activeActor s a = Inr ()" "select_node s node = Inr n" "may_act a (n_owner_id n)"
    and f: "foldE (insert_rule node (n_owner_id n)) (q_Tailnets q) (clear_rules node (set_budget node q s)) = Inr s1"
    and b: "buildPolicy E s1 node now = Inr (p, s2)"
    and s': "s' = notifyPolicy node (writeAudit (ac_ID a) (n_owner_id n) ''node'' node ''node.qos'' now s2)"
  have "audit s2 = audit s"
    using buildPolicy_audit [OF b] insert_rules_Inr [OF f] by (simp add: clear_rules_def set_budget_def)
  with n owns_node_select [OF n(2)] show ?thesis unfolding s' by (intro guarded_audit)
qed

interpretation qos_op: owned_operation
  "\<lambda>s a node s'. \<exists>q now. SetNodeQoS E s a node q now = Inr s'" owns_node for E
  by unfold_locales (auto dest: SetNodeQoS_guarded)

section \<open>Stored policies that say what the tables say\<close>

definition policy_fresh :: "store \<Rightarrow> string \<Rightarrow> bool" where
  "policy_fresh s node \<longleftrightarrow> (\<forall>p. stored_policy s node = Some p \<longrightarrow> (\<exists>c. policy_content s node = Inr c
     \<and> p = c\<lparr>p_Revision := p_Revision p, p_GeneratedAt := p_GeneratedAt p\<rparr>))"

lemma policy_fresh_grant:
  assumes "policy_fresh s node" and "stored_policy s node = Some p" and "gp \<in> set (p_Grants p)"
  shows "\<exists>n rt all. find_node s node = Some n \<and> n_enabled n \<and> user_enabled s (n_owner_id n)
    \<and> serving_state (n_state n) \<and> identitySnapshots s = Inr all \<and> grant_source s node gp rt all"
proof -
  from assms(1,2) obtain c where c: "policy_content s node = Inr c"
    and p: "p = c\<lparr>p_Revision := p_Revision p, p_GeneratedAt := p_GeneratedAt p\<rparr>" unfolding policy_fresh_def by blast
  have "p_Grants p = p_Grants c" by (subst p) simp
  with policy_content_grant [OF c, of gp] assms(3) show ?thesis by metis
qed

lemma stored_policy_store_other: "m \<noteq> node \<Longrightarrow> stored_policy (store_policy p node s) m = stored_policy s m"
proof -
  assume "m \<noteq> node"
  then have "find (\<lambda>r. pr_node_id r = m) (node_policies (store_policy p node s)) = find (\<lambda>r. pr_node_id r = m) (node_policies s)"
    by (cases "find (\<lambda>r. pr_node_id r = m) (node_policies s)")
      (auto simp: store_policy_def update_policy_row_def find_update_where dest: find_SomeD)
  then show ?thesis by (simp add: stored_policy_def)
qed

lemma buildPolicy_fresh:
  assumes "buildPolicy E s node now = Inr (p, s')"
  shows "policy_fresh s' node" and "policy_fresh s m \<Longrightarrow> policy_fresh s' m"
proof -
  show f: "policy_fresh s' node"
    using assms
  proof (rule buildPolicy_cases)
    fix c row
    assume "policy_content s node = Inr c"
      and "unchanged_policy E s node c row p \<and> s' = s \<or> next_policy E s node now c row p \<and> s' = store_policy p node s"
    then have "policy_content s' node = Inr c" "p = c\<lparr>p_Revision := p_Revision p, p_GeneratedAt := p_GeneratedAt p\<rparr>"
      by (auto simp: unchanged_policy_def next_policy_def)
    then show ?thesis using buildPolicy_stored_policy [OF assms] by (auto simp: policy_fresh_def)
  qed
  from assms have "s' = s \<or> s' = store_policy p node s" by (auto elim: buildPolicy_cases)
  then show "policy_fresh s' m" if "policy_fresh s m"
    using that f by (cases "m = node") (auto simp: policy_fresh_def stored_policy_store_other)
qed

lemma foldE_establishes:
  assumes "foldE f xs s = Inr s'" and "x \<in> set xs"
    and "\<And>x t t'. f x t = Inr t' \<Longrightarrow> Q x t'" and "\<And>x y t t'. f x t = Inr t' \<Longrightarrow> Q y t \<Longrightarrow> Q y t'"
  shows "Q x s'"
  using assms(1,2)
proof (induction xs arbitrary: s)
  case (Cons y ys)
  then obtain t where t: "f y s = Inr t" and rest: "foldE f ys t = Inr s'" by (auto simp: bindE_Inr_iff)
  show ?case
  proof (cases "x \<in> set ys")
    case False
    with Cons.prems(2) t assms(3) have "Q x t" by auto
    with rest show ?thesis by (rule foldE_invariant) (use assms(4) in blast)
  qed (use Cons.IH rest in blast)
qed simp

lemma rebuildPolicies_fresh:
  assumes "rebuildPolicies E now s = Inr s'"
  shows "policy_fresh s' node"
proof (cases "node \<in> pr_node_id ` set (node_policies s)")
  case True
  with assms show ?thesis
    unfolding rebuildPolicies_def
    by (intro foldE_establishes [where Q = "\<lambda>node t. policy_fresh t node" and s' = s']) (auto simp: bindE_Inr_iff dest: buildPolicy_fresh)
next
  case False
  have b: "pr_node_id ` set (node_policies t') = pr_node_id ` set (node_policies t)"
    if "buildPolicy E t x now = Inr (p, t')" for t x p t'
    using that
    by (rule buildPolicy_cases) (elim disjE; simp add: store_policy_def update_policy_row_def image_update_where)
  have "pr_node_id ` set (node_policies s') = pr_node_id ` set (node_policies s)"
    using assms unfolding rebuildPolicies_def
    by (rule foldE_invariant [where P = "\<lambda>t. pr_node_id ` set (node_policies t) = pr_node_id ` set (node_policies s)"])
      (simp, clarsimp simp only: bindE_Inr_iff sum.inject split_paired_all prod.case, simp only: b)
  with False have "find (\<lambda>r. pr_node_id r = node) (node_policies s') = None" unfolding find_None_image by simp
  then show ?thesis by (simp add: policy_fresh_def stored_policy_def)
qed

section \<open>Properties\<close>

lemma stored_policy_frame [simp]:
  "stored_policy (notifyPolicies s) = stored_policy s" "stored_policy (notifyPolicy rid s) = stored_policy s"
  "stored_policy (writeAudit a b k r w now s) = stored_policy s"
  by (simp_all add: fun_eq_iff stored_policy_def notifyPolicies_def notifyPolicy_def writeAudit_def)

text \<open>C21: When a tailnet is disabled or deleted, it is out of every stored policy at once: no policy of any
  node carries a grant of it any more.\<close>

theorem tailnet_withdrawn:
  assumes "SetTailnetEnabled E s a tn False now = Inr s' \<or> DeleteTailnet E s a tn now = Inr s'" and "db_inv E s"
    and "stored_policy s' node = Some p" and "gp \<in> set (p_Grants p)"
  shows "gp_TailnetID gp \<noteq> tn"
proof -
  obtain s0 s1 where r: "rebuildPolicies E now s0 = Inr s1" and "stored_policy s1 node = Some p"
    and none: "\<And>t. find_tailnet s0 tn = Some t \<Longrightarrow> \<not> t_enabled t"
  proof -
    have "find_tailnet (update_tailnet tn (\<lambda>t. t\<lparr>t_enabled := False\<rparr>) s) tn = Some t \<Longrightarrow> \<not> t_enabled t" for t
      by (auto simp: find_tailnet_def update_tailnet_def find_update_where)
    moreover have "find_tailnet (delete_tailnet_row tn s) tn = None"
      by (auto simp: find_tailnet_def delete_tailnet_row_def find_None_iff)
    then have "find_tailnet (delete_tailnet_row tn s) tn = Some t \<Longrightarrow> \<not> t_enabled t" for t by simp
    ultimately show thesis
      using assms(1,3) that [of "update_tailnet tn (\<lambda>t. t\<lparr>t_enabled := False\<rparr>) s"] that [of "delete_tailnet_row tn s"]
      by (auto elim!: SetTailnetEnabled_Inr DeleteTailnet_Inr)
  qed
  from policy_fresh_grant [OF rebuildPolicies_fresh [OF r] this(2) assms(4)] obtain rt all where
    "grant_source s1 node gp rt all" by blast
  then obtain t where "find_tailnet s1 (gp_TailnetID gp) = Some t" "t_enabled t"
    by (auto simp: grant_source_def grant_entry_def)
  with none same_tables(3) [OF rebuildPolicies_same [OF r]] show ?thesis by (auto simp: find_tailnet_def)
qed

text \<open>C22: A node whose domain is changed must prove the new domain before it serves again: it has no session,
  it is disabled and waits, and from then on a session is only given for a challenge about the
  new domain whose verification succeeded.\<close>

theorem domain_change_reverified:
  assumes "ChangeNodeDomain s a rid raw now = Inr s'" and "s' \<noteq> s" and "db_inv E s"
  shows "no_session E s' rid \<and> (\<exists>n. find_node s' rid = Some n \<and> n_state n = DomainPending \<and> \<not> n_enabled n
    \<and> normalizeNodeDomain raw = Inr (n_domain n)
    \<and> (\<forall>s0 s1 verified c sig token now0 now1 session s2. db_inv E s1 \<and> find_node s1 rid = Some n \<and> ch_NodeID c = rid
        \<and> RenewNodeSession E s0 s1 verified c sig token now0 now1 = (Inr session, s2) \<longrightarrow>
          verified \<and> ch_Purpose c = ''domain_change'' \<and> ch_Domain c = n_domain n))"
  using assms(1)
proof (rule ChangeNodeDomain_Inr)
  fix domain m
  let ?t = "clear_node_tables rid (update_node rid (domain_change_row domain) s)"
  let ?n = "domain_change_row domain m"
  assume d: "normalizeNodeDomain raw = Inr domain" and m: "select_node s rid = Inr m" "\<not> n_enabled m"
    and "domain = n_domain m \<and> s' = s \<or> domain \<noteq> n_domain m \<and> \<not> list_ex (\<lambda>k. n_domain k = domain \<and> n_id k \<noteq> rid) (nodes s)
       \<and> \<not> (stream_open rid s \<and> unapplied s rid)
       \<and> s' = notifyPolicy rid (writeAudit (ac_ID a) (n_owner_id m) ''node'' rid ''node.domain.change'' now ?t)"
  with assms(2) have s': "s' = notifyPolicy rid (writeAudit (ac_ID a) (n_owner_id m) ''node'' rid ''node.domain.change'' now ?t)"
    by blast
  have n: "find_node s' rid = Some ?n"
    using m(1) unfolding find_node_def select_node_def query_row_Inr
    by (simp add: s' clear_node_tables_def update_node_def find_update_where domain_change_row_def)
  have ses: "no_session E s' rid"
    by (rule no_sessionI) (simp add: s' clear_node_tables_def)
  have renew: "verified \<and> ch_Purpose c = ''domain_change'' \<and> ch_Domain c = n_domain ?n"
    if "db_inv E s1" "find_node s1 rid = Some ?n" "ch_NodeID c = rid"
      "RenewNodeSession E s0 s1 verified c sig token now0 now1 = (Inr session, s2)"
    for s0 s1 verified c sig token now0 now1 session s2
  proof -
    from that(4) obtain k where k: "renewable s1 c = Some k" and v: "ch_Purpose c = ''domain_change'' \<longrightarrow> verified"
      by (auto simp: RenewNodeSession_def renew_commit_def split: if_splits sum.splits option.splits prod.splits)
    have "k = ?n"
      using renewable_Some(1,2) [OF k] that(2,3) unique_nodes [OF that(1)]
      by (auto simp: find_node_def dest!: find_SomeD intro: uniqueD)
    with find_SomeD [OF k [unfolded renewable_def]] v show ?thesis
      by (auto simp: domain_change_row_def serving_state_def)
  qed
  have "n_state ?n = DomainPending \<and> \<not> n_enabled ?n \<and> normalizeNodeDomain raw = Inr (n_domain ?n)"
    using d m(2) by (simp add: domain_change_row_def)
  with n ses renew show ?thesis by blast
qed

lemma find_map: "find P (map f xs) = map_option f (find (\<lambda>x. P (f x)) xs)"
  by (induction xs) simp_all

definition same_budget :: "policy_row \<Rightarrow> policy_row \<Rightarrow> bool" where
  "same_budget r r' \<longleftrightarrow> pr_budget_bps r' = pr_budget_bps r \<and> pr_owner_weight r' = pr_owner_weight r
     \<and> pr_shared_weight r' = pr_shared_weight r \<and> pr_shared_max_bps r' = pr_shared_max_bps r"

lemma buildPolicy_row:
  assumes "buildPolicy E s node now = Inr (p, s')" and "find (\<lambda>r. pr_node_id r = node) (node_policies s) = Some row"
  shows "\<exists>row'. find (\<lambda>r. pr_node_id r = node) (node_policies s') = Some row' \<and> same_budget row row'"
  using assms(1)
proof (rule buildPolicy_cases)
  fix c row'
  assume "unchanged_policy E s node c row' p \<and> s' = s \<or> next_policy E s node now c row' p \<and> s' = store_policy p node s"
  then show ?thesis using assms(2) by (auto simp: store_policy_row same_budget_def)
qed

lemma find_rule_set:
  assumes "tailnet_rules s' = delete_where (\<lambda>r. r_node_id r = node) rs @ map (new_rule node) rules"
  shows "find_rule s' node tn = map_option (new_rule node) (find (\<lambda>r. tq_TailnetID r = tn) rules)"
proof -
  have "find (\<lambda>r. (r_node_id r, r_tailnet_id r) = (node, tn)) (delete_where (\<lambda>r. r_node_id r = node) rs) = None"
    by (auto simp: find_None_iff)
  then show ?thesis by (simp add: find_rule_def assms find_append find_map new_rule_def)
qed

lemma rule_entry_new: "g_tailnet_id g = tq_TailnetID r \<Longrightarrow> rule_entry owner g t (Some (new_rule node r)) = r"
  by (simp add: rule_entry_def rule_group_def new_rule_def)

text \<open>The bandwidth rules that are set are the ones that are read back: the budget, the weights and every
  rule, and a tailnet with a live grant and no rule gets weight one and no ceiling.\<close>

theorem SetNodeQoS_roundtrip:
  assumes "SetNodeQoS E s a node q now = Inr s'" and "db_inv E s"
  shows "\<exists>q'. NodeQoS s' a node = Inr q' \<and> q' = q\<lparr>q_Tailnets := q_Tailnets q'\<rparr>
    \<and> set (q_Tailnets q) \<subseteq> set (q_Tailnets q')
    \<and> (\<forall>r\<in>set (q_Tailnets q') - set (q_Tailnets q). tq_TailnetID r \<notin> tq_TailnetID ` set (q_Tailnets q)
        \<and> tq_Weight r = 1 \<and> tq_MaxBPS r = 0)"
  using assms(1)
proof (rule SetNodeQoS_Inr)
  fix n s1 p s2
  let ?s0 = "clear_rules node (set_budget node q s)"
  assume q: "qos_valid q" and a: "may_act a (n_owner_id n)" and n: "select_node s node = Inr n"
    and f: "foldE (insert_rule node (n_owner_id n)) (q_Tailnets q) ?s0 = Inr s1" and b: "buildPolicy E s1 node now = Inr (p, s2)"
    and s': "s' = notifyPolicy node (writeAudit (ac_ID a) (n_owner_id n) ''node'' node ''node.qos'' now s2)"
  let ?rows = "sort_key g_tailnet_id (filter (\<lambda>g. g_node_id g = node \<and> live_grant g) (grants s))"
  let ?entry = "rule_of_grant s' a True (n_owner_id n)"
  note s1 = insert_rules_Inr [OF f] and t2 = same_tables [OF buildPolicy_same [OF b]]
  have t: "nodes s' = nodes s" "grants s' = grants s" "tailnets s' = tailnets s"
    "tailnet_rules s' = delete_where (\<lambda>r. r_node_id r = node) (tailnet_rules s) @ map (new_rule node) (q_Tailnets q)"
    by (simp_all add: s' t2 s1 notifyPolicy_def writeAudit_def clear_rules_def set_budget_def update_policy_row_def)
  note fr = find_rule_set [OF t(4)]
  from b obtain row where "find (\<lambda>r. pr_node_id r = node) (node_policies s) = Some row"
    "find (\<lambda>r. pr_node_id r = node) (node_policies s1) = Some (row\<lparr>pr_budget_bps := q_BudgetBPS q, pr_owner_weight := q_OwnerWeight q,
     pr_shared_weight := q_SharedWeight q, pr_shared_max_bps := q_SharedMaxBPS q\<rparr>)"
    by (auto elim!: buildPolicy_cases simp: s1 clear_rules_def set_budget_def update_policy_row_def find_update_where)
  from buildPolicy_row [OF b this(2)] obtain row' where row: "find (\<lambda>r. pr_node_id r = node) (node_policies s') = Some row'"
    "pr_budget_bps row' = q_BudgetBPS q" "pr_owner_weight row' = q_OwnerWeight q"
    "pr_shared_weight row' = q_SharedWeight q" "pr_shared_max_bps row' = q_SharedMaxBPS q"
    by (auto simp: s' same_budget_def)
  have acts: "RequireOwner a (ac_ID a) = Inr ()" "RequireOwner a (n_owner_id n) = Inr ()"
    using a unfolding RequireOwner_Inr by (auto simp: may_act_def)
  have "select_node s' node = Inr n" using n by (simp add: select_node_def t)
  then have get: "NodeQoS s' a node = Inr (q\<lparr>q_Tailnets := List.map_filter ?entry ?rows\<rparr>)"
    unfolding NodeQoS_def by (simp add: acts may_see_rules_def row query_row_def t)
  have r: "r \<in> set (List.map_filter ?entry ?rows)" if r: "r \<in> set (q_Tailnets q)" for r
  proof -
    from s1 r obtain u where "granted_owner ?s0 node (tq_TailnetID r) = Some u" by blast
    then obtain g tn where g: "g \<in> set (grants s)" "g_node_id g = node" "g_tailnet_id g = tq_TailnetID r" "live_grant g"
      and tn: "find_tailnet s (tq_TailnetID r) = Some tn"
      by (auto simp: granted_owner_def clear_rules_def set_budget_def update_policy_row_def list_ex_iff find_tailnet_def split: if_splits)
    have "find (\<lambda>x. tq_TailnetID x = tq_TailnetID r) (q_Tailnets q) = Some r"
      using q r by (intro find_Some_unique [where k = tq_TailnetID]) (auto simp: qos_valid_def unique_def)
    with g tn have "?entry g = Some r"
      by (simp add: rule_of_grant_def find_tailnet_def t fr rule_entry_new)
    with g show ?thesis by (force simp: set_map_filter)
  qed
  have w: "r \<in> set (q_Tailnets q) \<or> tq_TailnetID r \<notin> tq_TailnetID ` set (q_Tailnets q) \<and> tq_Weight r = 1 \<and> tq_MaxBPS r = 0"
    if "?entry g = Some r" "g_node_id g = node" for g r
  proof (cases "find (\<lambda>x. tq_TailnetID x = g_tailnet_id g) (q_Tailnets q)")
    case None
    then have "g_tailnet_id g \<notin> tq_TailnetID ` set (q_Tailnets q)" unfolding find_None_image by simp
    with None that show ?thesis by (auto simp: rule_of_grant_def fr rule_entry_def split: option.splits)
  next
    case (Some x)
    from find_SomeD [OF Some] that Some show ?thesis by (auto simp: rule_of_grant_def fr rule_entry_new split: option.splits)
  qed
  have "\<forall>r\<in>set (List.map_filter ?entry ?rows) - set (q_Tailnets q). tq_TailnetID r \<notin> tq_TailnetID ` set (q_Tailnets q)
      \<and> tq_Weight r = 1 \<and> tq_MaxBPS r = 0"
  proof
    fix r assume r: "r \<in> set (List.map_filter ?entry ?rows) - set (q_Tailnets q)"
    then obtain g where "?entry g = Some r" "g_node_id g = node" by (auto simp: set_map_filter)
    from w [OF this] r show "tq_TailnetID r \<notin> tq_TailnetID ` set (q_Tailnets q) \<and> tq_Weight r = 1 \<and> tq_MaxBPS r = 0" by blast
  qed
  with get r show ?thesis by (intro exI [of _ "q\<lparr>q_Tailnets := List.map_filter ?entry ?rows\<rparr>"]) auto
qed

section \<open>Concrete inputs\<close>

lemma sample_withdraw:
  "\<exists>s'. SetTailnetEnabled sample_env sample_store local_admin ''t1'' False (unix_time 300) = Inr s'
    \<and> stored_policy s' ''n'' = Some sample_empty"
proof -
  let ?s = "update_tailnet ''t1'' (\<lambda>t. t\<lparr>t_enabled := False\<rparr>) sample_store"
  have "buildPolicy sample_env ?s ''n'' (unix_time 300) = Inr (sample_empty, store_policy sample_empty ''n'' ?s)"
  proof (rule sample_build_empty)
    show "node_and_owner ?s ''n'' = Inr (sample_node, sample_user)"
      by (simp add: node_and_owner_def query_row_def update_tailnet_def sample_store_defs)
    show "readRetentions ?s = Inr sample_day"
      using sample_retentions by (simp add: readRetentions_def setting_def sample_day_def update_tailnet_def)
    show "policy_rows ?s ''n'' = [] \<or> \<not> (n_enabled sample_node \<and> u_enabled sample_user \<and> serving_state (n_state sample_node))"
      by (simp add: policy_rows_def map_filter_simps policy_row_of_def update_tailnet_def update_where_def find_tailnet_def sample_store_defs)
    show "identitySnapshots ?s = Inr (projr (identitySnapshots sample_store))"
      using sample_snapshots by (simp add: identitySnapshots_def update_tailnet_def)
  qed (simp_all add: update_tailnet_def sample_store_def)
  then have "rebuildPolicies sample_env (unix_time 300) ?s = Inr (store_policy sample_empty ''n'' ?s)"
    by (simp add: rebuildPolicies_def update_tailnet_def sample_store_def sample_policy_row_def)
  moreover have "tailnetOwner sample_store local_admin ''t1'' = Inr ''u''"
    by (simp add: tailnetOwner_def activeActor_def local_admin_def query_row_def RequireOwner_def sample_store_def)
  moreover have "stored_policy (store_policy sample_empty ''n'' ?s) ''n'' = Some sample_empty"
    by (simp add: stored_policy_def store_policy_def update_policy_row_def update_where_def update_tailnet_def sample_store_def
        sample_policy_row_def)
  ultimately show ?thesis by (simp add: SetTailnetEnabled_def)
qed

theorem tailnet_withdrawn_witness:
  "\<exists>s'. SetTailnetEnabled sample_env sample_store local_admin ''t1'' False (unix_time 300) = Inr s'
    \<and> stored_policy s' ''n'' = Some sample_empty \<and> (\<forall>gp\<in>set (p_Grants sample_empty). gp_TailnetID gp \<noteq> ''t1'')"
proof -
  from sample_withdraw obtain s' where
    s': "SetTailnetEnabled sample_env sample_store local_admin ''t1'' False (unix_time 300) = Inr s'" "stored_policy s' ''n'' = Some sample_empty"
    by blast
  with tailnet_withdrawn [OF disjI1 [OF s'(1)] sample_store_inv s'(2)] show ?thesis by blast
qed

definition sample_moving :: store where
  "sample_moving = sample_store\<lparr>nodes := [sample_node\<lparr>n_enabled := False, n_domain := ''e.example''\<rparr>]\<rparr>"

lemma sample_moving_inv: "db_inv sample_env sample_moving"
  unfolding sample_moving_def by (simp del: set_filter add: db_inv_eval)

theorem domain_change_reverified_witness:
  "\<exists>s'. ChangeNodeDomain sample_moving local_admin ''n'' ''d.example'' (unix_time 300) = Inr s' \<and> no_session sample_env s' ''n''"
proof -
  obtain s' where s': "ChangeNodeDomain sample_moving local_admin ''n'' ''d.example'' (unix_time 300) = Inr s'"
    and "audit s' \<noteq> audit sample_moving"
    by (simp add: ChangeNodeDomain_def sample_domain activeActor_def local_admin_def RequireOwner_def select_node_def
        query_row_def sample_moving_def sample_store_defs serving_state_def stream_open_def notifyPolicy_def writeAudit_def)
  then have "s' \<noteq> sample_moving" by auto
  from domain_change_reverified [OF s' this sample_moving_inv] s' show ?thesis by blast
qed

definition sample_rules :: qos_policy where
  "sample_rules = \<lparr>q_BudgetBPS = 1000, q_OwnerWeight = 8, q_SharedWeight = 2, q_SharedMaxBPS = 0, q_Tailnets = []\<rparr>"

theorem SetNodeQoS_roundtrip_witness:
  "\<exists>s' q'. SetNodeQoS sample_env sample_store local_admin ''n'' sample_rules (unix_time 300) = Inr s'
    \<and> NodeQoS s' local_admin ''n'' = Inr q' \<and> q' = sample_rules\<lparr>q_Tailnets := q_Tailnets q'\<rparr>"
proof -
  have "clear_rules ''n'' (set_budget ''n'' sample_rules sample_store) = sample_store"
    by (simp add: clear_rules_def set_budget_def update_policy_row_def update_where_def delete_where_def sample_rules_def
        sample_store_def sample_policy_row_def)
  moreover have "ValidateQoS sample_rules = Inr ()"
    unfolding ValidateQoS_iff by (simp add: sample_rules_def qos_valid_def MaxInt64_def validCeiling_def validWeight_def)
  moreover have "select_node sample_store ''n'' = Inr sample_node"
    by (simp add: select_node_def query_row_def sample_store_def sample_node_def)
  ultimately obtain s' where s': "SetNodeQoS sample_env sample_store local_admin ''n'' sample_rules (unix_time 300) = Inr s'"
    using sample_build
    by (simp add: SetNodeQoS_def activeActor_def local_admin_def RequireOwner_def) (simp add: sample_rules_def)
  with SetNodeQoS_roundtrip [OF s' sample_store_inv] show ?thesis by blast
qed

end
