(* ===== verification/Credentials.thy ===== *)
theory Credentials
  imports Resources
begin

text \<open>
  Tailnets and their credentials (credentials.go), and the publication of a device list as the
  tailnet's identity with the events about keys that two tailnets claim (identity_store.go).
  The identity source is asked over the network between two transactions, so an operation
  that does so takes the replies of the source, and the store before and after the exchange
  where it reads both.
\<close>

section \<open>The encryption key\<close>

text \<open>What reading the key file gives, and the errors of the file operations, \<open>None\<close> for success.\<close>

datatype key_file = KeyMissing | KeyUnreadable go_error | KeyData string

definition sealed_rows :: "store \<Rightarrow> nat" where
  "sealed_rows s = length (credentials s) + length (filter (\<lambda>e. e_response e \<noteq> None) (enrollments s))"

definition key_content :: "store \<Rightarrow> key_file \<Rightarrow> string \<Rightarrow> go_error option \<Rightarrow> string result" where
  "key_content s file fresh write_error =
     (case file of
        KeyData key \<Rightarrow> Inr key
      | KeyUnreadable e \<Rightarrow> Inl e
      | KeyMissing \<Rightarrow>
          if sealed_rows s \<noteq> 0 then Inl (ErrMsg ''controller encryption key is missing'')
          else (case write_error of Some e \<Rightarrow> Inl e | None \<Rightarrow> Inr fresh))"

text \<open>The result holds the key the file holds from then on.\<close>

definition EnableIdentity ::
    "store \<Rightarrow> string \<Rightarrow> key_file \<Rightarrow> string \<Rightarrow> go_error option \<Rightarrow> go_error option \<Rightarrow> (string \<times> store) result" where
  "EnableIdentity s keyFile file fresh write_error chmod_error =
     bindE (failIf (keyFile = []) ErrInvalid) (\<lambda>_.
     bindE (key_content s file fresh write_error) (\<lambda>key.
     bindE (failIf (length key \<noteq> 32) (ErrMsg ''invalid controller encryption key'')) (\<lambda>_.
     case chmod_error of Some e \<Rightarrow> Inl e | None \<Rightarrow> Inr (key, s\<lparr>credentialAEAD := True\<rparr>))))"

section \<open>Credentials and the identity source\<close>

definition canonicalTailnetID :: "string \<Rightarrow> string result" where
  "canonicalTailnetID value =
     (let v = TrimSpace value
      in if length v < 3 \<or> 64 < length v \<or> hd v \<noteq> CHR ''T'' \<or> \<not> list_all is_alnum (tl v) then Inl ErrInvalid else Inr v)"

definition sealCredential :: "env \<Rightarrow> store \<Rightarrow> string \<Rightarrow> oauth_credential \<Rightarrow> string \<Rightarrow> string result" where
  "sealCredential E s rid c nonce =
     (if \<not> credentialAEAD s then Inl ErrIdentityUnavailable else Inr (seal_credential E c nonce rid))"

text \<open>A text too short to hold a nonce does not open.\<close>

definition openCredential :: "env \<Rightarrow> store \<Rightarrow> string \<Rightarrow> string \<Rightarrow> oauth_credential result" where
  "openCredential E s rid data =
     (if \<not> credentialAEAD s then Inl ErrIdentityUnavailable
      else case open_credential E data rid of None \<Rightarrow> Inl ErrIdentityUnavailable | Some c \<Rightarrow> Inr c)"

text \<open>\<^verbatim>\<open>strings.SplitN\<close>: at most \<open>n\<close> parts, the last one with the rest.\<close>

fun split_n :: "char \<Rightarrow> nat \<Rightarrow> string \<Rightarrow> string list" where
  "split_n d 0 s = []"
| "split_n d (Suc 0) s = [s]"
| "split_n d (Suc (Suc n)) [] = [[]]"
| "split_n d (Suc (Suc n)) (c # cs) =
     (if c = d then [] # split_n d (Suc n) cs
      else (case split_n d (Suc (Suc n)) cs of [] \<Rightarrow> [[c]] | p # ps \<Rightarrow> (c # p) # ps))"

definition client_id :: "oauth_credential \<Rightarrow> string result" where
  "client_id c =
     (if oc_ClientID c \<noteq> [] then Inr (oc_ClientID c)
      else case split_n CHR ''-'' 4 (oc_ClientSecret c) of
        [a, b, cid, rest] \<Rightarrow>
          if a \<noteq> ''tskey'' \<or> b \<noteq> ''client'' \<or> cid = [] \<or> rest = [] then Inl ErrInvalid else Inr cid
      | _ \<Rightarrow> Inl ErrInvalid)"

text \<open>
  The replies of the identity source: whether one of the four request slots was free in time,
  the type and text of the token it issues for a client, and the status and body of the device
  list of a tailnet. \<open>None\<close> stands for a failed exchange.
\<close>

record api_replies =
  ap_slot :: bool
  ap_token :: "string \<Rightarrow> string \<Rightarrow> (string \<times> string) option"
  ap_devices :: "string \<Rightarrow> string \<Rightarrow> (nat \<times> identity_body) option"

definition read_devices :: "env \<Rightarrow> (nat \<times> identity_body) option \<Rightarrow> time \<Rightarrow> device_key list result" where
  "read_devices E reply now =
     (case reply of
        None \<Rightarrow> Inl ErrIdentityUnavailable
      | Some (status, body) \<Rightarrow>
          if status \<noteq> 200 then Inl ErrIdentityUnavailable
          else (case parseIdentity E body now of Inl _ \<Rightarrow> Inl ErrIdentityUnavailable | Inr ks \<Rightarrow> Inr ks))"

definition fetch_devices :: "env \<Rightarrow> api_replies \<Rightarrow> string \<Rightarrow> (string \<times> string) option \<Rightarrow> time \<Rightarrow> device_key list result" where
  "fetch_devices E api apiID issued now =
     (case issued of
        None \<Rightarrow> Inl ErrIdentityUnavailable
      | Some (kind, token) \<Rightarrow>
          if nocase kind \<noteq> ''bearer'' \<or> token = [] then Inl ErrIdentityUnavailable
          else read_devices E (ap_devices api token apiID) now)"

definition fetchIdentity ::
    "env \<Rightarrow> api_replies \<Rightarrow> store \<Rightarrow> string \<Rightarrow> oauth_credential \<Rightarrow> time \<Rightarrow> device_key list result" where
  "fetchIdentity E api s apiID c now =
     bindE (client_id c) (\<lambda>cid.
     bindE (failIf (\<not> credentialAEAD s \<or> cid = [] \<or> 256 < length cid \<or> oc_ClientSecret c = []
        \<or> 4096 < length (oc_ClientSecret c)) ErrInvalid) (\<lambda>_.
     bindE (failIf (\<not> ap_slot api) ErrIdentityUnavailable) (\<lambda>_.
     fetch_devices E api apiID (ap_token api cid (oc_ClientSecret c)) now)))"

text \<open>\<^verbatim>\<open>conflictError\<close>: a violated constraint is a conflict.\<close>

definition conflictError :: "go_error \<Rightarrow> go_error" where
  "conflictError e = (if e = ErrConstraint then ErrConflict else e)"

section \<open>Publishing an identity\<close>

text \<open>
  \<^verbatim>\<open>identityEvent\<close> opens an event for a tailnet unless one of the kind is open. \<^verbatim>\<open>updateIdentityConflicts\<close>
  goes through the snapshots; the code's order is that of a map, here it is the order of the table.
\<close>

definition open_event :: "string \<Rightarrow> string \<Rightarrow> event_row \<Rightarrow> bool" where
  "open_event rid kind e \<longleftrightarrow> ev_resource_id e = rid \<and> ev_kind e = kind \<and> ev_resolved_at e = 0"

definition identityEvent :: "string \<Rightarrow> string \<Rightarrow> string \<Rightarrow> time \<Rightarrow> store \<Rightarrow> store" where
  "identityEvent rid kind message now s =
     (case find_tailnet s rid of
        None \<Rightarrow> s
      | Some t \<Rightarrow> if list_ex (open_event rid kind) (events s) then s
                  else insert_event (t_owner_id t) ''tailnet'' rid kind message now s)"

definition has_conflict :: "string list \<Rightarrow> identity_snapshot \<Rightarrow> bool" where
  "has_conflict conflicts snap \<longleftrightarrow> list_ex (\<lambda>k. dk_NodePublic k \<in> set conflicts) (is_Keys snap)"

definition conflict_event :: "string list \<Rightarrow> time \<Rightarrow> string \<times> identity_snapshot \<Rightarrow> store \<Rightarrow> store" where
  "conflict_event conflicts now x s =
     (if has_conflict conflicts (snd x)
      then identityEvent (fst x) ''identity_conflict'' ''conflicting identity keys are blocked'' now s
      else resolve_events (\<lambda>e. ev_resource_id e = fst x \<and> ev_kind e = ''identity_conflict'') now s)"

definition updateIdentityConflicts :: "time \<Rightarrow> store \<Rightarrow> store result" where
  "updateIdentityConflicts now s =
     bindE (identitySnapshots s) (\<lambda>all. Inr (fold (conflict_event (conflictingKeys all) now) all s))"

definition put_snapshot :: "string \<Rightarrow> device_key list \<Rightarrow> time \<Rightarrow> store \<Rightarrow> store" where
  "put_snapshot rid ks now s = s\<lparr>identity_snapshots :=
     upsert_row i_tailnet_id \<lparr>i_tailnet_id = rid, i_revision = 1, i_last_success = unix now, i_keys = Some ks\<rparr>
       (\<lambda>i. i\<lparr>i_revision := i_revision i + 1, i_last_success := unix now, i_keys := Some ks\<rparr>) (identity_snapshots s)\<rparr>"

definition last_success :: "store \<Rightarrow> string \<Rightarrow> int" where
  "last_success s rid =
     (case find (\<lambda>i. i_tailnet_id i = rid) (identity_snapshots s) of None \<Rightarrow> 0 | Some i \<Rightarrow> i_last_success i)"

definition publishIdentity :: "env \<Rightarrow> store \<Rightarrow> string \<Rightarrow> device_key list \<Rightarrow> time \<Rightarrow> store result" where
  "publishIdentity E s rid ks now =
     bindE (failIf (unix now < last_success s rid) ErrConflict) (\<lambda>_.
     bindE (updateIdentityConflicts now
       (resolve_events (\<lambda>e. ev_resource_id e = rid \<and> ev_kind e = ''identity_unavailable'') now (put_snapshot rid ks now s))) (\<lambda>s1.
     rebuildPolicies E now s1))"

definition IdentitySnapshot :: "store \<Rightarrow> string \<Rightarrow> identity_snapshot result" where
  "IdentitySnapshot s rid =
     bindE (identitySnapshots s) (\<lambda>all.
     case map_of all rid of
       None \<Rightarrow> Inl ErrNoRows
     | Some snap \<Rightarrow> Inr (snap\<lparr>is_Keys := filter (\<lambda>k. dk_NodePublic k \<notin> set (conflictingKeys all)) (is_Keys snap)\<rparr>))"

section \<open>Tailnets\<close>

record tailnet =
  tn_ID :: string
  tn_OwnerID :: string
  tn_DisplayName :: string
  tn_APIID :: string
  tn_Enabled :: bool
  tn_CredentialStatus :: string
  tn_CredentialError :: string
  tn_CredentialUpdatedAt :: int
  tn_LastSuccess :: int

text \<open>The columns of the two outer joins.\<close>

definition find_credential :: "store \<Rightarrow> string \<Rightarrow> credential_row option" where
  "find_credential s rid = find (\<lambda>c. c_tailnet_id c = rid) (credentials s)"

definition scanTailnet :: "store \<Rightarrow> tailnet_row \<Rightarrow> tailnet" where
  "scanTailnet s t =
     (let c = find_credential s (t_id t)
      in \<lparr>tn_ID = t_id t, tn_OwnerID = t_owner_id t, tn_DisplayName = t_display_name t, tn_APIID = t_api_id t,
          tn_Enabled = t_enabled t,
          tn_CredentialStatus = (case c of None \<Rightarrow> ''missing'' | Some r \<Rightarrow> c_status r),
          tn_CredentialError = (case c of None \<Rightarrow> [] | Some r \<Rightarrow> c_error r),
          tn_CredentialUpdatedAt = (case c of None \<Rightarrow> 0 | Some r \<Rightarrow> c_updated_at r),
          tn_LastSuccess = last_success s (t_id t)\<rparr>)"

definition Tailnet :: "store \<Rightarrow> actor \<Rightarrow> string \<Rightarrow> tailnet result" where
  "Tailnet s actor rid =
     bindE (query_row (\<lambda>t. t_id t = rid) (tailnets s)) (\<lambda>t.
     bindE (RequireOwner actor (t_owner_id t)) (\<lambda>_. Inr (scanTailnet s t)))"

definition ListTailnets :: "store \<Rightarrow> actor \<Rightarrow> tailnet list result" where
  "ListTailnets s actor =
     bindE (RequireOwner actor (ac_ID actor)) (\<lambda>_.
     Inr (map (scanTailnet s) (sort_key t_display_name
       (filter (\<lambda>t. t_owner_id t = ac_ID actor \<or> ac_Role actor = ''admin'') (tailnets s)))))"

definition insert_tailnet :: "tailnet_row \<Rightarrow> store \<Rightarrow> store result" where
  "insert_tailnet t s =
     (if t_id t \<in> t_id ` set (tailnets s) \<or> t_api_id t \<in> t_api_id ` set (tailnets s)
         \<or> t_owner_id t \<notin> u_id ` set (users s)
      then Inl ErrConstraint else Inr (s\<lparr>tailnets := tailnets s @ [t]\<rparr>))"

definition new_credential :: "string \<Rightarrow> string \<Rightarrow> nat \<Rightarrow> time \<Rightarrow> credential_row" where
  "new_credential rid encrypted revision now = \<lparr>c_tailnet_id = rid, c_kind = ''oauth'', c_encrypted = encrypted,
     c_status = ''valid'', c_revision = revision, c_refresh_seq = 0, c_updated_at = unix now, c_error = []\<rparr>"

text \<open>The transaction of \<^verbatim>\<open>AddTailnet\<close>, after the credential was tried and sealed.\<close>

definition add_tailnet ::
    "env \<Rightarrow> store \<Rightarrow> actor \<Rightarrow> string \<Rightarrow> string \<Rightarrow> string \<Rightarrow> string \<Rightarrow> device_key list \<Rightarrow> time \<Rightarrow> store result" where
  "add_tailnet E s actor name apiID rid encrypted ks now =
     bindE (activeActor s actor) (\<lambda>_.
     bindE (case insert_tailnet \<lparr>t_id = rid, t_owner_id = ac_ID actor, t_display_name = name, t_api_id = apiID, t_enabled = True\<rparr> s of
         Inl e \<Rightarrow> Inl (conflictError e) | Inr s1 \<Rightarrow> Inr s1) (\<lambda>s1.
     bindE (insert_row c_tailnet_id (new_credential rid encrypted 1 now) (credentials s1)) (\<lambda>cs.
     bindE (publishIdentity E (s1\<lparr>credentials := cs\<rparr>) rid ks now) (\<lambda>s2.
     Inr (notifyPolicies (writeAudit (ac_ID actor) (ac_ID actor) ''tailnet'' rid ''tailnet.create'' now s2))))))"

definition AddTailnet ::
    "env \<Rightarrow> api_replies \<Rightarrow> store \<Rightarrow> actor \<Rightarrow> string \<Rightarrow> string \<Rightarrow> oauth_credential \<Rightarrow> string \<Rightarrow> string \<Rightarrow> time \<Rightarrow> tailnet result \<times> store" where
  "AddTailnet E api s actor name rawID c rid nonce now =
     (case bindE (RequireOwner actor (ac_ID actor)) (\<lambda>_.
           bindE (canonicalTailnetID rawID) (\<lambda>apiID.
           bindE (failIf (TrimSpace name = [] \<or> 160 < length name) ErrInvalid) (\<lambda>_.
           bindE (fetchIdentity E api s apiID c now) (\<lambda>ks.
           bindE (sealCredential E s rid c nonce) (\<lambda>encrypted.
           add_tailnet E s actor name apiID rid encrypted ks now))))) of
        Inl e \<Rightarrow> (Inl e, s)
      | Inr s' \<Rightarrow> (Tailnet s' actor rid, s'))"

definition credential_revision :: "store \<Rightarrow> string \<Rightarrow> nat" where
  "credential_revision s rid = (case find_credential s rid of None \<Rightarrow> 0 | Some c \<Rightarrow> c_revision c)"

definition replace_credential ::
    "env \<Rightarrow> store \<Rightarrow> actor \<Rightarrow> string \<Rightarrow> nat \<Rightarrow> string \<Rightarrow> device_key list \<Rightarrow> time \<Rightarrow> store result" where
  "replace_credential E s actor rid revision encrypted ks now =
     bindE (tailnetOwner s actor rid) (\<lambda>owner.
     bindE (failIf (credential_revision s rid \<noteq> revision) ErrConflict) (\<lambda>_.
     bindE (publishIdentity E (s\<lparr>credentials := upsert_row c_tailnet_id (new_credential rid encrypted (revision + 1) now)
              (\<lambda>c. c\<lparr>c_encrypted := encrypted, c_status := ''valid'', c_error := [], c_updated_at := unix now,
                     c_revision := revision + 1, c_refresh_seq := 0\<rparr>) (credentials s)\<rparr>) rid ks now) (\<lambda>s1.
     Inr (notifyPolicies (writeAudit (ac_ID actor) owner ''tailnet'' rid ''credential.replace'' now s1)))))"

text \<open>\<open>s0\<close> is the store before the identity source is asked, \<open>s\<close> the one of the transaction.\<close>

definition ReplaceCredential ::
    "env \<Rightarrow> api_replies \<Rightarrow> store \<Rightarrow> store \<Rightarrow> actor \<Rightarrow> string \<Rightarrow> oauth_credential \<Rightarrow> string \<Rightarrow> time \<Rightarrow> store result" where
  "ReplaceCredential E api s0 s actor rid c nonce now =
     bindE (Tailnet s0 actor rid) (\<lambda>tn.
     bindE (fetchIdentity E api s0 (tn_APIID tn) c now) (\<lambda>ks.
     bindE (sealCredential E s0 rid c nonce) (\<lambda>encrypted.
     replace_credential E s actor rid (credential_revision s0 rid) encrypted ks now)))"

text \<open>A rule in the owner group that would be another owner's is moved to the shared group.\<close>

definition share_rules :: "string \<Rightarrow> string \<Rightarrow> store \<Rightarrow> store" where
  "share_rules rid newOwner s = s\<lparr>tailnet_rules := update_where
     (\<lambda>r. r_tailnet_id r = rid \<and> r_group_name r = ''owner''
        \<and> list_ex (\<lambda>n. n_id n = r_node_id r \<and> n_owner_id n \<noteq> newOwner) (nodes s))
     (\<lambda>r. r\<lparr>r_group_name := ''shared''\<rparr>) (tailnet_rules s)\<rparr>"

definition TransferTailnet :: "env \<Rightarrow> store \<Rightarrow> actor \<Rightarrow> string \<Rightarrow> string \<Rightarrow> time \<Rightarrow> store result" where
  "TransferTailnet E s actor rid newOwner now =
     bindE (failIf (ac_Role actor \<noteq> ''admin'' \<or> \<not> ac_Enabled actor) ErrForbidden) (\<lambda>_.
     bindE (tailnetOwner s actor rid) (\<lambda>_.
     bindE (failIf (\<not> user_enabled s newOwner) ErrInvalid) (\<lambda>_.
     bindE (rebuildPolicies E now (share_rules rid newOwner (update_tailnet rid (\<lambda>t. t\<lparr>t_owner_id := newOwner\<rparr>) s))) (\<lambda>s1.
     Inr (notifyPolicies (writeAudit (ac_ID actor) newOwner ''tailnet'' rid ''tailnet.transfer'' now s1))))))"

definition clear_credential :: "string \<Rightarrow> time \<Rightarrow> store \<Rightarrow> store" where
  "clear_credential rid now s = s\<lparr>
     credentials := update_where (\<lambda>c. c_tailnet_id c = rid)
       (\<lambda>c. c\<lparr>c_encrypted := [], c_status := ''missing'', c_error := [], c_revision := c_revision c + 1,
              c_refresh_seq := 0, c_updated_at := unix now\<rparr>) (credentials s),
     identity_snapshots := update_where (\<lambda>i. i_tailnet_id i = rid)
       (\<lambda>i. i\<lparr>i_keys := Some [], i_revision := i_revision i + 1\<rparr>) (identity_snapshots s)\<rparr>"

definition DeleteCredential :: "env \<Rightarrow> store \<Rightarrow> actor \<Rightarrow> string \<Rightarrow> time \<Rightarrow> store result" where
  "DeleteCredential E s actor rid now =
     bindE (tailnetOwner s actor rid) (\<lambda>owner.
     bindE (updateIdentityConflicts now (clear_credential rid now s)) (\<lambda>s1.
     bindE (rebuildPolicies E now s1) (\<lambda>s2.
     Inr (notifyPolicies (writeAudit (ac_ID actor) owner ''tailnet'' rid ''credential.delete'' now s2)))))"

section \<open>Consistency\<close>

text \<open>The conflict events leave every other table alone.\<close>

lemma conflict_event_events: "\<exists>es. conflict_event conflicts now x s = s\<lparr>events := es\<rparr>"
proof -
  have same: "\<exists>es. s = s\<lparr>events := es\<rparr>" by (rule exI [of _ "events s"]) simp
  have "\<exists>es. identityEvent (fst x) k m now s = s\<lparr>events := es\<rparr>" for k m
    unfolding identityEvent_def insert_event_def by (auto intro: same split: option.split)
  then show ?thesis unfolding conflict_event_def resolve_events_def by auto
qed

lemma conflict_events: "\<exists>es. fold (conflict_event conflicts now) all s = s\<lparr>events := es\<rparr>"
proof (induction all arbitrary: s)
  case Nil
  show ?case by (rule exI [of _ "events s"]) simp
next
  case (Cons x all)
  obtain es where "conflict_event conflicts now x s = s\<lparr>events := es\<rparr>" using conflict_event_events by blast
  moreover obtain es' where "fold (conflict_event conflicts now) all (s\<lparr>events := es\<rparr>) = (s\<lparr>events := es\<rparr>)\<lparr>events := es'\<rparr>"
    using Cons.IH by blast
  ultimately show ?case by auto
qed

lemma updateIdentityConflicts_Inr:
  assumes "updateIdentityConflicts now s = Inr s'"
  obtains es where "s' = s\<lparr>events := es\<rparr>"
  using assms conflict_events unfolding updateIdentityConflicts_def bindE_Inr_iff by (metis sum.inject(2))

lemma put_snapshot_inv:
  assumes "db_inv E s" "rid \<in> tailnet_ids s" "keys_ok E ks"
  shows "db_inv E (put_snapshot rid ks now s)"
  unfolding put_snapshot_def upsert_row_def
  using assms by (auto intro: db_inv_identities_update db_inv_identities_insert)

lemma publishIdentity_Inr:
  assumes "publishIdentity E s rid ks now = Inr s'"
  obtains es where "last_success s rid \<le> unix now"
    "rebuildPolicies E now ((put_snapshot rid ks now s)\<lparr>events := es\<rparr>) = Inr s'"
proof -
  let ?t = "resolve_events (\<lambda>e. ev_resource_id e = rid \<and> ev_kind e = ''identity_unavailable'') now (put_snapshot rid ks now s)"
  from assms obtain s1 where t: "last_success s rid \<le> unix now" "updateIdentityConflicts now ?t = Inr s1" "rebuildPolicies E now s1 = Inr s'"
    by (auto simp: publishIdentity_def bindE_Inr_iff failIf_Inr_iff)
  from t(2) obtain es where "s1 = ?t\<lparr>events := es\<rparr>" by (rule updateIdentityConflicts_Inr)
  then have "s1 = (put_snapshot rid ks now s)\<lparr>events := es\<rparr>" by (simp add: resolve_events_def)
  with t that show thesis by blast
qed

lemma publishIdentity_inv [inv_intros]:
  assumes "publishIdentity E s rid ks now = Inr s'" "db_inv E s" "rid \<in> tailnet_ids s" "keys_ok E ks"
  shows "db_inv E s'"
  using assms(1)
proof (rule publishIdentity_Inr)
  fix es assume "rebuildPolicies E now ((put_snapshot rid ks now s)\<lparr>events := es\<rparr>) = Inr s'"
  then show ?thesis by (rule rebuildPolicies_inv) (simp add: put_snapshot_inv assms)
qed

lemma read_devices_Inr: "read_devices E reply now = Inr ks \<Longrightarrow> \<exists>body. reply = Some (200, body) \<and> parseIdentity E body now = Inr ks"
  by (auto simp: read_devices_def split: option.splits if_splits sum.splits)

lemma fetch_devices_Inr:
  "fetch_devices E api apiID issued now = Inr ks \<Longrightarrow>
     \<exists>kind token body. issued = Some (kind, token) \<and> nocase kind = ''bearer'' \<and> token \<noteq> []
       \<and> ap_devices api token apiID = Some (200, body) \<and> parseIdentity E body now = Inr ks"
  by (auto simp: fetch_devices_def dest!: read_devices_Inr split: option.splits if_splits)

lemma fetchIdentity_keys:
  assumes "np_roundtrip E" "fetchIdentity E api s apiID c now = Inr ks"
  shows "keys_ok E ks"
proof -
  from assms(2) obtain issued where "fetch_devices E api apiID issued now = Inr ks"
    by (auto simp: fetchIdentity_def bindE_Inr_iff)
  then obtain body where "parseIdentity E body now = Inr ks" by (blast dest: fetch_devices_Inr)
  with assms(1) show ?thesis by (rule parseIdentity_keys_ok)
qed

lemma db_inv_tailnets_insert:
  assumes "db_inv E s" "t_id t \<notin> t_id ` set (tailnets s)" "t_api_id t \<notin> t_api_id ` set (tailnets s)" "t_owner_id t \<in> user_ids s"
  shows "db_inv E (s\<lparr>tailnets := tailnets s @ [t]\<rparr>)"
proof -
  have "rule_ok (node_owners s) (insert (t_id t, t_owner_id t) (tailnet_owners s)) r"
    if "rule_ok (node_owners s) (tailnet_owners s) r" for r
  proof -
    have "fst ` tailnet_owners s = tailnet_ids s" by (simp add: tailnet_owners_def tailnet_ids_def image_image)
    with that assms(2) have "r_tailnet_id r \<noteq> t_id t" by (metis rule_ok_def tailnet_ids_def)
    with that show ?thesis by (simp add: rule_ok_def)
  qed
  then have "rules_inv (node_owners s) (insert (t_id t, t_owner_id t) (tailnet_owners s)) (tailnet_rules s)"
    using assms(1) by (simp add: db_inv_def rules_inv_def list_all_iff)
  with assms show ?thesis
    unfolding db_inv_def user_ids_def provider_ids_def node_ids_def tailnet_ids_def node_owners_def tailnet_owners_def setting_def
      tailnets_inv_def credentials_inv_def identities_inv_def grants_inv_def
    by (simp add: row_rules refs_insert)
qed

lemma add_tailnet_Inr:
  assumes "add_tailnet E s a name apiID rid encrypted ks now = Inr s'"
  obtains t s1 where "activeActor s a = Inr ()" "ac_ID a \<in> user_ids s" "rid \<notin> t_id ` set (tailnets s)" "apiID \<notin> t_api_id ` set (tailnets s)"
    "rid \<notin> c_tailnet_id ` set (credentials s)"
    "t = \<lparr>t_id = rid, t_owner_id = ac_ID a, t_display_name = name, t_api_id = apiID, t_enabled = True\<rparr>"
    "publishIdentity E (s\<lparr>tailnets := tailnets s @ [t], credentials := credentials s @ [new_credential rid encrypted 1 now]\<rparr>) rid ks now
       = Inr s1"
    "s' = notifyPolicies (writeAudit (ac_ID a) (ac_ID a) ''tailnet'' rid ''tailnet.create'' now s1)"
  using assms unfolding add_tailnet_def bindE_Inr_iff
  by (auto simp: insert_tailnet_def insert_row_def new_credential_def user_ids_def intro: that split: if_splits)

lemma add_tailnet_inv:
  assumes "add_tailnet E s a name apiID rid encrypted ks now = Inr s'" "db_inv E s" "keys_ok E ks"
  shows "db_inv E s'"
  using assms(1)
proof (rule add_tailnet_Inr)
  fix t s1
  let ?s0 = "s\<lparr>tailnets := tailnets s @ [t]\<rparr>"
  assume u: "ac_ID a \<in> user_ids s" "rid \<notin> t_id ` set (tailnets s)" "apiID \<notin> t_api_id ` set (tailnets s)"
      "rid \<notin> c_tailnet_id ` set (credentials s)"
    and t: "t = \<lparr>t_id = rid, t_owner_id = ac_ID a, t_display_name = name, t_api_id = apiID, t_enabled = True\<rparr>"
    and p: "publishIdentity E (s\<lparr>tailnets := tailnets s @ [t], credentials := credentials s @ [new_credential rid encrypted 1 now]\<rparr>) rid ks now
       = Inr s1"
    and s': "s' = notifyPolicies (writeAudit (ac_ID a) (ac_ID a) ''tailnet'' rid ''tailnet.create'' now s1)"
  have "db_inv E ?s0" using db_inv_tailnets_insert [OF assms(2), of t] u by (simp add: t)
  then have "db_inv E (?s0\<lparr>credentials := credentials ?s0 @ [new_credential rid encrypted 1 now]\<rparr>)"
    by (rule db_inv_credentials_insert) (use u in \<open>simp_all add: new_credential_def tailnet_ids_def t\<close>)
  from publishIdentity_inv [OF p] this assms(3) have "db_inv E s1" by (simp add: tailnet_ids_def t)
  then show ?thesis by (simp add: s')
qed

lemma AddTailnet_cases:
  assumes "AddTailnet E api s a name rawID c rid nonce now = (r, s')"
  obtains e where "r = Inl e" "s' = s"
  | apiID ks encrypted where "canonicalTailnetID rawID = Inr apiID" "fetchIdentity E api s apiID c now = Inr ks"
    "sealCredential E s rid c nonce = Inr encrypted" "may_act a (ac_ID a)"
    "add_tailnet E s a name apiID rid encrypted ks now = Inr s'" "r = Tailnet s' a rid"
proof -
  let ?t = "bindE (RequireOwner a (ac_ID a)) (\<lambda>_.
           bindE (canonicalTailnetID rawID) (\<lambda>apiID.
           bindE (failIf (TrimSpace name = [] \<or> 160 < length name) ErrInvalid) (\<lambda>_.
           bindE (fetchIdentity E api s apiID c now) (\<lambda>ks.
           bindE (sealCredential E s rid c nonce) (\<lambda>encrypted.
           add_tailnet E s a name apiID rid encrypted ks now)))))"
  note eq = assms [unfolded AddTailnet_def]
  show thesis
  proof (cases ?t)
    case (Inl e)
    with eq have "r = Inl e" "s' = s" by auto
    then show thesis by (rule that(1))
  next
    case (Inr t)
    with eq have s': "s' = t" "r = Tailnet s' a rid" by auto
    from Inr obtain apiID ks encrypted where "canonicalTailnetID rawID = Inr apiID" "fetchIdentity E api s apiID c now = Inr ks"
      "sealCredential E s rid c nonce = Inr encrypted" "may_act a (ac_ID a)"
      "add_tailnet E s a name apiID rid encrypted ks now = Inr t"
      unfolding bindE_Inr_iff RequireOwner_Inr by (elim exE conjE)
    with s' that(2) show thesis by simp
  qed
qed

lemma AddTailnet_inv [inv_intros]:
  assumes "AddTailnet E api s a name rawID c rid nonce now = (r, s')" "db_inv E s" "np_roundtrip E"
  shows "db_inv E s'"
  using assms(1)
  by (rule AddTailnet_cases) (use assms(2) add_tailnet_inv fetchIdentity_keys [OF assms(3)] in blast)+

lemma db_inv_credentials_upsert:
  assumes "db_inv E s" "c_tailnet_id c \<in> tailnet_ids s" "\<And>x. c_tailnet_id (f x) = c_tailnet_id x"
  shows "db_inv E (s\<lparr>credentials := upsert_row c_tailnet_id c f (credentials s)\<rparr>)"
  unfolding upsert_row_def using assms by (auto intro: db_inv_credentials_update db_inv_credentials_insert)

lemma owns_tailnet_ids: "owns_tailnet s rid u \<Longrightarrow> rid \<in> tailnet_ids s"
  by (auto simp: owns_tailnet_def tailnet_ids_def)

lemma replace_credential_inv:
  assumes "replace_credential E s a rid revision encrypted ks now = Inr s'" "db_inv E s" "keys_ok E ks"
  shows "db_inv E s'"
proof -
  let ?s = "s\<lparr>credentials := upsert_row c_tailnet_id (new_credential rid encrypted (revision + 1) now)
      (\<lambda>c. c\<lparr>c_encrypted := encrypted, c_status := ''valid'', c_error := [], c_updated_at := unix now,
         c_revision := revision + 1, c_refresh_seq := 0\<rparr>) (credentials s)\<rparr>"
  from assms(1) obtain owner s1 where o: "tailnetOwner s a rid = Inr owner" and p: "publishIdentity E ?s rid ks now = Inr s1"
    and s': "s' = notifyPolicies (writeAudit (ac_ID a) owner ''tailnet'' rid ''credential.replace'' now s1)"
    by (auto simp: replace_credential_def bindE_Inr_iff)
  have rid: "rid \<in> tailnet_ids s" using tailnetOwner_Inr [OF o] owns_tailnet_ids by blast
  have "db_inv E ?s" by (rule db_inv_credentials_upsert [OF assms(2)]) (simp_all add: rid new_credential_def)
  from publishIdentity_inv [OF p this _ assms(3)] rid show ?thesis by (simp add: s' tailnet_ids_def)
qed

lemma ReplaceCredential_inv [inv_intros]:
  "ReplaceCredential E api s0 s a rid c nonce now = Inr s' \<Longrightarrow> db_inv E s \<Longrightarrow> np_roundtrip E \<Longrightarrow> db_inv E s'"
  by (auto simp: ReplaceCredential_def bindE_Inr_iff intro: replace_credential_inv fetchIdentity_keys)

lemma tailnet_owners_iff: "(tid, b) \<in> tailnet_owners s \<longleftrightarrow> (\<exists>t\<in>set (tailnets s). tid = t_id t \<and> b = t_owner_id t)"
  unfolding tailnet_owners_def image_iff prod.inject by (rule refl)

lemma tailnet_owners_transfer:
  "(tid, b) \<in> tailnet_owners (update_tailnet rid (\<lambda>t. t\<lparr>t_owner_id := w\<rparr>) s) \<longleftrightarrow>
     (\<exists>t\<in>set (tailnets s). tid = t_id t \<and> b = (if t_id t = rid then w else t_owner_id t))"
proof -
  have ts: "tailnets (update_tailnet rid f s) = update_where (\<lambda>t. t_id t = rid) f (tailnets s)" for f
    by (simp add: update_tailnet_def)
  show ?thesis unfolding tailnet_owners_iff ts set_update_where ball_simps(9) bex_simps(7) by (intro bex_cong refl) simp
qed

lemma fst_tailnet_owners: "fst ` tailnet_owners s = t_id ` set (tailnets s)"
  unfolding tailnet_owners_def image_image by simp

lemma fst_tailnet_owners_transfer:
  "fst ` tailnet_owners (update_tailnet rid (\<lambda>t. t\<lparr>t_owner_id := w\<rparr>) s) = fst ` tailnet_owners s"
  unfolding fst_tailnet_owners by (simp add: update_tailnet_def image_update_where)

lemma rule_ok_transfer:
  assumes "rule_ok (node_owners s) (tailnet_owners s) r"
  shows "rule_ok (node_owners s) (tailnet_owners (update_tailnet rid (\<lambda>t. t\<lparr>t_owner_id := w\<rparr>) s))
    (if r_tailnet_id r = rid \<and> r_group_name r = ''owner'' \<and> list_ex (\<lambda>n. n_id n = r_node_id r \<and> n_owner_id n \<noteq> w) (nodes s)
     then r\<lparr>r_group_name := ''shared''\<rparr> else r)"
    (is "rule_ok ?N ?T (if ?move then _ else _)")
proof -
  have dom: "fst ` ?T = fst ` tailnet_owners s" by (rule fst_tailnet_owners_transfer)
  show ?thesis
  proof (cases ?move)
    case True
    with assms show ?thesis unfolding rule_ok_def dom if_P [OF True] by simp
  next
    case False
    have "a = b" if "r_group_name r = ''owner''" "(r_node_id r, a) \<in> ?N" "(r_tailnet_id r, b) \<in> ?T" for a b
    proof (cases "r_tailnet_id r = rid")
      case True
      with False that(1) have "\<not> list_ex (\<lambda>n. n_id n = r_node_id r \<and> n_owner_id n \<noteq> w) (nodes s)" by simp
      moreover from that(2) obtain n where "n \<in> set (nodes s)" "n_id n = r_node_id r" "a = n_owner_id n"
        unfolding node_owners_def by (elim imageE) simp
      ultimately have "a = w" by (auto simp: list_ex_iff)
      with that(3) True show ?thesis by (auto simp: tailnet_owners_transfer)
    next
      case False
      with that(3) [unfolded tailnet_owners_transfer] have "(r_tailnet_id r, b) \<in> tailnet_owners s"
        unfolding tailnet_owners_iff by auto
      with assms that(1,2) show ?thesis unfolding rule_ok_def by blast
    qed
    then have "r_group_name r = ''owner'' \<longrightarrow> (\<forall>a b. (r_node_id r, a) \<in> ?N \<longrightarrow> (r_tailnet_id r, b) \<in> ?T \<longrightarrow> a = b)" by blast
    with assms show ?thesis unfolding rule_ok_def dom if_not_P [OF False] by blast
  qed
qed

lemma share_rules_inv:
  assumes "db_inv E s" "w \<in> user_ids s"
  shows "db_inv E (share_rules rid w (update_tailnet rid (\<lambda>t. t\<lparr>t_owner_id := w\<rparr>) s))"
proof -
  let ?u = "update_tailnet rid (\<lambda>t. t\<lparr>t_owner_id := w\<rparr>) s"
  let ?g = "\<lambda>r. if r_tailnet_id r = rid \<and> r_group_name r = ''owner'' \<and> list_ex (\<lambda>n. n_id n = r_node_id r \<and> n_owner_id n \<noteq> w) (nodes s)
    then r\<lparr>r_group_name := ''shared''\<rparr> else r"
  have "tailnet_rules (share_rules rid w ?u) = map ?g (tailnet_rules s)"
    by (simp add: share_rules_def update_tailnet_def update_where_def)
  moreover have "unique (\<lambda>r. (r_node_id r, r_tailnet_id r)) (map ?g (tailnet_rules s)) = unique (\<lambda>r. (r_node_id r, r_tailnet_id r)) (tailnet_rules s)"
    unfolding unique_def map_map o_def by (intro arg_cong [where f = distinct] map_cong refl) simp
  moreover have "list_all (rule_ok (node_owners s) (tailnet_owners ?u)) (map ?g (tailnet_rules s))"
  proof -
    have "\<forall>r\<in>set (tailnet_rules s). rule_ok (node_owners s) (tailnet_owners s) r"
      using assms(1) by (simp add: db_inv_def rules_inv_def list_all_iff)
    then show ?thesis unfolding list_all_iff set_map ball_simps(9) using rule_ok_transfer [of s _ rid w] by blast
  qed
  ultimately have "rules_inv (node_owners s) (tailnet_owners ?u) (tailnet_rules (share_rules rid w ?u))"
    using assms(1) by (simp add: db_inv_def rules_inv_def)
  moreover have "tailnets_inv (user_ids s) (tailnets ?u)"
    using assms by (auto simp: db_inv_def tailnets_inv_def update_tailnet_def unique_update_where refs_def set_update_where)
  moreover have "tailnet_ids ?u = tailnet_ids s"
    by (simp add: tailnet_ids_def update_tailnet_def image_update_where)
  ultimately show ?thesis
    using assms(1) unfolding db_inv_def
    by (simp add: share_rules_def update_tailnet_def user_ids_def provider_ids_def node_ids_def tailnet_ids_def node_owners_def
        tailnet_owners_def setting_def)
qed

lemma TransferTailnet_inv [inv_intros]:
  assumes "TransferTailnet E s a rid w now = Inr s'" "db_inv E s"
  shows "db_inv E s'"
proof -
  from assms(1) obtain s1 where u: "user_enabled s w"
    and r: "rebuildPolicies E now (share_rules rid w (update_tailnet rid (\<lambda>t. t\<lparr>t_owner_id := w\<rparr>) s)) = Inr s1"
    and s': "s' = notifyPolicies (writeAudit (ac_ID a) w ''tailnet'' rid ''tailnet.transfer'' now s1)"
    by (auto simp: TransferTailnet_def bindE_Inr_iff failIf_Inr_iff)
  from u have "w \<in> user_ids s" by (auto simp: user_enabled_def user_ids_def list_ex_iff)
  from rebuildPolicies_inv [OF r share_rules_inv [OF assms(2) this]] show ?thesis by (simp add: s')
qed

lemma clear_credential_inv: "db_inv E s \<Longrightarrow> db_inv E (clear_credential rid now s)"
proof -
  let ?f = "\<lambda>c. c\<lparr>c_encrypted := [], c_status := ''missing'', c_error := [], c_revision := c_revision c + 1,
              c_refresh_seq := 0, c_updated_at := unix now\<rparr>"
  let ?c = "s\<lparr>credentials := update_where (\<lambda>c. c_tailnet_id c = rid) ?f (credentials s)\<rparr>"
  assume "db_inv E s"
  then have "db_inv E ?c" by (rule db_inv_credentials_update) simp
  then have "db_inv E (?c\<lparr>identity_snapshots := update_where (\<lambda>i. i_tailnet_id i = rid)
       (\<lambda>i. i\<lparr>i_keys := Some [], i_revision := i_revision i + 1\<rparr>) (identity_snapshots ?c)\<rparr>)"
    by (rule db_inv_identities_update) (simp_all add: keys_ok_def)
  then show ?thesis by (simp add: clear_credential_def)
qed

lemma DeleteCredential_Inr:
  assumes "DeleteCredential E s a rid now = Inr s'"
  obtains u es s2 where "tailnetOwner s a rid = Inr u" "rebuildPolicies E now ((clear_credential rid now s)\<lparr>events := es\<rparr>) = Inr s2"
    "s' = notifyPolicies (writeAudit (ac_ID a) u ''tailnet'' rid ''credential.delete'' now s2)"
proof -
  from assms obtain u s1 s2 where "tailnetOwner s a rid = Inr u" "updateIdentityConflicts now (clear_credential rid now s) = Inr s1"
    "rebuildPolicies E now s1 = Inr s2" "s' = notifyPolicies (writeAudit (ac_ID a) u ''tailnet'' rid ''credential.delete'' now s2)"
    by (auto simp: DeleteCredential_def bindE_Inr_iff)
  with that show thesis by (metis updateIdentityConflicts_Inr)
qed

lemma DeleteCredential_inv [inv_intros]:
  "DeleteCredential E s a rid now = Inr s' \<Longrightarrow> db_inv E s \<Longrightarrow> db_inv E s'"
  by (erule DeleteCredential_Inr) (auto elim!: rebuildPolicies_inv simp: clear_credential_inv)

section \<open>The owner's contract\<close>

lemma publishIdentity_audit: "publishIdentity E s rid ks now = Inr s' \<Longrightarrow> audit s' = audit s"
  by (erule publishIdentity_Inr) (auto dest!: rebuildPolicies_audit simp: put_snapshot_def)

lemma ReplaceCredential_guarded:
  assumes "ReplaceCredential E api s0 s a rid c nonce now = Inr s'"
  shows "guarded_effect a (owns_tailnet s rid) s s'"
proof -
  from assms obtain u s1 cs ks where "tailnetOwner s a rid = Inr u" "publishIdentity E (s\<lparr>credentials := cs\<rparr>) rid ks now = Inr s1"
    "s' = notifyPolicies (writeAudit (ac_ID a) u ''tailnet'' rid ''credential.replace'' now s1)"
    by (auto simp: ReplaceCredential_def replace_credential_def bindE_Inr_iff)
  then show ?thesis by (auto dest!: tailnetOwner_Inr publishIdentity_audit intro!: guarded_audit)
qed

lemma DeleteCredential_guarded: "DeleteCredential E s a rid now = Inr s' \<Longrightarrow> guarded_effect a (owns_tailnet s rid) s s'"
  by (erule DeleteCredential_Inr)
    (auto dest!: tailnetOwner_Inr rebuildPolicies_audit intro!: guarded_audit simp: clear_credential_def)

interpretation credential_op: owned_operation
  "\<lambda>s a rid s'. \<exists>api s0 c nonce now. ReplaceCredential E api s0 s a rid c nonce now = Inr s' \<or> DeleteCredential E s a rid now = Inr s'"
  owns_tailnet for E
  by unfold_locales (auto dest: ReplaceCredential_guarded DeleteCredential_guarded)

section \<open>Conflict events\<close>

abbreviation in_conflict :: "string \<Rightarrow> store \<Rightarrow> bool" where
  "in_conflict tid s \<equiv> list_ex (open_event tid ''identity_conflict'') (events s)"

lemma conflict_event_step:
  assumes "unix now \<noteq> 0" "find_tailnet s (fst x) \<noteq> None"
  shows "in_conflict (fst x) (conflict_event conflicts now x s) = has_conflict conflicts (snd x)"
    and "tid \<noteq> fst x \<Longrightarrow> in_conflict tid (conflict_event conflicts now x s) = in_conflict tid s"
proof -
  obtain t where t: "find_tailnet s (fst x) = Some t" using assms(2) by blast
  show "in_conflict (fst x) (conflict_event conflicts now x s) = has_conflict conflicts (snd x)"
    using assms(1)
    by (simp add: conflict_event_def identityEvent_def t insert_event_def resolve_events_def)
      (auto simp: open_event_def list_ex_iff set_update_where)
  show "in_conflict tid (conflict_event conflicts now x s) = in_conflict tid s" if "tid \<noteq> fst x"
    using that
    by (simp add: conflict_event_def identityEvent_def t insert_event_def resolve_events_def)
      (auto simp: open_event_def list_ex_iff set_update_where)
qed

lemma conflict_events_exact:
  assumes "unix now \<noteq> 0" "distinct (map fst all)" "\<forall>x\<in>set all. find_tailnet s (fst x) \<noteq> None" "(tid, snap) \<in> set all"
  shows "in_conflict tid (fold (conflict_event conflicts now) all s) = has_conflict conflicts snap"
  using assms(2-4)
proof (induction all arbitrary: s)
  case (Cons x all)
  let ?s = "conflict_event conflicts now x s"
  obtain es where es: "?s = s\<lparr>events := es\<rparr>" using conflict_event_events by blast
  have ft: "find_tailnet ?s = find_tailnet s" by (simp add: es find_tailnet_def fun_eq_iff)
  have other: "in_conflict t (fold (conflict_event conflicts now) ys u) = in_conflict t u"
    if "t \<notin> fst ` set ys" "\<forall>y\<in>set ys. find_tailnet u (fst y) \<noteq> None" for t ys u
    using that
  proof (induction ys arbitrary: u)
    case (Cons y ys)
    obtain es where "conflict_event conflicts now y u = u\<lparr>events := es\<rparr>" using conflict_event_events by blast
    then have "find_tailnet (conflict_event conflicts now y u) = find_tailnet u" by (simp add: find_tailnet_def fun_eq_iff)
    with Cons conflict_event_step(2) [OF assms(1), of u y t] show ?case by simp
  qed simp
  show ?case
  proof (cases "(tid, snap) = x")
    case True
    then have x: "fst x = tid" "snd x = snap" by auto
    have "tid \<notin> fst ` set all" using Cons.prems(1) x(1) by simp
    then have "in_conflict tid (fold (conflict_event conflicts now) all ?s) = in_conflict tid ?s"
      by (rule other) (use Cons.prems(2) in \<open>simp add: ft\<close>)
    with conflict_event_step(1) [OF assms(1), of s x] Cons.prems(2) x show ?thesis by simp
  next
    case False
    with Cons show ?thesis by (simp add: ft)
  qed
qed simp

lemma two_elements: "a \<in> H \<Longrightarrow> (\<exists>t u. t \<in> H \<and> u \<in> H \<and> t \<noteq> u) \<longleftrightarrow> H \<noteq> {a}"
proof
  assume "a \<in> H" "H \<noteq> {a}"
  then obtain b where "b \<in> H" "b \<noteq> a" by auto
  with \<open>a \<in> H\<close> show "\<exists>t u. t \<in> H \<and> u \<in> H \<and> t \<noteq> u" by auto
qed auto

lemma conflicting_holders: "tid \<in> holders all k \<Longrightarrow> k \<in> set (conflictingKeys all) \<longleftrightarrow> holders all k \<noteq> {tid}"
  unfolding set_conflictingKeys by (rule two_elements)

lemma identitySnapshots_cong: "identity_snapshots s' = identity_snapshots s \<Longrightarrow> identitySnapshots s' = identitySnapshots s"
  by (simp add: identitySnapshots_def)

lemma identitySnapshots_ids:
  assumes "identitySnapshots s = Inr all" "x \<in> set all"
  shows "fst x \<in> i_tailnet_id ` set (identity_snapshots s)"
  using mapE_Inr_set [OF assms(1) [unfolded identitySnapshots_def] assms(2)] by (force split: option.splits)

section \<open>Properties\<close>

text \<open>C23: After a device list is published, exactly the tailnets that share a key with another tailnet have an
  open conflict event: the event is opened when the conflict appears and resolved when it is
  gone, for every tailnet and not only for the one that was refreshed.\<close>

theorem conflicts_flagged:
  assumes "publishIdentity E s rid ks now = Inr s'" "db_inv E s" "rid \<in> tailnet_ids s" "keys_ok E ks" "unix now \<noteq> 0"
  shows "\<exists>all. identitySnapshots s' = Inr all \<and> (\<forall>(tid, snap)\<in>set all.
    list_ex (open_event tid ''identity_conflict'') (events s') \<longleftrightarrow> (\<exists>k\<in>set (is_Keys snap). holders all (dk_NodePublic k) \<noteq> {tid}))"
proof -
  let ?p = "resolve_events (\<lambda>e. ev_resource_id e = rid \<and> ev_kind e = ''identity_unavailable'') now (put_snapshot rid ks now s)"
  from assms(1) obtain s1 where u: "updateIdentityConflicts now ?p = Inr s1" and r: "rebuildPolicies E now s1 = Inr s'"
    by (auto simp: publishIdentity_def bindE_Inr_iff)
  from u obtain all where all: "identitySnapshots ?p = Inr all"
    and s1: "s1 = fold (conflict_event (conflictingKeys all) now) all ?p" by (auto simp: updateIdentityConflicts_def bindE_Inr_iff)
  have inv: "db_inv E ?p" using put_snapshot_inv [OF assms(2-4)] by simp
  then have ids: "identities_inv E (tailnet_ids ?p) (identity_snapshots ?p)" by (simp add: db_inv_def)
  from identitySnapshots_ok [OF this] all have d: "distinct (map fst all)" by auto
  have ft: "\<forall>x\<in>set all. find_tailnet ?p (fst x) \<noteq> None"
  proof
    fix x assume "x \<in> set all"
    with identitySnapshots_ids [OF all] ids have "fst x \<in> tailnet_ids ?p" unfolding identities_inv_def refs_def by blast
    then show "find_tailnet ?p (fst x) \<noteq> None" unfolding find_tailnet_def find_None_image tailnet_ids_def by simp
  qed
  obtain es where "s1 = ?p\<lparr>events := es\<rparr>" using u by (rule updateIdentityConflicts_Inr)
  then have "identity_snapshots s1 = identity_snapshots ?p" by simp
  with same_tables(5) [OF rebuildPolicies_same [OF r]] have snaps: "identitySnapshots s' = Inr all"
    using identitySnapshots_cong [of s' ?p] all by (simp only:)
  have ev: "events s' = events s1" by (rule same_tables(13) [OF rebuildPolicies_same [OF r]])
  have "in_conflict tid s' \<longleftrightarrow> (\<exists>k\<in>set (is_Keys snap). holders all (dk_NodePublic k) \<noteq> {tid})" if m: "(tid, snap) \<in> set all" for tid snap
  proof -
    have k: "\<forall>k\<in>set (is_Keys snap). dk_NodePublic k \<in> set (conflictingKeys all) \<longleftrightarrow> holders all (dk_NodePublic k) \<noteq> {tid}"
      using m by (intro ballI conflicting_holders) (auto simp: holders_def)
    have "in_conflict tid s' = has_conflict (conflictingKeys all) snap"
      unfolding ev s1 by (rule conflict_events_exact [OF assms(5) d ft m])
    with k show ?thesis unfolding has_conflict_def list_ex_iff by blast
  qed
  then have "\<forall>(tid, snap)\<in>set all. in_conflict tid s' \<longleftrightarrow> (\<exists>k\<in>set (is_Keys snap). holders all (dk_NodePublic k) \<noteq> {tid})"
    by (intro ballI) (simp add: split_beta)
  with snaps show ?thesis by (intro exI [of _ all] conjI)
qed

definition sample_unpublished :: store where
  "sample_unpublished = sample_store\<lparr>node_policies := []\<rparr>"

lemma sample_unpublished_inv: "db_inv sample_env sample_unpublished"
  unfolding sample_unpublished_def by (simp del: set_filter add: db_inv_eval)

lemma sample_publish:
  "\<exists>s'. publishIdentity sample_env sample_unpublished ''t1'' [\<lparr>dk_NodePublic = ''nodekey:a1'', dk_NotAfter = zero_time\<rparr>] (unix_time 300) = Inr s'"
proof -
  let ?p = "resolve_events (\<lambda>e. ev_resource_id e = ''t1'' \<and> ev_kind e = ''identity_unavailable'') (unix_time 300)
    (put_snapshot ''t1'' [\<lparr>dk_NodePublic = ''nodekey:a1'', dk_NotAfter = zero_time\<rparr>] (unix_time 300) sample_unpublished)"
  have "\<exists>all. identitySnapshots ?p = Inr all"
    by (simp add: identitySnapshots_def put_snapshot_def upsert_row_def update_where_def sample_unpublished_def sample_store_def resolve_events_def)
  then obtain s1 where s1: "updateIdentityConflicts (unix_time 300) ?p = Inr s1" by (auto simp: updateIdentityConflicts_def)
  obtain es where "s1 = ?p\<lparr>events := es\<rparr>" using s1 by (rule updateIdentityConflicts_Inr)
  then have "node_policies s1 = []" by (simp add: put_snapshot_def sample_unpublished_def resolve_events_def)
  with s1 show ?thesis
    by (simp add: publishIdentity_def last_success_def sample_unpublished_def sample_store_def rebuildPolicies_def)
qed

theorem conflicts_flagged_witness:
  "\<exists>s'. publishIdentity sample_env sample_unpublished ''t1'' [\<lparr>dk_NodePublic = ''nodekey:a1'', dk_NotAfter = zero_time\<rparr>] (unix_time 300) = Inr s'
    \<and> (\<exists>all. identitySnapshots s' = Inr all \<and> (\<forall>(tid, snap)\<in>set all.
        list_ex (open_event tid ''identity_conflict'') (events s') \<longleftrightarrow> (\<exists>k\<in>set (is_Keys snap). holders all (dk_NodePublic k) \<noteq> {tid})))"
proof -
  have "''t1'' \<in> tailnet_ids sample_unpublished" by (simp add: tailnet_ids_def sample_unpublished_def sample_store_def)
  moreover have "keys_ok sample_env [\<lparr>dk_NodePublic = ''nodekey:a1'', dk_NotAfter = zero_time\<rparr>]"
    by (simp add: keys_ok_def key_ok_def key_public_def sample_env_def)
  moreover have "unix (unix_time 300) \<noteq> 0" by simp
  moreover obtain s' where s': "publishIdentity sample_env sample_unpublished ''t1''
      [\<lparr>dk_NodePublic = ''nodekey:a1'', dk_NotAfter = zero_time\<rparr>] (unix_time 300) = Inr s'" using sample_publish ..
  ultimately have "\<exists>all. identitySnapshots s' = Inr all \<and> (\<forall>(tid, snap)\<in>set all.
      list_ex (open_event tid ''identity_conflict'') (events s') \<longleftrightarrow> (\<exists>k\<in>set (is_Keys snap). holders all (dk_NodePublic k) \<noteq> {tid}))"
    by (intro conflicts_flagged [OF s' sample_unpublished_inv])
  with s' show ?thesis by (intro exI [of _ s'] conjI)
qed

end
