(* ===== verification/IdentitySync.thy ===== *)
theory IdentitySync
  imports Credentials
begin

text \<open>
  The refresh of a tailnet's identity (identity_store.go), the events about authorisations
  that have run out (expiry_events.go), and the loop that refreshes every tailnet with four
  workers (identity_sync.go).
\<close>

section \<open>Refreshing one tailnet\<close>

text \<open>
  A refresh is two transactions with the exchange with the identity source in between. The
  first one takes a number, the second one only counts while the credential has the revision
  and the number it had then.
\<close>

definition refresh_begin :: "store \<Rightarrow> string \<Rightarrow> ((string \<times> string \<times> nat \<times> nat) \<times> store) result" where
  "refresh_begin s rid =
     (case (find_tailnet s rid, find_credential s rid) of
        (Some t, Some c) \<Rightarrow>
          if t_enabled t \<and> user_enabled s (t_owner_id t) \<and> c_status c \<noteq> ''missing''
          then Inr ((t_api_id t, c_encrypted c, c_revision c, c_refresh_seq c + 1),
                 s\<lparr>credentials := update_where (\<lambda>c. c_tailnet_id c = rid) (\<lambda>x. x\<lparr>c_refresh_seq := c_refresh_seq c + 1\<rparr>) (credentials s)\<rparr>)
          else Inl ErrNoRows
      | _ \<Rightarrow> Inl ErrNoRows)"

definition set_credential_status :: "string \<Rightarrow> string \<Rightarrow> string \<Rightarrow> store \<Rightarrow> store" where
  "set_credential_status rid status message s = s\<lparr>credentials :=
     update_where (\<lambda>c. c_tailnet_id c = rid) (\<lambda>c. c\<lparr>c_status := status, c_error := message\<rparr>) (credentials s)\<rparr>"

definition refresh_failed :: "string \<Rightarrow> time \<Rightarrow> store \<Rightarrow> store" where
  "refresh_failed rid now s = identityEvent rid ''identity_unavailable''
     ''identity source unavailable; cached identity retains its original deadline'' now
     (set_credential_status rid ''unavailable'' ''identity source unavailable'' s)"

definition refresh_commit ::
    "env \<Rightarrow> store \<Rightarrow> string \<Rightarrow> nat \<Rightarrow> nat \<Rightarrow> device_key list result \<Rightarrow> time \<Rightarrow> unit result \<times> store" where
  "refresh_commit E s rid revision seq fetched now =
     (case find_credential s rid of
        None \<Rightarrow> (Inl ErrNoRows, s)
      | Some c \<Rightarrow>
          if c_revision c \<noteq> revision \<or> c_refresh_seq c \<noteq> seq then (Inl ErrConflict, s)
          else (case fetched of
              Inl _ \<Rightarrow> (Inl ErrIdentityUnavailable, refresh_failed rid now s)
            | Inr ks \<Rightarrow>
                (case publishIdentity E (set_credential_status rid ''valid'' [] s) rid ks now of
                   Inl e \<Rightarrow> (Inl e, s)
                 | Inr s' \<Rightarrow> (Inr (), notifyPolicies s'))))"

text \<open>\<open>others\<close> is what happens to the store between the two transactions.\<close>

definition RefreshIdentity ::
    "env \<Rightarrow> api_replies \<Rightarrow> store \<Rightarrow> (store \<Rightarrow> store) \<Rightarrow> string \<Rightarrow> time \<Rightarrow> time \<Rightarrow> unit result \<times> store" where
  "RefreshIdentity E api s others rid now now' =
     (case refresh_begin s rid of
        Inl e \<Rightarrow> (Inl e, s)
      | Inr ((apiID, encrypted, revision, seq), s1) \<Rightarrow>
          refresh_commit E (others s1) rid revision seq
            (bindE (openCredential E s1 rid encrypted) (\<lambda>c. fetchIdentity E api s1 apiID c now)) now')"

section \<open>Authorisations that have run out\<close>

definition grant_ended :: "time \<Rightarrow> grant_policy \<Rightarrow> bool" where
  "grant_ended now g \<longleftrightarrow>
     \<not> now < gp_IdentityUntil g \<or> \<not> now < gp_ControlUntil g
     \<or> gp_ExplicitUntil g \<noteq> zero_time \<and> \<not> now < gp_ExplicitUntil g
     \<or> gp_Keys g \<noteq> [] \<and> list_all (\<lambda>k. \<not> now < EffectiveUntil g k) (gp_Keys g)"

text \<open>The first loop: what the stored policies say of each grant; a policy that does not decode is an error.\<close>

definition policy_expired :: "env \<Rightarrow> store \<Rightarrow> time \<Rightarrow> policy_row \<Rightarrow> (string \<times> bool) list result" where
  "policy_expired E s now row =
     (case pr_policy row of
        None \<Rightarrow> Inr []
      | Some body \<Rightarrow> bindE (DecodePolicy E (body_len body) body (clusterID s) (pr_node_id row)) (\<lambda>p.
          Inr (map (\<lambda>g. (gp_GrantID g, grant_ended now g)) (p_Grants p))))"

definition expired_grants :: "env \<Rightarrow> store \<Rightarrow> time \<Rightarrow> (string \<times> bool) list result" where
  "expired_grants E s now = bindE (mapE (policy_expired E s now) (node_policies s)) (\<lambda>xss. Inr (concat xss))"

text \<open>The last entry for a grant counts, as in the code's map.\<close>

definition is_expired :: "(string \<times> bool) list \<Rightarrow> string \<Rightarrow> bool" where
  "is_expired xs gid \<longleftrightarrow> map_of (rev xs) gid = Some True"

definition relation_ended :: "(string \<times> bool) list \<Rightarrow> time \<Rightarrow> grant_row \<Rightarrow> bool" where
  "relation_ended expired now g \<longleftrightarrow> live_grant g
     \<and> (g_explicit_until g \<noteq> 0 \<and> \<not> now < unix_time (g_explicit_until g) \<or> g_state g = Active \<and> is_expired expired (g_id g))"

definition open_expiry :: "string \<Rightarrow> string \<Rightarrow> event_row \<Rightarrow> bool" where
  "open_expiry owner gid e \<longleftrightarrow> ev_owner_id e = owner \<and> ev_resource_type e = ''grant'' \<and> ev_resource_id e = gid
     \<and> ev_kind e = ''authorization_expired'' \<and> ev_resolved_at e = 0"

definition expiry_event :: "string \<Rightarrow> time \<Rightarrow> string \<Rightarrow> store \<Rightarrow> store" where
  "expiry_event gid now owner s =
     (if list_ex (open_expiry owner gid) (events s) then s
      else insert_event owner ''grant'' gid ''authorization_expired''
             ''Authorization deadline reached; relay permission has expired.'' now s)"

definition relation_step :: "(string \<times> bool) list \<Rightarrow> time \<Rightarrow> grant_row \<times> string \<times> string \<Rightarrow> store \<Rightarrow> store" where
  "relation_step expired now x s =
     (case x of (g, nodeOwner, tnOwner) \<Rightarrow>
        if \<not> relation_ended expired now g
        then resolve_events (\<lambda>e. ev_resource_type e = ''grant'' \<and> ev_resource_id e = g_id g \<and> ev_kind e = ''authorization_expired'') now s
        else fold (expiry_event (g_id g) now)
               (if tnOwner \<noteq> nodeOwner then [nodeOwner, tnOwner] else [nodeOwner]) s)"

definition relation_of :: "store \<Rightarrow> grant_row \<Rightarrow> (grant_row \<times> string \<times> string) option" where
  "relation_of s g =
     (case (find_node s (g_node_id g), find_tailnet s (g_tailnet_id g)) of
        (Some n, Some t) \<Rightarrow> Some (g, n_owner_id n, t_owner_id t) | _ \<Rightarrow> None)"

definition refreshExpiryEvents :: "env \<Rightarrow> store \<Rightarrow> time \<Rightarrow> store result" where
  "refreshExpiryEvents E s now =
     bindE (expired_grants E s now) (\<lambda>expired.
     Inr (fold (relation_step expired now) (List.map_filter (relation_of s) (grants s)) s))"

section \<open>The synchroniser\<close>

definition minute :: int where
  "minute = 60 * second"

definition hour :: int where
  "hour = 3600 * second"

text \<open>\<^verbatim>\<open>time.Minute * time.Duration(1<<max(failures, 0))\<close> does not overflow: the shift is at most six.\<close>

definition identityRetryDelay :: "int \<Rightarrow> int" where
  "identityRetryDelay failures =
     (if 6 < failures then hour
      else let d = minute * 2 ^ nat (max failures 0) in if hour < d then hour else d)"

record schedule =
  sc_next :: time
  sc_failures :: int
  sc_busy :: bool

text \<open>The rows of the poll: the tailnets to refresh, with the time of the last success, in order.\<close>

definition sync_row :: "store \<Rightarrow> tailnet_row \<Rightarrow> (string \<times> int) option" where
  "sync_row s t =
     (if t_enabled t \<and> user_enabled s (t_owner_id t)
         \<and> (case find_credential s (t_id t) of None \<Rightarrow> False | Some c \<Rightarrow> c_status c \<noteq> ''missing'')
      then Some (t_id t, last_success s (t_id t)) else None)"

definition sync_rows :: "store \<Rightarrow> (string \<times> int) list" where
  "sync_rows s = List.map_filter (sync_row s) (sort_key t_id (tailnets s))"

text \<open>
  One row: \<open>ready\<close> counts the workers that wait for a job, and a job is handed over only to one
  of those. The result are the schedules, the workers still waiting and the jobs handed over.
\<close>

fun poll_row :: "time \<Rightarrow> string \<times> int \<Rightarrow> (string \<rightharpoonup> schedule) \<times> nat \<times> string list \<Rightarrow> (string \<rightharpoonup> schedule) \<times> nat \<times> string list" where
  "poll_row now (tid, success) (states, ready, jobs) =
     (let st = (case states tid of Some st \<Rightarrow> st
                | None \<Rightarrow> \<lparr>sc_next = unix_time success + minute, sc_failures = 0, sc_busy = False\<rparr>)
      in if \<not> sc_busy st \<and> \<not> now < sc_next st \<and> 0 < ready
         then (states(tid \<mapsto> st\<lparr>sc_busy := True\<rparr>), ready - 1, jobs @ [tid])
         else (states(tid \<mapsto> st), ready, jobs))"

definition prune_states :: "string set \<Rightarrow> (string \<rightharpoonup> schedule) \<Rightarrow> (string \<rightharpoonup> schedule)" where
  "prune_states active states = (\<lambda>tid. case states tid of None \<Rightarrow> None
     | Some st \<Rightarrow> if tid \<in> active \<or> sc_busy st then Some st else None)"

definition poll :: "env \<Rightarrow> store \<Rightarrow> time \<Rightarrow> nat \<Rightarrow> (string \<rightharpoonup> schedule) \<Rightarrow> ((string \<rightharpoonup> schedule) \<times> string list \<times> store) result" where
  "poll E s now ready states =
     (case fold (poll_row now) (sync_rows s) (states, ready, []) of (states', _, jobs) \<Rightarrow>
        bindE (refreshExpiryEvents E s now) (\<lambda>s'. Inr (prune_states (fst ` set (sync_rows s)) states', jobs, s')))"

definition sync_result :: "time \<Rightarrow> string \<Rightarrow> bool \<Rightarrow> (string \<rightharpoonup> schedule) \<Rightarrow> (string \<rightharpoonup> schedule)" where
  "sync_result now tid ok states =
     (let st = (case states tid of Some st \<Rightarrow> st | None \<Rightarrow> \<lparr>sc_next = zero_time, sc_failures = 0, sc_busy = False\<rparr>);
          failures = (if ok then 0 else sc_failures st + 1)
      in states(tid \<mapsto> \<lparr>sc_next = now + identityRetryDelay failures, sc_failures = failures, sc_busy = False\<rparr>))"

text \<open>
  The running synchroniser: the schedules, the tailnets the four workers are busy with (a worker
  with a result waits for room), and the channel of results, of capacity four.
\<close>

record sync =
  sy_states :: "string \<rightharpoonup> schedule"
  sy_working :: "string list"
  sy_results :: "(string \<times> bool) list"

inductive sync_step :: "env \<Rightarrow> sync \<times> store \<Rightarrow> sync \<times> store \<Rightarrow> bool" for E where
  sync_poll: "poll E s now ready (sy_states y) = Inr (states', jobs, s') \<Longrightarrow> ready + length (sy_working y) \<le> 4
    \<Longrightarrow> sync_step E (y, s) (y\<lparr>sy_states := states', sy_working := sy_working y @ jobs\<rparr>, s')"
| sync_done: "tid \<in> set (sy_working y) \<Longrightarrow> length (sy_results y) < 4
    \<Longrightarrow> sync_step E (y, s) (y\<lparr>sy_working := remove1 tid (sy_working y), sy_results := sy_results y @ [(tid, ok)]\<rparr>, s)"
| sync_receive: "sy_results y = (tid, ok) # rest
    \<Longrightarrow> sync_step E (y, s) (y\<lparr>sy_states := sync_result now tid ok (sy_states y), sy_results := rest\<rparr>, s)"
| sync_other: "sync_step E (y, s) (y, s')"

definition sync_start :: sync where
  "sync_start = \<lparr>sy_states = Map.empty, sy_working = [], sy_results = []\<rparr>"

section \<open>Consistency\<close>

lemma expiry_events_only: "\<exists>es. fold (expiry_event gid now) owners s = s\<lparr>events := es\<rparr>"
proof (induction owners arbitrary: s)
  case Nil
  show ?case by (rule exI [of _ "events s"]) simp
next
  case (Cons u us)
  have "\<exists>es. expiry_event gid now u s = s\<lparr>events := es\<rparr>"
    unfolding expiry_event_def insert_event_def by (cases "list_ex (open_expiry u gid) (events s)") (auto intro: exI [of _ "events s"])
  then obtain es where es: "expiry_event gid now u s = s\<lparr>events := es\<rparr>" by blast
  from Cons.IH [of "s\<lparr>events := es\<rparr>"] show ?case by (simp add: es)
qed

lemma relation_step_events: "\<exists>es. relation_step expired now x s = s\<lparr>events := es\<rparr>"
  unfolding relation_step_def resolve_events_def by (auto simp del: fold.simps split: prod.split intro: expiry_events_only)

lemma relation_steps_events: "\<exists>es. fold (relation_step expired now) xs s = s\<lparr>events := es\<rparr>"
proof (induction xs arbitrary: s)
  case Nil
  show ?case by (rule exI [of _ "events s"]) simp
next
  case (Cons x xs)
  obtain es where es: "relation_step expired now x s = s\<lparr>events := es\<rparr>" using relation_step_events by blast
  from Cons.IH [of "s\<lparr>events := es\<rparr>"] show ?case by (simp add: es)
qed

lemma refreshExpiryEvents_Inr:
  assumes "refreshExpiryEvents E s now = Inr s'"
  obtains es where "s' = s\<lparr>events := es\<rparr>"
  using assms relation_steps_events unfolding refreshExpiryEvents_def bindE_Inr_iff by (metis sum.inject(2))

lemma refreshExpiryEvents_inv [inv_intros]: "refreshExpiryEvents E s now = Inr s' \<Longrightarrow> db_inv E s \<Longrightarrow> db_inv E s'"
  by (erule refreshExpiryEvents_Inr) simp

lemma refresh_begin_Inr:
  assumes "refresh_begin s rid = Inr ((apiID, enc, revision, seq), s')"
  obtains c where "find_credential s rid = Some c" "revision = c_revision c" "seq = c_refresh_seq c + 1"
    "s' = s\<lparr>credentials := update_where (\<lambda>c. c_tailnet_id c = rid) (\<lambda>x. x\<lparr>c_refresh_seq := seq\<rparr>) (credentials s)\<rparr>"
  using assms unfolding refresh_begin_def by (auto split: option.splits if_splits intro: that)

lemma refresh_begin_inv [inv_intros]:
  assumes "refresh_begin s rid = Inr (x, s')" "db_inv E s"
  shows "db_inv E s'"
proof -
  obtain apiID enc revision seq where "x = (apiID, enc, revision, seq)" by (cases x)
  with assms(1) have "refresh_begin s rid = Inr ((apiID, enc, revision, seq), s')" by simp
  then show ?thesis by (rule refresh_begin_Inr) (simp add: db_inv_credentials_update assms(2))
qed

lemma identityEvent_inv [simp]: "db_inv E (identityEvent rid k m now s) = db_inv E s"
  by (simp add: identityEvent_def split: option.split)

lemma set_credential_status_inv [simp]: "db_inv E s \<Longrightarrow> db_inv E (set_credential_status rid st m s)"
  unfolding set_credential_status_def by (simp add: db_inv_credentials_update)

lemma refresh_commit_cases:
  assumes "refresh_commit E s rid revision seq fetched now = (r, s')"
  obtains (dropped) e where "r = Inl e" "s' = s"
  | (failed) e c where "find_credential s rid = Some c" "c_revision c = revision" "c_refresh_seq c = seq"
      "fetched = Inl e" "r = Inl ErrIdentityUnavailable" "s' = refresh_failed rid now s"
  | (published) ks c s1 where "find_credential s rid = Some c" "c_revision c = revision" "c_refresh_seq c = seq"
      "fetched = Inr ks" "publishIdentity E (set_credential_status rid ''valid'' [] s) rid ks now = Inr s1"
      "r = Inr ()" "s' = notifyPolicies s1"
  using assms unfolding refresh_commit_def by (auto split: option.splits if_splits sum.splits)

lemma find_credential_tailnet:
  assumes "db_inv E s" "find_credential s rid = Some c"
  shows "rid \<in> tailnet_ids s"
  using assms by (auto simp: db_inv_def credentials_inv_def refs_def find_credential_def dest!: find_SomeD)

lemma refresh_commit_inv [inv_intros]:
  assumes "refresh_commit E s rid revision seq fetched now = (r, s')" "db_inv E s" "\<And>ks. fetched = Inr ks \<Longrightarrow> keys_ok E ks"
  shows "db_inv E s'"
  using assms(1)
proof (cases rule: refresh_commit_cases)
  case (published ks c s1)
  have "rid \<in> tailnet_ids (set_credential_status rid ''valid'' [] s)"
    using find_credential_tailnet [OF assms(2) published(1)] by (simp add: set_credential_status_def tailnet_ids_def)
  with publishIdentity_inv [OF published(5)] assms(2,3) published(4,7) show ?thesis by simp
qed (use assms(2) in \<open>simp_all add: refresh_failed_def\<close>)

section \<open>Versions of a credential\<close>

text \<open>A credential is replaced, deleted or read for a refresh; each of them makes it newer.\<close>

definition cred_version :: "store \<Rightarrow> string \<Rightarrow> (nat \<times> nat) option" where
  "cred_version s rid = map_option (\<lambda>c. (c_revision c, c_refresh_seq c)) (find_credential s rid)"

inductive cred_op :: "env \<Rightarrow> string \<Rightarrow> store \<Rightarrow> store \<Rightarrow> bool" for E rid where
  cred_refresh: "refresh_begin s rid = Inr (x, s') \<Longrightarrow> cred_op E rid s s'"
| cred_replace: "replace_credential E s a rid revision enc ks now = Inr s' \<Longrightarrow> cred_op E rid s s'"
| cred_delete: "DeleteCredential E s a rid now = Inr s' \<Longrightarrow> cred_op E rid s s'"

inductive later :: "nat \<times> nat \<Rightarrow> nat \<times> nat \<Rightarrow> bool" where
  later_revision: "r < r' \<Longrightarrow> later (r, q) (r', q')"
| later_seq: "q < q' \<Longrightarrow> later (r, q) (r, q')"

inductive_simps later_iff [simp]: "later (r, q) (r', q')"

lemma later_trans: "later u v \<Longrightarrow> later v w \<Longrightarrow> later u w"
  by (cases u; cases v; cases w) auto

lemma cred_version_update:
  assumes "credentials s' = update_where (\<lambda>c. c_tailnet_id c = rid) f (credentials s)" "\<And>c. c_tailnet_id (f c) = c_tailnet_id c"
  shows "find_credential s' rid = map_option f (find_credential s rid)"
  unfolding find_credential_def assms(1)
  using find_update_where [where k = c_tailnet_id and f = f and a = rid and b = rid and xs = "credentials s"] assms(2) by simp

lemma rebuild_credentials: "rebuildPolicies E now s = Inr s' \<Longrightarrow> credentials s' = credentials s"
  by (rule same_tables(4) [OF rebuildPolicies_same])

lemma publishIdentity_credentials:
  assumes "publishIdentity E s rid ks now = Inr s'"
  shows "credentials s' = credentials s"
  using assms by (rule publishIdentity_Inr) (auto dest!: rebuild_credentials simp: put_snapshot_def)

text \<open>Every such operation moves an existing credential to a later version.\<close>

lemma cred_version_later:
  assumes "find_credential s rid = Some c" "find_credential s' rid = Some c'"
    "later (c_revision c, c_refresh_seq c) (c_revision c', c_refresh_seq c')" "cred_version s rid = Some v"
  shows "\<exists>v'. cred_version s' rid = Some v' \<and> later v v'"
  using assms by (auto simp: cred_version_def)

lemma find_upsert_credential:
  assumes "find (\<lambda>c. c_tailnet_id c = rid) cs = Some c" "c_tailnet_id new = rid" "\<And>c. c_tailnet_id (f c) = c_tailnet_id c"
  shows "find (\<lambda>c. c_tailnet_id c = rid) (upsert_row c_tailnet_id new f cs) = Some (f c)"
proof -
  from find_SomeD [OF assms(1)] have "rid \<in> c_tailnet_id ` set cs" by (auto intro: rev_image_eqI)
  with find_update_where [where k = c_tailnet_id and f = f and a = rid and b = rid and xs = cs, OF assms(3)]
  show ?thesis unfolding upsert_row_def assms(2) by (simp add: assms(1))
qed

lemma replace_credential_credentials:
  assumes "replace_credential E s a rid revision enc ks now = Inr s'"
  shows "credential_revision s rid = revision"
    and "credentials s' = upsert_row c_tailnet_id (new_credential rid enc (revision + 1) now)
      (\<lambda>c. c\<lparr>c_encrypted := enc, c_status := ''valid'', c_error := [], c_updated_at := unix now, c_revision := revision + 1, c_refresh_seq := 0\<rparr>)
      (credentials s)"
  using assms unfolding replace_credential_def bindE_Inr_iff
  by (auto simp: failIf_Inr_iff writeAudit_def notifyPolicies_def dest!: publishIdentity_credentials)

lemma DeleteCredential_credentials:
  assumes "DeleteCredential E s a rid now = Inr s'"
  shows "credentials s' = update_where (\<lambda>c. c_tailnet_id c = rid)
      (\<lambda>c. c\<lparr>c_encrypted := [], c_status := ''missing'', c_error := [], c_revision := c_revision c + 1, c_refresh_seq := 0, c_updated_at := unix now\<rparr>)
      (credentials s)"
  using assms by (rule DeleteCredential_Inr) (auto simp: writeAudit_def notifyPolicies_def clear_credential_def dest!: rebuild_credentials)

lemma cred_op_later:
  assumes "cred_op E rid s s'" "cred_version s rid = Some v"
  shows "\<exists>v'. cred_version s' rid = Some v' \<and> later v v'"
  using assms(1)
proof (cases rule: cred_op.cases)
  case (cred_refresh x)
  obtain apiID enc revision seq where "x = (apiID, enc, revision, seq)" by (cases x)
  with cred_refresh have r: "refresh_begin s rid = Inr ((apiID, enc, revision, seq), s')" by simp
  then obtain c where c: "find_credential s rid = Some c" "seq = c_refresh_seq c + 1"
    "credentials s' = update_where (\<lambda>c. c_tailnet_id c = rid) (\<lambda>x. x\<lparr>c_refresh_seq := seq\<rparr>) (credentials s)"
    by (rule refresh_begin_Inr) simp
  from cred_version_update [OF c(3)] c(1) have "find_credential s' rid = Some (c\<lparr>c_refresh_seq := seq\<rparr>)" by simp
  from cred_version_later [OF c(1) this _ assms(2)] c(2) show ?thesis by simp
next
  case (cred_replace a revision enc ks now)
  from assms(2) obtain c where c: "find_credential s rid = Some c" by (auto simp: cred_version_def)
  note r = replace_credential_credentials [OF cred_replace]
  have "\<exists>c'. find_credential s' rid = Some c' \<and> c_revision c' = revision + 1"
    unfolding find_credential_def r(2) by (subst find_upsert_credential [OF c [unfolded find_credential_def]]) (simp_all add: new_credential_def)
  then obtain c' where "find_credential s' rid = Some c'" "c_revision c' = revision + 1" by blast
  with cred_version_later [OF c this(1) _ assms(2)] r(1) c show ?thesis by (simp add: credential_revision_def)
next
  case (cred_delete a now)
  from assms(2) obtain c where c: "find_credential s rid = Some c" by (auto simp: cred_version_def)
  from cred_version_update [OF DeleteCredential_credentials [OF cred_delete]] c
  have "\<exists>c'. find_credential s' rid = Some c' \<and> c_revision c' = c_revision c + 1" by simp
  then obtain c' where "find_credential s' rid = Some c'" "c_revision c' = c_revision c + 1" by blast
  with cred_version_later [OF c this(1) _ assms(2)] show ?thesis by simp
qed

text \<open>What may happen between the transactions of a refresh: such an operation, or one that leaves the version alone.\<close>

definition cred_change :: "env \<Rightarrow> string \<Rightarrow> store \<Rightarrow> store \<Rightarrow> bool" where
  "cred_change E rid s s' \<longleftrightarrow> cred_op E rid s s' \<or> cred_version s' rid = cred_version s rid"

lemma cred_changes_later:
  assumes "(cred_change E rid)\<^sup>*\<^sup>* s s'" "cred_version s rid = Some v"
  shows "\<exists>v'. cred_version s' rid = Some v' \<and> (v' = v \<or> later v v')"
  using assms
proof (induction rule: rtranclp_induct)
  case (step t u)
  then obtain w where w: "cred_version t rid = Some w" "w = v \<or> later v w" by blast
  with step.hyps(2) cred_op_later [of E rid t u w] show ?case unfolding cred_change_def by (metis later_trans)
qed simp

lemma later_irrefl: "\<not> later v v"
  by (cases v) simp

text \<open>C24: A refresh whose credential has been replaced or deleted, or which another refresh has overtaken, while the identity source was being asked is dropped: its second transaction is a conflict and leaves the store alone, whatever the source answered.\<close>

theorem stale_refresh_dropped:
  assumes "refresh_begin s rid = Inr ((apiID, enc, revision, seq), s1)"
    and "(cred_change E rid)\<^sup>*\<^sup>* s1 t" "cred_op E rid t t'" "(cred_change E rid)\<^sup>*\<^sup>* t' s2"
  shows "refresh_commit E s2 rid revision seq fetched now = (Inl ErrConflict, s2)"
proof -
  have "cred_version s1 rid = Some (revision, seq)"
    using assms(1) by (rule refresh_begin_Inr) (simp add: cred_version_def cred_version_update [where f = "\<lambda>x. x\<lparr>c_refresh_seq := seq\<rparr>" and s = s])
  from cred_changes_later [OF assms(2) this] obtain v where v: "cred_version t rid = Some v" "v = (revision, seq) \<or> later (revision, seq) v" by blast
  from cred_op_later [OF assms(3) v(1)] obtain v' where v': "cred_version t' rid = Some v'" "later v v'" by blast
  from cred_changes_later [OF assms(4) v'(1)] obtain w where w: "cred_version s2 rid = Some w" "w = v' \<or> later v' w" by blast
  from v(2) v'(2) w(2) have "w \<noteq> (revision, seq)" by (metis later_trans later_irrefl)
  moreover from w(1) obtain c where c: "find_credential s2 rid = Some c" "w = (c_revision c, c_refresh_seq c)" by (auto simp: cred_version_def)
  ultimately have "c_revision c \<noteq> revision \<or> c_refresh_seq c \<noteq> seq" by auto
  with c(1) show ?thesis unfolding refresh_commit_def by simp
qed

section \<open>The synchroniser\<close>

definition busy :: "(string \<rightharpoonup> schedule) \<Rightarrow> string set" where
  "busy states = {tid. case states tid of None \<Rightarrow> False | Some st \<Rightarrow> sc_busy st}"

lemma busy_update [simp]: "busy (states(tid \<mapsto> st)) = (if sc_busy st then insert tid (busy states) else busy states - {tid})"
  by (auto simp: busy_def split: if_splits)

lemma busy_prune [simp]: "busy (prune_states active states) = busy states"
  by (auto simp: busy_def prune_states_def split: option.splits)

text \<open>A poll hands over distinct tailnets that are not busy, at most as many as there are waiting workers.\<close>

definition polled :: "string set \<Rightarrow> nat \<Rightarrow> (string \<rightharpoonup> schedule) \<times> nat \<times> string list \<Rightarrow> bool" where
  "polled B ready0 p \<longleftrightarrow> (case p of (states, ready, jobs) \<Rightarrow>
     busy states = B \<union> set jobs \<and> distinct jobs \<and> B \<inter> set jobs = {} \<and> ready + length jobs = ready0)"

lemma poll_row_polled: "polled B r p \<Longrightarrow> polled B r (poll_row now row p)"
proof -
  assume pol: "polled B r p"
  obtain states ready jobs where p: "p = (states, ready, jobs)" by (cases p)
  obtain tid success where row: "row = (tid, success)" by (cases row)
  define st where "st = (case states tid of Some st \<Rightarrow> st | None \<Rightarrow> \<lparr>sc_next = unix_time success + minute, sc_failures = 0, sc_busy = False\<rparr>)"
  have b: "sc_busy st \<longleftrightarrow> tid \<in> busy states" by (simp add: st_def busy_def split: option.split)
  have "poll_row now row p = (if \<not> sc_busy st \<and> \<not> now < sc_next st \<and> 0 < ready
      then (states(tid \<mapsto> st\<lparr>sc_busy := True\<rparr>), ready - 1, jobs @ [tid]) else (states(tid \<mapsto> st), ready, jobs))"
    by (simp add: p row st_def Let_def)
  moreover have "polled B r (states(tid \<mapsto> st), ready, jobs)"
    using pol b by (auto simp: p polled_def insert_absorb)
  moreover have "polled B r (states(tid \<mapsto> st\<lparr>sc_busy := True\<rparr>), ready - 1, jobs @ [tid])" if "\<not> sc_busy st" "0 < ready"
    using pol b that by (auto simp: p polled_def)
  ultimately show ?thesis by simp
qed

lemma poll_rows_polled: "polled B r p \<Longrightarrow> polled B r (fold (poll_row now) rows p)"
  by (induction rows arbitrary: p) (simp_all add: poll_row_polled del: poll_row.simps)

lemma poll_polled:
  assumes "poll E s now ready states = Inr (states', jobs, s')"
  shows "busy states' = busy states \<union> set jobs" "distinct jobs" "busy states \<inter> set jobs = {}" "length jobs \<le> ready"
proof -
  have "polled (busy states) ready (fold (poll_row now) (sync_rows s) (states, ready, []))"
    by (rule poll_rows_polled) (simp add: polled_def)
  with assms show "busy states' = busy states \<union> set jobs" "distinct jobs" "busy states \<inter> set jobs = {}" "length jobs \<le> ready"
    by (auto simp: poll_def polled_def bindE_Inr_iff split: prod.splits)
qed

definition sync_inv :: "sync \<Rightarrow> bool" where
  "sync_inv y \<longleftrightarrow> distinct (sy_working y @ map fst (sy_results y))
     \<and> busy (sy_states y) = set (sy_working y) \<union> fst ` set (sy_results y)
     \<and> length (sy_working y) \<le> 4 \<and> length (sy_results y) \<le> 4"

lemma busy_result [simp]: "busy (sync_result now tid ok states) = busy states - {tid}"
  by (simp add: sync_result_def Let_def)

lemma sync_step_inv:
  assumes "sync_step E (y, s) (y', s')" "sync_inv y"
  shows "sync_inv y'"
  using assms(1)
proof (cases rule: sync_step.cases)
  case (sync_poll now ready states' jobs)
  with poll_polled [OF sync_poll(2)] assms(2) show ?thesis by (auto simp: sync_inv_def)
next
  case (sync_done tid ok)
  with assms(2) show ?thesis
    by (auto simp: sync_inv_def distinct_remove1 set_remove1_eq length_remove1)
next
  case (sync_receive tid ok rest now)
  with assms(2) show ?thesis by (auto simp: sync_inv_def)
qed (use assms(2) in simp)

text \<open>C25: However polls, refreshes that end, results that are received and changes of the store follow each other, the synchroniser never runs two refreshes of one tailnet at a time nor more than four at all, and the tailnets marked busy are exactly those a worker is busy with or whose result has not been received.\<close>

theorem sync_exclusive:
  assumes "(sync_step E)\<^sup>*\<^sup>* (sync_start, s) (y, s')"
  shows "distinct (sy_working y @ map fst (sy_results y)) \<and> length (sy_working y) \<le> 4
    \<and> busy (sy_states y) = set (sy_working y) \<union> fst ` set (sy_results y)"
proof -
  have "sync_inv (fst (y, s'))" using assms
  proof (induction rule: rtranclp_induct)
    case base
    show ?case by (simp add: sync_start_def sync_inv_def busy_def)
  next
    case (step a b)
    then show ?case by (metis prod.collapse sync_step_inv)
  qed
  then show ?thesis by (simp add: sync_inv_def)
qed

text \<open>The delay before the next refresh is a minute doubled with every failure in a row and capped at an hour, so it stays between a minute and an hour.\<close>

theorem identityRetryDelay_capped:
  "identityRetryDelay failures = min hour (minute * 2 ^ nat (max failures 0))
    \<and> minute \<le> identityRetryDelay failures \<and> identityRetryDelay failures \<le> hour"
proof (cases "6 < failures")
  case True
  then have "(2::int) ^ 7 \<le> 2 ^ nat (max failures 0)" by (intro power_increasing) auto
  with True show ?thesis by (simp add: identityRetryDelay_def minute_def hour_def second_def)
next
  case False
  have "(1::int) \<le> 2 ^ nat (max failures 0)" by simp
  with False show ?thesis by (auto simp: identityRetryDelay_def minute_def hour_def second_def Let_def min_def)
qed

definition sample_syncing :: store where
  "sample_syncing = sample_store\<lparr>node_policies := [], grants := [], credentials := [new_credential ''t1'' ''sealed'' 1 (unix_time 100)]\<rparr>"

lemma sample_refresh_begin:
  "refresh_begin sample_syncing ''t1'' = Inr ((''T12'', ''sealed'', 1, 1), sample_syncing\<lparr>credentials :=
     [(new_credential ''t1'' ''sealed'' 1 (unix_time 100))\<lparr>c_refresh_seq := 1\<rparr>]\<rparr>)"
  "refresh_begin (sample_syncing\<lparr>credentials := [(new_credential ''t1'' ''sealed'' 1 (unix_time 100))\<lparr>c_refresh_seq := 1\<rparr>]\<rparr>) ''t1''
   = Inr ((''T12'', ''sealed'', 1, 2), sample_syncing\<lparr>credentials :=
     [(new_credential ''t1'' ''sealed'' 1 (unix_time 100))\<lparr>c_refresh_seq := 2\<rparr>]\<rparr>)"
  by (simp_all add: refresh_begin_def sample_syncing_def sample_store_defs find_credential_def find_tailnet_def new_credential_def
      user_enabled_def update_where_def)

theorem stale_refresh_dropped_witness:
  "\<exists>s1 s2. refresh_begin sample_syncing ''t1'' = Inr ((''T12'', ''sealed'', 1, 1), s1)
    \<and> refresh_begin s1 ''t1'' = Inr ((''T12'', ''sealed'', 1, 2), s2)
    \<and> refresh_commit sample_env s2 ''t1'' 1 1 (Inr []) (unix_time 300) = (Inl ErrConflict, s2)"
  using stale_refresh_dropped [OF sample_refresh_begin(1) rtranclp.rtrancl_refl cred_refresh [OF sample_refresh_begin(2)] rtranclp.rtrancl_refl]
    sample_refresh_begin by blast

lemma sample_poll:
  "poll sample_env sample_syncing (unix_time 300) 4 Map.empty =
     Inr ([''t1'' \<mapsto> \<lparr>sc_next = unix_time 150 + minute, sc_failures = 0, sc_busy = True\<rparr>], [''t1''], sample_syncing)"
proof -
  have "sync_rows sample_syncing = [(''t1'', 150)]"
    by (simp add: sync_rows_def sync_row_def sample_syncing_def sample_store_defs find_credential_def new_credential_def
        user_enabled_def last_success_def map_filter_def)
  moreover have "refreshExpiryEvents sample_env sample_syncing (unix_time 300) = Inr sample_syncing"
    by (simp add: refreshExpiryEvents_def expired_grants_def sample_syncing_def map_filter_def)
  moreover have "prune_states {''t1''} [''t1'' \<mapsto> x] = [''t1'' \<mapsto> x]" for x by (auto simp: prune_states_def)
  ultimately show ?thesis by (simp add: poll_def Let_def unix_time_def minute_def second_def)
qed

theorem sync_exclusive_witness:
  "\<exists>y. (sync_step sample_env)\<^sup>*\<^sup>* (sync_start, sample_syncing) (y, sample_syncing) \<and> sy_working y = [''t1''] \<and> busy (sy_states y) = {''t1''}"
proof -
  let ?y = "sync_start\<lparr>sy_states := [''t1'' \<mapsto> \<lparr>sc_next = unix_time 150 + minute, sc_failures = 0, sc_busy = True\<rparr>],
    sy_working := sy_working sync_start @ [''t1'']\<rparr>"
  have "sync_step sample_env (sync_start, sample_syncing) (?y, sample_syncing)"
    by (rule sync_poll [where now = "unix_time 300" and ready = 4]) (simp_all add: sync_start_def sample_poll)
  then have r: "(sync_step sample_env)\<^sup>*\<^sup>* (sync_start, sample_syncing) (?y, sample_syncing)" by blast
  from sync_exclusive [OF r] have "busy (sy_states ?y) = {''t1''}" by (simp add: sync_start_def)
  with r show ?thesis by (intro exI [of _ ?y]) (simp add: sync_start_def)
qed

end
