(* ===== verification/ControlStream.thy ===== *)
theory ControlStream
  imports IdentitySync
begin

text \<open>
  What a registered node says to the controller and hears from it: acknowledgements of policies
  and the control stream (control_stream.go), heartbeats (policy.go) with the reports they carry
  (observability.go).
\<close>

section \<open>Acknowledgements\<close>

definition MaxControlMessageBytes :: nat where
  "MaxControlMessageBytes = MaxPolicyBytes + 512"

definition currentPolicy :: "env \<Rightarrow> store \<Rightarrow> string \<Rightarrow> policy result" where
  "currentPolicy E s rid =
     bindE (query_row (\<lambda>r. pr_node_id r = rid) (node_policies s)) (\<lambda>r.
     case pr_policy r of
       None \<Rightarrow> DecodePolicy E 0 None (clusterID s) rid
     | Some body \<Rightarrow> DecodePolicy E (body_len body) body (clusterID s) rid)"

definition nack_reasons :: "string list" where
  "nack_reasons = [''invalid_policy'', ''persist_failed'', ''apply_failed'', ''clock_rollback'']"

definition ack_ok :: "policy_ack \<Rightarrow> bool" where
  "ack_ok ack \<longleftrightarrow> ack_Revision ack \<noteq> 0 \<and> ack_Revision ack \<le> MaxInt64
     \<and> (case ack_State ack of
          AckReceived \<Rightarrow> ack_Error ack = [] \<and> \<not> ack_Usable ack
        | AckApplied \<Rightarrow> ack_Error ack = []
        | AckNack \<Rightarrow> \<not> ack_Usable ack \<and> ack_Error ack \<in> set nack_reasons
        | AckOther _ \<Rightarrow> False)"

definition live_keys :: "time \<Rightarrow> policy \<Rightarrow> bool" where
  "live_keys now p \<longleftrightarrow> list_ex (\<lambda>g. list_ex (\<lambda>k. now < EffectiveUntil g k) (gp_Keys g)) (p_Grants p)"

definition ack_received :: "store \<Rightarrow> policy_ack \<Rightarrow> policy_row \<Rightarrow> store result" where
  "ack_received s ack row =
     bindE (failIf (ack_Revision ack < pr_received_revision row) ErrConflict) (\<lambda>_.
     Inr (update_policy_row (pr_node_id row) (\<lambda>r. r\<lparr>pr_received_revision := ack_Revision ack\<rparr>) s))"

definition open_apply_failed :: "string \<Rightarrow> event_row \<Rightarrow> bool" where
  "open_apply_failed rid e \<longleftrightarrow>
     ev_resource_type e = ''node'' \<and> ev_resource_id e = rid \<and> ev_kind e = ''policy_apply_failed'' \<and> ev_resolved_at e = 0"

definition mark_applied :: "string \<Rightarrow> nat \<Rightarrow> bool \<Rightarrow> time \<Rightarrow> store \<Rightarrow> store" where
  "mark_applied rid revision usable now s =
     resolve_events (\<lambda>e. ev_resource_type e = ''node'' \<and> ev_resource_id e = rid \<and> ev_kind e = ''policy_apply_failed'') now
     (update_node rid (\<lambda>n. n\<lparr>n_state := if usable then Ready else Registered, n_last_error := []\<rparr>)
     (update_policy_row rid (\<lambda>r. r\<lparr>pr_applied_revision := revision, pr_derper_usable := usable\<rparr>) s))"

definition ack_applied :: "env \<Rightarrow> store \<Rightarrow> policy_ack \<Rightarrow> policy_row \<Rightarrow> time \<Rightarrow> store result" where
  "ack_applied E s ack row now =
     bindE (failIf (pr_received_revision row < ack_Revision ack \<or> ack_Revision ack < pr_applied_revision row) ErrConflict) (\<lambda>_.
     bindE (currentPolicy E s (pr_node_id row)) (\<lambda>p.
     Inr (mark_applied (pr_node_id row) (ack_Revision ack)
       (ack_Usable ack \<and> ack_Revision ack = pr_desired_revision row \<and> live_keys now p) now s)))"

definition ack_nack :: "store \<Rightarrow> policy_ack \<Rightarrow> policy_row \<Rightarrow> string \<Rightarrow> time \<Rightarrow> store result" where
  "ack_nack s ack row owner now =
     bindE (failIf (ack_Revision ack \<le> pr_applied_revision row \<or> ack_Revision ack < pr_received_revision row) ErrConflict) (\<lambda>_.
     let s1 = update_node (pr_node_id row) (\<lambda>n. n\<lparr>n_state := Registered,
                n_last_error := ''policy application failed: '' @ ack_Error ack\<rparr>) s
     in Inr (if list_ex (open_apply_failed (pr_node_id row)) (events s1) then s1
             else insert_event owner ''node'' (pr_node_id row) ''policy_apply_failed''
                    (''Policy application failed: '' @ ack_Error ack) now s1))"

definition AcknowledgePolicy :: "env \<Rightarrow> store \<Rightarrow> string \<Rightarrow> policy_ack \<Rightarrow> time \<Rightarrow> store result" where
  "AcknowledgePolicy E s token ack now =
     bindE (failIf (\<not> ack_ok ack) ErrInvalid) (\<lambda>_.
     bindE (nodeSession E s token now) (\<lambda>session.
     bindE (query_row (\<lambda>r. pr_node_id r = ses_NodeID session) (node_policies s)) (\<lambda>row.
     bindE (select_node s (ses_NodeID session)) (\<lambda>n.
     bindE (failIf (pr_desired_revision row < ack_Revision ack) ErrConflict) (\<lambda>_.
     case ack_State ack of
       AckReceived \<Rightarrow> ack_received s ack row
     | AckApplied \<Rightarrow> ack_applied E s ack row now
     | AckNack \<Rightarrow> ack_nack s ack row (n_owner_id n) now
     | AckOther _ \<Rightarrow> Inr s)))))"

section \<open>Heartbeats\<close>

text \<open>The report a heartbeat carries; an older one of the same instance is ignored.\<close>

definition traffic_ok :: "store \<Rightarrow> string \<Rightarrow> tailnet_traffic list \<Rightarrow> bool" where
  "traffic_ok s rid ts \<longleftrightarrow> distinct (map tt_TailnetID ts)
     \<and> list_all (\<lambda>t. tt_TailnetID t \<noteq> [] \<and> list_ex (\<lambda>g. g_node_id g = rid \<and> g_tailnet_id g = tt_TailnetID t) (grants s)) ts"

definition report_ok :: "store \<Rightarrow> string \<Rightarrow> node_report \<Rightarrow> nat \<Rightarrow> time \<Rightarrow> bool" where
  "report_ok s rid report desired now \<longleftrightarrow>
     \<not> desired < nr_Revision report \<and> nr_ObservedAt report \<noteq> zero_time
     \<and> \<not> now + 5 * second < nr_ObservedAt report \<and> length (nr_Traffic report) \<le> 4096
     \<and> traffic_ok s rid (nr_Traffic report)"

definition find_observation :: "store \<Rightarrow> string \<Rightarrow> observation_row option" where
  "find_observation s rid = find (\<lambda>x. o_node_id x = rid) (node_observations s)"

definition put_report :: "string \<Rightarrow> string \<Rightarrow> node_report \<Rightarrow> time \<Rightarrow> store \<Rightarrow> store" where
  "put_report rid instance_id report now s = s\<lparr>node_observations := upsert_row o_node_id
     \<lparr>o_node_id = rid, o_report_instance = instance_id, o_report = Some report, o_reported_at = unix now,
      o_probes = None, o_previous_report = None\<rparr>
     (\<lambda>x. x\<lparr>o_previous_report := (if o_report_instance x = instance_id then o_report x else None),
            o_report_instance := instance_id, o_report := Some report, o_reported_at := unix now\<rparr>)
     (node_observations s)\<rparr>"

definition saveNodeReport :: "store \<Rightarrow> node_session \<Rightarrow> node_report \<Rightarrow> nat \<Rightarrow> time \<Rightarrow> store result" where
  "saveNodeReport s session report desired now =
     bindE (failIf (\<not> report_ok s (ses_NodeID session) report desired now) ErrInvalid) (\<lambda>_.
     let row = find_observation s (ses_NodeID session);
         stored = put_report (ses_NodeID session) (ses_InstanceID session) report now s
     in if (case row of None \<Rightarrow> [] | Some x \<Rightarrow> o_report_instance x) = ses_InstanceID session
        then (case Option.bind row o_report of
                None \<Rightarrow> Inl (ErrMsg ''unexpected end of JSON input'')
              | Some old \<Rightarrow>
                  if nr_Revision report < nr_Revision old \<or> \<not> nr_ObservedAt old < nr_ObservedAt report then Inr s
                  else Inr stored)
        else Inr stored)"

definition beat :: "string \<Rightarrow> time \<Rightarrow> store \<Rightarrow> store" where
  "beat rid now s = (update_node rid (\<lambda>n. n\<lparr>n_lease_until := unix (now + 90 * second), n_last_heartbeat := unix now\<rparr>) s)
     \<lparr>grants := update_where (\<lambda>g. g_node_id g = rid \<and> g_state g = Active) (\<lambda>g. g\<lparr>g_last_control_success := unix now\<rparr>) (grants s)\<rparr>"

definition heartbeat_interval :: "int \<Rightarrow> int" where
  "heartbeat_interval controlSeconds = max 250 (min 30000 (wrap_int64 (controlSeconds * 1000) div 3))"

definition NodeHeartbeat :: "env \<Rightarrow> store \<Rightarrow> string \<Rightarrow> node_report option \<Rightarrow> time \<Rightarrow> (node_heartbeat \<times> store) result" where
  "NodeHeartbeat E s token report now =
     bindE (nodeSession E s token now) (\<lambda>session.
     bindE (buildPolicy E (beat (ses_NodeID session) now s) (ses_NodeID session) now) (\<lambda>(p, s1).
     bindE (case report of None \<Rightarrow> Inr s1 | Some r \<Rightarrow> saveNodeReport s1 session r (p_Revision p) now) (\<lambda>s2.
     bindE (readRetentions s2) (\<lambda>retention.
     Inr (\<lparr>hb_NodeID = ses_NodeID session, hb_LeaseUntil = now + 90 * second, hb_DesiredRevision = p_Revision p,
            hb_IntervalMillis = heartbeat_interval (rt_ControlSeconds retention)\<rparr>,
          notifyPolicy (ses_NodeID session) s2)))))"

section \<open>The control stream\<close>

datatype control_message = PolicyMessage policy | Ping

definition message_size :: "control_message \<Rightarrow> nat" where
  "message_size m = (case m of
     PolicyMessage p \<Rightarrow> json_object_len [(''type'', json_string_len ''policy''), (''policy'', policy_size p)]
   | Ping \<Rightarrow> json_object_len [(''type'', json_string_len ''ping'')])"

text \<open>
  A write: whether the stream was stopped at its three checks, and whether each call of the
  connection succeeded. The result tells whether the message went out, and whether the stream
  goes on.
\<close>

record write_io =
  io_stopped1 :: bool
  io_deadline :: bool
  io_stopped2 :: bool
  io_write :: bool
  io_flush :: bool
  io_stopped3 :: bool
  io_reset :: bool

definition write_message :: "write_io \<Rightarrow> control_message \<Rightarrow> bool \<times> bool" where
  "write_message io m =
     (if io_stopped1 io \<or> MaxControlMessageBytes < message_size m + 1 \<or> \<not> io_deadline io \<or> io_stopped2 io then (False, False)
      else if \<not> io_write io then (False, False)
      else if \<not> io_flush io \<or> io_stopped3 io then (True, False)
      else (True, io_reset io))"

text \<open>Opening: the previous stream of the node is stopped, the new one takes its place.\<close>

definition register_stream :: "string \<Rightarrow> nat \<Rightarrow> store \<Rightarrow> store" where
  "register_stream rid sid s = s\<lparr>policyStreams := delete_where (\<lambda>r. st_node r = rid) (policyStreams s)
     @ [\<lparr>st_node = rid, st_id = sid, st_changed = False\<rparr>]\<rparr>"

definition unregister_stream :: "string \<Rightarrow> nat \<Rightarrow> store \<Rightarrow> store" where
  "unregister_stream rid sid s = s\<lparr>policyStreams := delete_where (\<lambda>r. st_node r = rid \<and> st_id r = sid) (policyStreams s)\<rparr>"

text \<open>\<^verbatim>\<open>strconv.ParseUint(value, 10, 63)\<close>\<close>

definition ParseUint63 :: "string \<Rightarrow> nat option" where
  "ParseUint63 s = (if s = [] then None else
     case read_digits s 0 of None \<Rightarrow> None | Some n \<Rightarrow> if MaxInt64 < n then None else Some n)"

definition parse_applied :: "(string \<times> string list) list \<Rightarrow> nat result" where
  "parse_applied query =
     (case query of
        [] \<Rightarrow> Inr 0
      | [(k, vs)] \<Rightarrow> if k \<noteq> ''applied_revision'' \<or> length vs \<noteq> 1 then Inl ErrInvalid
          else if vs ! 0 = [] then Inr 0
          else (case ParseUint63 (vs ! 0) of None \<Rightarrow> Inl ErrInvalid | Some n \<Rightarrow> Inr n)
      | _ \<Rightarrow> Inl ErrInvalid)"

record stream =
  cs_node :: string
  cs_id :: nat
  cs_instance :: string
  cs_token :: string
  cs_last :: nat
  cs_open :: bool
  cs_sent :: "control_message list"

definition authentic :: "env \<Rightarrow> store \<Rightarrow> stream \<Rightarrow> time \<Rightarrow> bool" where
  "authentic E s st now = (case AuthenticateNode E s (cs_token st) now of
     Inl _ \<Rightarrow> False | Inr current \<Rightarrow> ses_InstanceID current = cs_instance st)"

definition deliver :: "write_io \<Rightarrow> control_message \<Rightarrow> stream \<Rightarrow> stream" where
  "deliver io m st = (case write_message io m of (out, ok) \<Rightarrow>
     st\<lparr>cs_sent := (if out then cs_sent st @ [m] else cs_sent st), cs_open := ok\<rparr>)"

definition stream_changed :: "env \<Rightarrow> store \<Rightarrow> time \<Rightarrow> write_io \<Rightarrow> stream \<Rightarrow> stream" where
  "stream_changed E s now io st =
     (case currentPolicy E s (cs_node st) of
        Inl _ \<Rightarrow> st\<lparr>cs_open := False\<rparr>
      | Inr p \<Rightarrow>
          if \<not> authentic E s st now
          then (if p_Grants p = [] then deliver io (PolicyMessage p) st else st)\<lparr>cs_open := False\<rparr>
          else if p_Revision p \<noteq> cs_last st
          then (deliver io (PolicyMessage p) st)\<lparr>cs_last := p_Revision p\<rparr>
          else st)"

definition stream_tick :: "env \<Rightarrow> store \<Rightarrow> time \<Rightarrow> write_io \<Rightarrow> stream \<Rightarrow> stream" where
  "stream_tick E s now io st =
     (if \<not> authentic E s st now then st\<lparr>cs_open := False\<rparr> else deliver io Ping st)"

text \<open>
  Opening: \<open>s\<close> is the store of the first authentication, \<open>others\<close> what happens to it between the
  registration of the stream and the reading of the policy, \<open>sid\<close> the number of the new stream,
  \<open>deadline\<close> the error of the first write deadline, if any.
  A refused request leaves the table of streams without it.
\<close>

definition open_stream ::
    "env \<Rightarrow> store \<Rightarrow> (store \<Rightarrow> store) \<Rightarrow> string \<Rightarrow> (string \<times> string list) list \<Rightarrow> nat \<Rightarrow> time \<Rightarrow> go_error option \<Rightarrow> write_io \<Rightarrow> stream result \<times> store" where
  "open_stream E s others token query sid now deadline io =
     (case bindE (AuthenticateNode E s token now) (\<lambda>session. bindE (parse_applied query) (\<lambda>n.
           case deadline of Some e \<Rightarrow> Inl e | None \<Rightarrow> Inr (session, n))) of
        Inl e \<Rightarrow> (Inl e, s)
      | Inr (session, applied) \<Rightarrow>
          let node = ses_NodeID session;
              s1 = others (register_stream node sid s);
              st = \<lparr>cs_node = node, cs_id = sid, cs_instance = ses_InstanceID session, cs_token = token, cs_last = 0, cs_open = True, cs_sent = []\<rparr>
          in case currentPolicy E s1 node of
               Inl e \<Rightarrow> (Inl e, unregister_stream node sid s1)
             | Inr p \<Rightarrow>
                 if p_Revision p < applied then (Inl ErrConflict, unregister_stream node sid s1)
                 else if \<not> authentic E s1 st now then (Inl ErrUnauthorized, unregister_stream node sid s1)
                 else (Inr ((deliver io (PolicyMessage p) st)\<lparr>cs_last := p_Revision p\<rparr>), s1))"

definition registered :: "stream \<Rightarrow> store \<Rightarrow> stream_row \<Rightarrow> bool" where
  "registered st s r \<longleftrightarrow> r \<in> set (policyStreams s) \<and> st_node r = cs_node st \<and> st_id r = cs_id st"

definition take_signal :: "stream \<Rightarrow> store \<Rightarrow> store" where
  "take_signal st s = s\<lparr>policyStreams :=
     update_where (\<lambda>r. st_node r = cs_node st \<and> st_id r = cs_id st) (\<lambda>r. r\<lparr>st_changed := False\<rparr>) (policyStreams s)\<rparr>"

text \<open>The loop of \<^verbatim>\<open>controlStream\<close>; a stream that is no longer in the table has been stopped.\<close>

inductive control_step :: "env \<Rightarrow> stream \<times> store \<Rightarrow> stream \<times> store \<Rightarrow> bool" for E where
  control_changed: "cs_open st \<Longrightarrow> registered st s r \<Longrightarrow> st_changed r
    \<Longrightarrow> control_step E (st, s) (stream_changed E s now io st, take_signal st s)"
| control_tick: "cs_open st \<Longrightarrow> control_step E (st, s) (stream_tick E s now io st, s)"
| control_stopped: "cs_open st \<Longrightarrow> \<forall>r. \<not> registered st s r \<Longrightarrow> control_step E (st, s) (st\<lparr>cs_open := False\<rparr>, s)"
| control_done: "cs_open st \<Longrightarrow> control_step E (st, s) (st\<lparr>cs_open := False\<rparr>, s)"
| control_leave: "\<not> cs_open st \<Longrightarrow> control_step E (st, s) (st, unregister_stream (cs_node st) (cs_id st) s)"
| control_other: "control_step E (st, s) (st, s')"

section \<open>Consistency\<close>

lemma currentPolicy_Inr:
  assumes "currentPolicy E s rid = Inr p"
  obtains r where "r \<in> set (node_policies s)" "pr_node_id r = rid" "pr_policy r = Some (Some p)"
proof -
  from assms obtain r where r: "query_row (\<lambda>r. pr_node_id r = rid) (node_policies s) = Inr r"
    and p: "(case pr_policy r of None \<Rightarrow> DecodePolicy E 0 None (clusterID s) rid
      | Some body \<Rightarrow> DecodePolicy E (body_len body) body (clusterID s) rid) = Inr p"
    unfolding currentPolicy_def bindE_Inr_iff by blast
  from p have "pr_policy r = Some (Some p)" by (cases "pr_policy r") (simp_all add: DecodePolicy_Inr)
  with query_row_InrD [OF r] that show thesis by blast
qed

lemma currentPolicy_revision:
  assumes "db_inv E s" "currentPolicy E s rid = Inr p"
  obtains r where "r \<in> set (node_policies s)" "pr_node_id r = rid" "p_Revision p = pr_desired_revision r"
proof -
  from assms(2) obtain r where r: "r \<in> set (node_policies s)" "pr_node_id r = rid" "pr_policy r = Some (Some p)" by (rule currentPolicy_Inr)
  with assms(1) have "policy_row_ok E (setting ''cluster_id'' s) r"
    unfolding db_inv_def policies_inv_def list_all_iff by blast
  with r(3) have "p_Revision p = pr_desired_revision r" by (auto simp: policy_row_ok_def)
  with r that show thesis by blast
qed

lemma AcknowledgePolicy_cases:
  assumes "AcknowledgePolicy E s token ack now = Inr s'"
  obtains (received) session row where "ack_ok ack" "nodeSession E s token now = Inr session" "row \<in> set (node_policies s)"
      "pr_node_id row = ses_NodeID session" "ack_Revision ack \<le> pr_desired_revision row" "pr_received_revision row \<le> ack_Revision ack"
      "ack_State ack = AckReceived" "s' = update_policy_row (pr_node_id row) (\<lambda>r. r\<lparr>pr_received_revision := ack_Revision ack\<rparr>) s"
  | (applied) session row p where "ack_ok ack" "nodeSession E s token now = Inr session" "row \<in> set (node_policies s)"
      "pr_node_id row = ses_NodeID session" "ack_Revision ack \<le> pr_received_revision row" "pr_applied_revision row \<le> ack_Revision ack"
      "ack_State ack = AckApplied" "currentPolicy E s (pr_node_id row) = Inr p"
      "s' = mark_applied (pr_node_id row) (ack_Revision ack)
        (ack_Usable ack \<and> ack_Revision ack = pr_desired_revision row \<and> live_keys now p) now s"
  | (refused) session row owner where "ack_ok ack" "nodeSession E s token now = Inr session" "row \<in> set (node_policies s)"
      "pr_node_id row = ses_NodeID session" "pr_applied_revision row < ack_Revision ack" "ack_State ack = AckNack"
      "ack_nack s ack row owner now = Inr s'"
proof -
  from assms obtain session row and n :: node_row where ok: "ack_ok ack" "nodeSession E s token now = Inr session"
    and q: "query_row (\<lambda>r. pr_node_id r = ses_NodeID session) (node_policies s) = Inr row" and le: "ack_Revision ack \<le> pr_desired_revision row"
    and act: "(case ack_State ack of AckReceived \<Rightarrow> ack_received s ack row | AckApplied \<Rightarrow> ack_applied E s ack row now
      | AckNack \<Rightarrow> ack_nack s ack row (n_owner_id n) now | AckOther _ \<Rightarrow> Inr s) = Inr s'"
    unfolding AcknowledgePolicy_def bindE_Inr_iff failIf_Inr_iff not_less not_not by blast
  note row = query_row_InrD [OF q]
  show thesis
  proof (cases "ack_State ack")
    case AckReceived
    with act have "ack_received s ack row = Inr s'" by simp
    then show ?thesis unfolding ack_received_def bindE_Inr_iff failIf_Inr_iff not_less
      using received [OF ok _ _ le _ AckReceived] row by blast
  next
    case AckApplied
    with act have "ack_applied E s ack row now = Inr s'" by simp
    then show ?thesis unfolding ack_applied_def bindE_Inr_iff failIf_Inr_iff de_Morgan_disj not_less
      using applied [OF ok _ _ _ _ AckApplied] row by blast
  next
    case AckNack
    with act have r: "ack_nack s ack row (n_owner_id n) now = Inr s'" by simp
    then have "pr_applied_revision row < ack_Revision ack"
      unfolding ack_nack_def bindE_Inr_iff failIf_Inr_iff de_Morgan_disj not_le by blast
    then show ?thesis using refused [OF ok _ _ _ AckNack r] row by blast
  next
    case (AckOther x)
    with ok(1) show ?thesis by (simp add: ack_ok_def)
  qed
qed

lemma ack_nack_Inr:
  assumes "ack_nack s ack row owner now = Inr s'"
  obtains es where "s' = (update_node (pr_node_id row) (\<lambda>n. n\<lparr>n_state := Registered,
    n_last_error := ''policy application failed: '' @ ack_Error ack\<rparr>) s)\<lparr>events := es\<rparr>"
proof -
  let ?t = "update_node (pr_node_id row) (\<lambda>n. n\<lparr>n_state := Registered, n_last_error := ''policy application failed: '' @ ack_Error ack\<rparr>) s"
  from assms have s': "s' = (if list_ex (open_apply_failed (pr_node_id row)) (events ?t) then ?t
      else insert_event owner ''node'' (pr_node_id row) ''policy_apply_failed'' (''Policy application failed: '' @ ack_Error ack) now ?t)"
    unfolding ack_nack_def bindE_Inr_iff Let_def by blast
  show thesis
  proof (cases "list_ex (open_apply_failed (pr_node_id row)) (events ?t)")
    case True
    with s' that [of "events ?t"] show ?thesis by simp
  next
    case False
    with s' show ?thesis using that unfolding insert_event_def by auto
  qed
qed

lemma node_ok_state [simp]: "node_ok (n\<lparr>n_state := st, n_last_error := e\<rparr>) = node_ok n"
  by (simp add: node_ok_def)

lemma policy_row_same: "db_inv E s \<Longrightarrow> r \<in> set (node_policies s) \<Longrightarrow> row \<in> set (node_policies s) \<Longrightarrow> pr_node_id r = pr_node_id row \<Longrightarrow> r = row"
  unfolding db_inv_def policies_inv_def by (blast dest: uniqueD)

lemma policy_row_ok_revisions:
  "policy_row_ok E cid r \<Longrightarrow> a \<le> b \<Longrightarrow> b \<le> pr_desired_revision r
    \<Longrightarrow> policy_row_ok E cid (r\<lparr>pr_received_revision := b, pr_applied_revision := a, pr_derper_usable := u\<rparr>)"
  by (simp add: policy_row_ok_def split: option.splits)

lemma mark_applied_inv:
  assumes "db_inv E s" "row \<in> set (node_policies s)" "revision \<le> pr_received_revision row"
  shows "db_inv E (mark_applied (pr_node_id row) revision usable now s)"
proof -
  have "db_inv E (update_policy_row (pr_node_id row) (\<lambda>r. r\<lparr>pr_applied_revision := revision, pr_derper_usable := usable\<rparr>) s)"
  proof (rule db_inv_update_policy_row [OF assms(1)])
    fix r
    assume r: "r \<in> set (node_policies s)" "pr_node_id r = pr_node_id row" and ok: "policy_row_ok E (setting ''cluster_id'' s) r"
    from policy_row_same [OF assms(1) r(1) assms(2) r(2)] assms(3) have "revision \<le> pr_received_revision r" by simp
    with policy_row_ok_revisions [OF ok this] ok show "policy_row_ok E (setting ''cluster_id'' s) (r\<lparr>pr_applied_revision := revision, pr_derper_usable := usable\<rparr>)"
      by (simp add: policy_row_ok_def)
  qed simp
  then show ?thesis unfolding mark_applied_def by (simp add: db_inv_update_node)
qed

lemma AcknowledgePolicy_inv [inv_intros]:
  assumes "AcknowledgePolicy E s token ack now = Inr s'" "db_inv E s"
  shows "db_inv E s'"
  using assms(1)
proof (cases rule: AcknowledgePolicy_cases)
  case (received session row)
  have "db_inv E (update_policy_row (pr_node_id row) (\<lambda>r. r\<lparr>pr_received_revision := ack_Revision ack\<rparr>) s)"
  proof (rule db_inv_update_policy_row [OF assms(2)])
    fix r
    assume r: "r \<in> set (node_policies s)" "pr_node_id r = pr_node_id row" and ok: "policy_row_ok E (setting ''cluster_id'' s) r"
    have "r = row" by (rule policy_row_same [OF assms(2) r(1) received(3) r(2)])
    with ok received(5,6) have "pr_applied_revision r \<le> ack_Revision ack" "ack_Revision ack \<le> pr_desired_revision r" by (auto simp: policy_row_ok_def)
    from policy_row_ok_revisions [OF ok this, of "pr_derper_usable r"]
    show "policy_row_ok E (setting ''cluster_id'' s) (r\<lparr>pr_received_revision := ack_Revision ack\<rparr>)" by simp
  qed simp
  with received(8) show ?thesis by simp
next
  case (applied session row p)
  from mark_applied_inv [OF assms(2) applied(3,5)] applied(9) show ?thesis by simp
next
  case (refused session row owner)
  then obtain es where "s' = (update_node (pr_node_id row) (\<lambda>n. n\<lparr>n_state := Registered,
    n_last_error := ''policy application failed: '' @ ack_Error ack\<rparr>) s)\<lparr>events := es\<rparr>" by (blast elim: ack_nack_Inr)
  then show ?thesis using assms(2) by (simp add: db_inv_update_node)
qed

lemma nodeSession_node: "nodeSession E s token now = Inr session \<Longrightarrow> ses_NodeID session \<in> node_ids s"
  by (erule nodeSession_row) (metis node_ids_def image_eqI)

lemma beat_inv: "db_inv E s \<Longrightarrow> db_inv E (beat rid now s)"
proof -
  assume "db_inv E s"
  then have "db_inv E (update_node rid (\<lambda>n. n\<lparr>n_lease_until := unix (now + 90 * second), n_last_heartbeat := unix now\<rparr>) s)"
    by (rule db_inv_update_node) (simp_all add: node_ok_def)
  from db_inv_grants_update [OF this, of "\<lambda>g. g\<lparr>g_last_control_success := unix now\<rparr>"] show ?thesis
    unfolding beat_def by (simp add: update_node_def)
qed

lemma node_ids_beat [simp]: "node_ids (beat rid now s) = node_ids s"
  unfolding beat_def by (simp add: node_ids_def update_node_def image_update_where)

lemma put_report_inv: "db_inv E s \<Longrightarrow> rid \<in> node_ids s \<Longrightarrow> db_inv E (put_report rid i report now s)"
  unfolding put_report_def by (rule db_inv_observations_upsert) simp_all

lemma saveNodeReport_cases: "saveNodeReport s session report desired now = Inr s' \<Longrightarrow>
    s' = s \<or> s' = put_report (ses_NodeID session) (ses_InstanceID session) report now s"
  unfolding saveNodeReport_def bindE_Inr_iff by (auto simp: Let_def split: option.splits if_splits)

lemma NodeHeartbeat_Inr:
  assumes "NodeHeartbeat E s token report now = Inr (hb, s')"
  obtains session p s1 s2 rt where "nodeSession E s token now = Inr session"
    "buildPolicy E (beat (ses_NodeID session) now s) (ses_NodeID session) now = Inr (p, s1)"
    "s2 = s1 \<or> (\<exists>r. s2 = put_report (ses_NodeID session) (ses_InstanceID session) r now s1)"
    "readRetentions s2 = Inr rt" "s' = notifyPolicy (ses_NodeID session) s2"
    "hb = \<lparr>hb_NodeID = ses_NodeID session, hb_LeaseUntil = now + 90 * second, hb_DesiredRevision = p_Revision p,
       hb_IntervalMillis = heartbeat_interval (rt_ControlSeconds rt)\<rparr>"
proof -
  from assms obtain session p s1 s2 rt where *: "nodeSession E s token now = Inr session"
    "buildPolicy E (beat (ses_NodeID session) now s) (ses_NodeID session) now = Inr (p, s1)"
    "(case report of None \<Rightarrow> Inr s1 | Some r \<Rightarrow> saveNodeReport s1 session r (p_Revision p) now) = Inr s2"
    "readRetentions s2 = Inr rt" "s' = notifyPolicy (ses_NodeID session) s2"
    "hb = \<lparr>hb_NodeID = ses_NodeID session, hb_LeaseUntil = now + 90 * second, hb_DesiredRevision = p_Revision p,
       hb_IntervalMillis = heartbeat_interval (rt_ControlSeconds rt)\<rparr>"
    unfolding NodeHeartbeat_def by (auto simp: bindE_Inr_iff)
  from *(3) have "s2 = s1 \<or> (\<exists>r. s2 = put_report (ses_NodeID session) (ses_InstanceID session) r now s1)"
    by (cases report) (auto dest: saveNodeReport_cases)
  with * that show thesis by blast
qed

lemma NodeHeartbeat_inv [inv_intros]:
  assumes "NodeHeartbeat E s token report now = Inr (hb, s')" "db_inv E s"
  shows "db_inv E s'"
  using assms(1)
proof (rule NodeHeartbeat_Inr)
  fix session :: node_session and p s1 s2 rt
  assume ses: "nodeSession E s token now = Inr session" and b: "buildPolicy E (beat (ses_NodeID session) now s) (ses_NodeID session) now = Inr (p, s1)"
    and s2: "s2 = s1 \<or> (\<exists>r. s2 = put_report (ses_NodeID session) (ses_InstanceID session) r now s1)"
    and s': "s' = notifyPolicy (ses_NodeID session) s2"
  have "db_inv E s1" by (rule buildPolicy_inv [OF b beat_inv [OF assms(2)]])
  moreover have "ses_NodeID session \<in> node_ids s1" using nodeSession_node [OF ses] node_ids_build [OF b] by simp
  ultimately show ?thesis using s2 by (auto simp: s' put_report_inv)
qed

section \<open>Properties\<close>

lemma readRetentions_frame:
  "readRetentions (beat rid now s) = readRetentions s" "readRetentions (put_report rid i r now s) = readRetentions s"
  by (simp_all add: beat_def update_node_def put_report_def readRetentions_def setting_def)

lemma heartbeat_interval_bounds:
  assumes "validRetentions rt"
  shows "250 \<le> heartbeat_interval (rt_ControlSeconds rt) \<and> heartbeat_interval (rt_ControlSeconds rt) \<le> 30000
    \<and> 3 * heartbeat_interval (rt_ControlSeconds rt) \<le> 1000 * rt_ControlSeconds rt"
proof -
  from assms have "0 < rt_ControlSeconds rt" "rt_ControlSeconds rt * 1000 < 2 ^ 63"
    by (simp_all add: validRetentions_def maxSeconds_def MaxInt64_def second_def)
  then have "wrap_int64 (rt_ControlSeconds rt * 1000) = rt_ControlSeconds rt * 1000" "0 < rt_ControlSeconds rt" by (auto intro: wrap_int64_id)
  then show ?thesis unfolding heartbeat_interval_def by (auto simp: min_def max_def)
qed

lemma beat_grant:
  assumes "g \<in> set (grants (beat rid now s))" "g_node_id g = rid" "g_state g = Active"
  shows "g_last_control_success g = unix now"
proof -
  have "grants (beat rid now s) = update_where (\<lambda>g. g_node_id g = rid \<and> g_state g = Active) (\<lambda>g. g\<lparr>g_last_control_success := unix now\<rparr>) (grants s)"
    by (simp add: beat_def)
  with assms(1) have "g \<in> (\<lambda>h. if g_node_id h = rid \<and> g_state h = Active then h\<lparr>g_last_control_success := unix now\<rparr> else h) ` set (grants s)"
    by (simp only: update_where_def set_map)
  then obtain h where "g = (if g_node_id h = rid \<and> g_state h = Active then h\<lparr>g_last_control_success := unix now\<rparr> else h)" by (rule imageE)
  with assms(2,3) show ?thesis by (cases "g_node_id h = rid \<and> g_state h = Active") simp_all
qed

lemma built_until:
  assumes b: "buildPolicy E (beat rid now s) rid now = Inr (p, s1)" and "gp \<in> set (p_Grants p)" "readRetentions (beat rid now s) = Inr rt"
  shows "gp_ControlUntil gp = unix_time (unix now) + rt_ControlSeconds rt * second"
proof -
  from buildPolicy_fresh(1) [OF b] buildPolicy_stored_policy [OF b] obtain c where c: "policy_content s1 rid = Inr c"
    and p: "p = c\<lparr>p_Revision := p_Revision p, p_GeneratedAt := p_GeneratedAt p\<rparr>" unfolding policy_fresh_def by blast
  have "p_Grants p = p_Grants c" by (subst p) simp
  then have "gp \<in> set (p_Grants c)" using assms(2) by simp
  from policy_content_grant [OF c this] obtain rt' all where rt': "readRetentions s1 = Inr rt'" and src: "grant_source s1 rid gp rt' all" by blast
  have "rt' = rt" using rt' assms(3) unfolding readRetentions_same [OF buildPolicy_same [OF b]] by simp
  from src [unfolded this grant_source_def] obtain g snap where g: "g \<in> set (grants s1)" "g_node_id g = rid" "g_state g = Active" and gp: "gp = grant_entry rt snap (conflictingKeys all) g"
    by blast
  have "grants s1 = grants (beat rid now s)" by (rule same_tables [OF buildPolicy_same [OF b]])
  with g have "g_last_control_success g = unix now" by (simp add: beat_grant)
  moreover have "duration_seconds (rt_ControlSeconds rt) = rt_ControlSeconds rt * second"
    using readRetentions_Inr [OF assms(3)] by (intro duration_seconds_valid) (simp_all add: validRetentions_def)
  ultimately show ?thesis by (simp add: gp grant_entry_def)
qed

text \<open>C29: A heartbeat renews the node's authority: the stored policy of the node is the one the answer names, every grant in it runs for the whole control retention from the heartbeat's second, and the interval until the next heartbeat is between a quarter of a second and half a minute and at most a third of that retention, so two heartbeats may be lost.\<close>

theorem heartbeat_renews:
  assumes "NodeHeartbeat E s token report now = Inr (hb, s')"
  shows "\<exists>rt p. readRetentions s = Inr rt \<and> stored_policy s' (hb_NodeID hb) = Some p \<and> p_Revision p = hb_DesiredRevision hb
    \<and> (\<forall>gp\<in>set (p_Grants p). gp_ControlUntil gp = unix_time (unix now) + rt_ControlSeconds rt * second)
    \<and> 250 \<le> hb_IntervalMillis hb \<and> hb_IntervalMillis hb \<le> 30000 \<and> 3 * hb_IntervalMillis hb \<le> 1000 * rt_ControlSeconds rt"
  using assms
proof (rule NodeHeartbeat_Inr)
  fix session :: node_session and p s1 s2 rt
  assume b: "buildPolicy E (beat (ses_NodeID session) now s) (ses_NodeID session) now = Inr (p, s1)"
    and s2: "s2 = s1 \<or> (\<exists>r. s2 = put_report (ses_NodeID session) (ses_InstanceID session) r now s1)"
    and rt: "readRetentions s2 = Inr rt" and s': "s' = notifyPolicy (ses_NodeID session) s2"
    and hb: "hb = \<lparr>hb_NodeID = ses_NodeID session, hb_LeaseUntil = now + 90 * second, hb_DesiredRevision = p_Revision p,
       hb_IntervalMillis = heartbeat_interval (rt_ControlSeconds rt)\<rparr>"
  from s2 rt have rt1: "readRetentions s1 = Inr rt" by (auto simp: readRetentions_frame)
  with readRetentions_same [OF buildPolicy_same [OF b]] have "readRetentions s = Inr rt" by (simp add: readRetentions_frame)
  moreover from s2 s' have st: "stored_policy s' (ses_NodeID session) = Some p"
    using buildPolicy_stored_policy [OF b] by (auto simp: put_report_def stored_policy_def)
  moreover have "gp_ControlUntil gp = unix_time (unix now) + rt_ControlSeconds rt * second" if "gp \<in> set (p_Grants p)" for gp
    by (rule built_until [OF b that]) (use rt1 readRetentions_same [OF buildPolicy_same [OF b]] in simp)
  moreover note heartbeat_interval_bounds [OF readRetentions_Inr [OF rt1]]
  ultimately show ?thesis by (simp add: hb)
qed

text \<open>What an acknowledgement does to the row of the node that sent it.\<close>

definition ack_row :: "policy_ack \<Rightarrow> bool \<Rightarrow> policy_row \<Rightarrow> policy_row" where
  "ack_row ack live r =
     (case ack_State ack of
        AckReceived \<Rightarrow> r\<lparr>pr_received_revision := ack_Revision ack\<rparr>
      | AckApplied \<Rightarrow> r\<lparr>pr_applied_revision := ack_Revision ack,
                      pr_derper_usable := (ack_Usable ack \<and> ack_Revision ack = pr_desired_revision r \<and> live)\<rparr>
      | _ \<Rightarrow> r)"

lemma update_policy_row_only:
  assumes "db_inv E s" "row \<in> set (node_policies s)" "f row = g row"
  shows "update_where (\<lambda>r. pr_node_id r = pr_node_id row) f (node_policies s) = update_where (\<lambda>r. pr_node_id r = pr_node_id row) g (node_policies s)"
  unfolding update_where_def using policy_row_same [OF assms(1) _ assms(2)] assms(3) by (auto intro!: map_cong)

text \<open>C28: Acknowledgements move a node's revisions only forward and never past the policy it was sent: an accepted one changes the row of its own node alone, keeps applied, received and desired revision in order without lowering either, and marks the node as usable only if it reports the desired revision as applied and usable and the stored policy still has a key whose deadlines have not passed.\<close>

theorem ack_forward:
  assumes "AcknowledgePolicy E s token ack now = Inr s'" and "db_inv E s"
  shows "\<exists>session row live. nodeSession E s token now = Inr session
    \<and> row \<in> set (node_policies s) \<and> pr_node_id row = ses_NodeID session
    \<and> (live \<longrightarrow> (\<exists>p. currentPolicy E s (ses_NodeID session) = Inr p \<and> live_keys now p))
    \<and> node_policies s' = update_where (\<lambda>r. pr_node_id r = ses_NodeID session) (ack_row ack live) (node_policies s)
    \<and> pr_applied_revision row \<le> pr_applied_revision (ack_row ack live row)
    \<and> pr_applied_revision (ack_row ack live row) \<le> pr_received_revision (ack_row ack live row)
    \<and> pr_received_revision row \<le> pr_received_revision (ack_row ack live row)
    \<and> pr_received_revision (ack_row ack live row) \<le> pr_desired_revision row"
proof -
  have ok: "pr_applied_revision r \<le> pr_received_revision r \<and> pr_received_revision r \<le> pr_desired_revision r" if "r \<in> set (node_policies s)" for r
    using that assms(2) unfolding db_inv_def policies_inv_def list_all_iff policy_row_ok_def by blast
  from assms(1) show ?thesis
  proof (cases rule: AcknowledgePolicy_cases)
    case (received session row)
    have "node_policies s' = update_where (\<lambda>r. pr_node_id r = pr_node_id row) (ack_row ack False) (node_policies s)"
      unfolding received(8) update_policy_row_def
      by (simp, rule update_policy_row_only [OF assms(2) received(3)]) (simp add: ack_row_def received(7))
    with received ok [OF received(3)] show ?thesis by (intro exI [of _ session] exI [of _ row] exI [of _ False]) (simp add: ack_row_def)
  next
    case (applied session row p)
    have "node_policies s' = update_where (\<lambda>r. pr_node_id r = pr_node_id row) (ack_row ack (live_keys now p)) (node_policies s)"
      unfolding applied(9) mark_applied_def resolve_events_def update_node_def update_policy_row_def
      by (simp, rule update_policy_row_only [OF assms(2) applied(3)]) (simp add: ack_row_def applied(7))
    with applied ok [OF applied(3)] show ?thesis
      by (intro exI [of _ session] exI [of _ row] exI [of _ "live_keys now p"]) (simp add: ack_row_def)
  next
    case (refused session row owner)
    from refused(7) obtain es where "s' = (update_node (pr_node_id row) (\<lambda>n. n\<lparr>n_state := Registered,
      n_last_error := ''policy application failed: '' @ ack_Error ack\<rparr>) s)\<lparr>events := es\<rparr>" by (rule ack_nack_Inr)
    then have "node_policies s' = node_policies s" by (simp add: update_node_def)
    moreover have "(if P then ack_row ack False r else r) = r" for P r by (simp add: ack_row_def refused(6))
    ultimately have "node_policies s' = update_where (\<lambda>r. pr_node_id r = ses_NodeID session) (ack_row ack False) (node_policies s)"
      by (simp add: update_where_def)
    with refused ok [OF refused(3)] show ?thesis by (intro exI [of _ session] exI [of _ row] exI [of _ False]) (simp add: ack_row_def)
  qed
qed

lemma deliver_sent: "cs_sent (deliver io m st) = cs_sent st \<or> cs_sent (deliver io m st) = cs_sent st @ [m]"
  by (simp add: deliver_def split: prod.split)


text \<open>The policies of a stream, and the stored revision of a node.\<close>

definition sent_revisions :: "stream \<Rightarrow> nat list" where
  "sent_revisions st = List.map_filter (\<lambda>m. case m of PolicyMessage p \<Rightarrow> Some (p_Revision p) | Ping \<Rightarrow> None) (cs_sent st)"

definition stored_revision :: "store \<Rightarrow> string \<Rightarrow> nat" where
  "stored_revision s rid = (case find (\<lambda>r. pr_node_id r = rid) (node_policies s) of None \<Rightarrow> 0 | Some r \<Rightarrow> pr_desired_revision r)"

definition control_run :: "env \<Rightarrow> string \<Rightarrow> stream \<times> store \<Rightarrow> stream \<times> store \<Rightarrow> bool" where
  "control_run E rid a b \<longleftrightarrow> control_step E a b \<and> db_inv E (snd b) \<and> stored_revision (snd a) rid \<le> stored_revision (snd b) rid"

definition stream_inv :: "stream \<Rightarrow> nat \<Rightarrow> bool" where
  "stream_inv st r \<longleftrightarrow> cs_last st \<le> r \<and> (\<forall>v\<in>set (sent_revisions st). v \<le> r)
     \<and> (if cs_open st then sorted_wrt (<) (sent_revisions st) \<and> (\<forall>v\<in>set (sent_revisions st). v \<le> cs_last st)
        else sorted (sent_revisions st))"

lemma sent_revisions_append [simp]:
  "sent_revisions (st\<lparr>cs_sent := cs_sent st @ [m]\<rparr>) = sent_revisions st @ (case m of PolicyMessage p \<Rightarrow> [p_Revision p] | Ping \<Rightarrow> [])"
  "sent_revisions (st\<lparr>cs_open := b\<rparr>) = sent_revisions st" "sent_revisions (st\<lparr>cs_last := n\<rparr>) = sent_revisions st"
  "sent_revisions (st\<lparr>cs_open := b, cs_sent := xs\<rparr>) = sent_revisions (st\<lparr>cs_sent := xs\<rparr>)"
  "sent_revisions (st\<lparr>cs_last := n, cs_sent := xs\<rparr>) = sent_revisions (st\<lparr>cs_sent := xs\<rparr>)"
  "sent_revisions (st\<lparr>cs_last := n, cs_open := b, cs_sent := xs\<rparr>) = sent_revisions (st\<lparr>cs_sent := xs\<rparr>)"
  by (simp_all add: sent_revisions_def map_filter_def split: control_message.split)

lemma currentPolicy_stored_revision:
  assumes "db_inv E s" "currentPolicy E s rid = Inr p"
  shows "p_Revision p = stored_revision s rid"
  using assms
proof (rule currentPolicy_revision)
  fix r assume r: "r \<in> set (node_policies s)" "pr_node_id r = rid" "p_Revision p = pr_desired_revision r"
  from assms(1) have "unique pr_node_id (node_policies s)" by (simp add: db_inv_def policies_inv_def)
  with r have "find (\<lambda>x. pr_node_id x = rid) (node_policies s) = Some r" by (intro find_Some_unique [of pr_node_id]) simp_all
  with r(3) show ?thesis by (simp add: stored_revision_def)
qed

lemma stream_inv_mono: "stream_inv st r \<Longrightarrow> r \<le> r' \<Longrightarrow> stream_inv st r'"
  unfolding stream_inv_def by (meson order.trans)

lemma stream_inv_close: "stream_inv st r \<Longrightarrow> stream_inv (st\<lparr>cs_open := False\<rparr>) r"
  by (simp add: stream_inv_def strict_sorted_iff split: if_splits)

lemma deliver_cases:
  obtains (out) ok where "deliver io m st = st\<lparr>cs_sent := cs_sent st @ [m], cs_open := ok\<rparr>" | (lost) "deliver io m st = st\<lparr>cs_open := False\<rparr>"
proof -
  obtain out ok where w: "write_message io m = (out, ok)" by (cases "write_message io m")
  then have "out \<or> \<not> ok" by (auto simp: write_message_def split: if_splits)
  with w that show thesis by (cases out) (auto simp: deliver_def)
qed

lemma deliver_policy_inv:
  assumes "stream_inv st r" "cs_open st" "p_Revision p = r"
  shows "stream_inv ((deliver io (PolicyMessage p) st)\<lparr>cs_open := False\<rparr>) r"
    and "p_Revision p \<noteq> cs_last st \<Longrightarrow> stream_inv ((deliver io (PolicyMessage p) st)\<lparr>cs_last := p_Revision p\<rparr>) r"
proof -
  from assms have st: "cs_last st \<le> r" "sorted_wrt (<) (sent_revisions st)" "\<forall>v\<in>set (sent_revisions st). v \<le> cs_last st"
    by (simp_all add: stream_inv_def)
  then have le: "\<forall>v\<in>set (sent_revisions st). v \<le> r" by fastforce
  have "sent_revisions (st\<lparr>cs_sent := cs_sent st @ [PolicyMessage p], cs_open := ok\<rparr>) = sent_revisions st @ [r]" for ok
    using assms(3) by simp
  with st le show "stream_inv ((deliver io (PolicyMessage p) st)\<lparr>cs_open := False\<rparr>) r"
    by (cases rule: deliver_cases [of io "PolicyMessage p" st]) (simp_all add: stream_inv_def sorted_append strict_sorted_iff)
  assume "p_Revision p \<noteq> cs_last st"
  with st(1) assms(3) have "cs_last st < r" by simp
  with st(3) have "\<forall>v\<in>set (sent_revisions st). v < r" by fastforce
  then show "stream_inv ((deliver io (PolicyMessage p) st)\<lparr>cs_last := p_Revision p\<rparr>) r"
    using st le assms(3) by (cases rule: deliver_cases [of io "PolicyMessage p" st])
      (simp_all add: stream_inv_def sorted_wrt_append sorted_append strict_sorted_iff)
qed

lemma deliver_ping_inv: "stream_inv st r \<Longrightarrow> cs_open st \<Longrightarrow> stream_inv (deliver io Ping st) r"
  by (cases rule: deliver_cases [of io Ping st]) (auto simp: stream_inv_def strict_sorted_iff)

lemma stored_revision_frame [simp]:
  "stored_revision (take_signal st s) rid = stored_revision s rid" "stored_revision (unregister_stream n i s) rid = stored_revision s rid"
  by (simp_all add: stored_revision_def take_signal_def unregister_stream_def)

lemma stream_changed_inv:
  assumes "db_inv E s" "cs_open st" "stream_inv st (stored_revision s (cs_node st))"
  shows "stream_inv (stream_changed E s now io st) (stored_revision s (cs_node st))"
proof (cases "currentPolicy E s (cs_node st)")
  case (Inl e)
  then show ?thesis using assms(3) by (simp add: stream_changed_def stream_inv_close)
next
  case (Inr p)
  note rev = currentPolicy_stored_revision [OF assms(1) Inr]
  from deliver_policy_inv [OF assms(3,2) rev] assms(3) show ?thesis by (simp add: Inr stream_changed_def stream_inv_close)
qed

lemma control_node: "control_step E (st, s) (st', s') \<Longrightarrow> cs_node st' = cs_node st"
  by (erule control_step.cases) (auto simp: stream_changed_def stream_tick_def deliver_def split: sum.split prod.split)

lemma control_run_inv:
  assumes "control_run E (cs_node st) (st, s) (st', s')" "db_inv E s" "stream_inv st (stored_revision s (cs_node st))"
  shows "stream_inv st' (stored_revision s' (cs_node st))"
proof -
  from assms(1) have step: "control_step E (st, s) (st', s')" and le: "stored_revision s (cs_node st) \<le> stored_revision s' (cs_node st)"
    by (simp_all add: control_run_def)
  have "stream_inv st' (stored_revision s (cs_node st))"
    using step
  proof (cases rule: control_step.cases)
    case (control_changed r now io)
    with stream_changed_inv [OF assms(2) control_changed(3) assms(3)] show ?thesis by simp
  next
    case (control_tick now io)
    with deliver_ping_inv [OF assms(3)] stream_inv_close [OF assms(3)] show ?thesis by (simp add: stream_tick_def)
  qed (use assms(3) stream_inv_close [OF assms(3)] in simp_all)
  with le show ?thesis by (rule stream_inv_mono [rotated])
qed

lemma cs_node_deliver [simp]: "cs_node (deliver io m st) = cs_node st"
  by (simp add: deliver_def split: prod.split)

lemma open_stream_Inr:
  assumes "open_stream E s others token query sid now deadline io = (Inr st, s')"
  shows "\<exists>p st0. currentPolicy E s' (cs_node st) = Inr p \<and> cs_sent st0 = [] \<and> cs_open st0
    \<and> st = (deliver io (PolicyMessage p) st0)\<lparr>cs_last := p_Revision p\<rparr>"
proof -
  from assms obtain session :: node_session and p where "currentPolicy E s' (ses_NodeID session) = Inr p"
    "st = (deliver io (PolicyMessage p) \<lparr>cs_node = ses_NodeID session, cs_id = sid, cs_instance = ses_InstanceID session, cs_token = token,
      cs_last = 0, cs_open = True, cs_sent = []\<rparr>)\<lparr>cs_last := p_Revision p\<rparr>"
    unfolding open_stream_def by (auto simp: Let_def bindE_Inr_iff split: sum.splits prod.splits if_splits option.splits)
  then show ?thesis
    by (intro exI [of _ p] exI [of _ "\<lparr>cs_node = ses_NodeID session, cs_id = sid, cs_instance = ses_InstanceID session, cs_token = token,
      cs_last = 0, cs_open = True, cs_sent = []\<rparr>"]) simp
qed


section \<open>Concrete inputs\<close>

definition sample_node_token :: string where
  "sample_node_token = replicate 64 CHR ''a''"

definition sample_node_session :: node_session where
  "sample_node_session = \<lparr>ses_ClusterID = ''c'', ses_NodeID = ''n'', ses_InstanceID = ''i'', ses_Token = [],
     ses_ExpiresAt = unix_time 3000, ses_LeaseUntil = unix_time (n_lease_until sample_node)\<rparr>"

lemma sample_authenticated:
  assumes "users s = users sample_store" "nodes s = nodes sample_store" "node_sessions s = node_sessions sample_store" "clusterID s = ''c''"
  shows "nodeSession sample_env s sample_node_token (unix_time 300) = Inr sample_node_session"
proof -
  have "hex_ok sample_node_token" "length sample_node_token = 64"
    by (simp_all add: sample_node_token_def hex_ok_def is_hex_def list_all_iff less_eq_char_def)
  with assms show ?thesis
    by (simp add: nodeSession_def live_session_def sample_store_defs sample_env_def serving_state_def user_enabled_def
        sample_node_token_def sample_node_session_def)
qed

theorem heartbeat_renews_witness:
  "\<exists>hb s'. NodeHeartbeat sample_env (sample_store\<lparr>grants := []\<rparr>) sample_node_token None (unix_time 300) = Inr (hb, s')
    \<and> hb_DesiredRevision hb = 5 \<and> hb_IntervalMillis hb \<le> 30000"
proof -
  let ?s = "sample_store\<lparr>grants := []\<rparr>"
  let ?b = "beat ''n'' (unix_time 300) ?s"
  have ses: "nodeSession sample_env ?s sample_node_token (unix_time 300) = Inr sample_node_session" by (rule sample_authenticated) (simp_all add: sample_store_def)
  obtain n where n: "nodes ?b = [n]" "n_id n = ''n''" "n_owner_id n = ''u''"
    by (simp add: beat_def update_node_def update_where_def sample_store_defs)
  have b: "buildPolicy sample_env ?b ''n'' (unix_time 300) = Inr (sample_empty, store_policy sample_empty ''n'' ?b)"
    by (rule sample_serves_nothing [where a = 4 and b = 3 and n = n])
      (use n in \<open>simp_all add: beat_def update_node_def update_where_def sample_store_def sample_policy_row_def\<close>)
  have "readRetentions (store_policy sample_empty ''n'' ?b) = readRetentions sample_store"
    using readRetentions_same [OF buildPolicy_same [OF b]] by (simp add: readRetentions_frame) (simp add: readRetentions_def setting_def)
  with ses b sample_retentions have "\<exists>hb s'. NodeHeartbeat sample_env ?s sample_node_token None (unix_time 300) = Inr (hb, s') \<and> hb_DesiredRevision hb = 5"
    by (simp add: NodeHeartbeat_def sample_node_session_def sample_empty_def sample_built_def)
  then obtain hb s' where h: "NodeHeartbeat sample_env ?s sample_node_token None (unix_time 300) = Inr (hb, s')" "hb_DesiredRevision hb = 5" by blast
  from heartbeat_renews [OF h(1)] h show ?thesis by blast
qed

definition sample_ack :: policy_ack where
  "sample_ack = \<lparr>ack_Revision = 4, ack_State = AckReceived, ack_Usable = False, ack_Error = []\<rparr>"

theorem ack_forward_witness:
  "\<exists>s' row. AcknowledgePolicy sample_env sample_store sample_node_token sample_ack (unix_time 300) = Inr s'
    \<and> row \<in> set (node_policies sample_store) \<and> pr_received_revision (ack_row sample_ack False row) \<le> pr_desired_revision row"
proof -
  have "nodeSession sample_env sample_store sample_node_token (unix_time 300) = Inr sample_node_session"
    by (rule sample_authenticated) (simp_all add: sample_store_def)
  then have "\<exists>s'. AcknowledgePolicy sample_env sample_store sample_node_token sample_ack (unix_time 300) = Inr s'"
    by (simp add: AcknowledgePolicy_def ack_ok_def sample_ack_def MaxInt64_def sample_node_session_def query_row_def select_node_def
        ack_received_def sample_store_defs)
  then obtain s' where s': "AcknowledgePolicy sample_env sample_store sample_node_token sample_ack (unix_time 300) = Inr s'" ..
  from ack_forward [OF s' sample_store_inv] obtain row live where "row \<in> set (node_policies sample_store)"
    "pr_received_revision (ack_row sample_ack live row) \<le> pr_desired_revision row" by blast
  moreover have "ack_row sample_ack live row = ack_row sample_ack False row" by (simp add: ack_row_def sample_ack_def)
  ultimately show ?thesis using s' by metis
qed

definition sample_io :: write_io where
  "sample_io = \<lparr>io_stopped1 = False, io_deadline = True, io_stopped2 = False, io_write = True, io_flush = True,
     io_stopped3 = False, io_reset = True\<rparr>"

definition sample_stream :: stream where
  "sample_stream = \<lparr>cs_node = ''n'', cs_id = 1, cs_instance = ''i'', cs_token = sample_node_token, cs_last = 5, cs_open = True, cs_sent = []\<rparr>"

lemma sample_tick:
  assumes "users s = users sample_store" "nodes s = nodes sample_store" "node_sessions s = node_sessions sample_store" "clusterID s = ''c''"
    "cs_token st = sample_node_token" "cs_instance st = ''i''"
  shows "stream_tick sample_env s (unix_time 300) sample_io st = st\<lparr>cs_sent := cs_sent st @ [Ping], cs_open := True\<rparr>"
  using sample_authenticated [OF assms(1-4)] assms(5,6)
  by (simp add: stream_tick_def authentic_def AuthenticateNode_def sample_node_session_def deliver_def write_message_def sample_io_def
      message_size_def MaxControlMessageBytes_def MaxPolicyBytes_def json_object_len_def json_string_len_def json_char_len_def less_char_def)


lemma sample_current: 
  assumes "node_policies s = node_policies (store_policy sample_built ''n'' sample_store)" "clusterID s = ''c''"
  shows "currentPolicy sample_env s ''n'' = Inr sample_built"
  using assms sample_built_valid sample_built_size
  by (simp add: currentPolicy_def store_policy_def update_policy_row_def update_where_def sample_store_defs query_row_def
      DecodePolicy_Inr body_len_def)

lemma sample_open:
  "open_stream sample_env (store_policy sample_built ''n'' sample_store) id sample_node_token [] 1 (unix_time 300) None sample_io =
     (Inr (sample_stream\<lparr>cs_sent := [PolicyMessage sample_built]\<rparr>), register_stream ''n'' 1 (store_policy sample_built ''n'' sample_store))"
proof -
  let ?s = "store_policy sample_built ''n'' sample_store"
  have eq: "users ?s = users sample_store" "nodes ?s = nodes sample_store" "node_sessions ?s = node_sessions sample_store" "clusterID ?s = ''c''"
    by (simp_all add: store_policy_def update_policy_row_def) (simp add: sample_store_def)
  note a = sample_authenticated [OF eq]
  have a': "nodeSession sample_env (register_stream ''n'' 1 ?s) sample_node_token (unix_time 300) = Inr sample_node_session"
    by (rule sample_authenticated) (simp_all add: register_stream_def eq, simp_all add: sample_store_def)
  have c: "currentPolicy sample_env (register_stream ''n'' 1 ?s) ''n'' = Inr sample_built"
    by (rule sample_current) (simp_all add: register_stream_def eq, simp_all add: sample_store_def)
  have "message_size (PolicyMessage sample_built) + 1 \<le> MaxControlMessageBytes"
    using sample_built_size by (simp add: message_size_def MaxControlMessageBytes_def json_object_len_def json_string_len_def json_char_len_def less_char_def)
  then have w: "write_message sample_io (PolicyMessage sample_built) = (True, True)"
    by (simp add: write_message_def sample_io_def)
  from a a' c w show ?thesis
    by (simp add: open_stream_def AuthenticateNode_def parse_applied_def Let_def authentic_def deliver_def sample_node_session_def sample_stream_def)
      (simp add: sample_built_def)
qed


end
