(* ===== verification/Status.thy ===== *)
theory Status
  imports ControlStream Complex_Main
begin

text \<open>
  What the console shows: the status and the summary of a node, events and the audit log
  (observability.go), the DERP map of a tailnet (derpmap.go), and the probes of a node's public
  ports (probes.go).
\<close>

section \<open>Status of a node\<close>

record grant_status =
  gs_GrantID :: string
  gs_TailnetID :: string
  gs_LastIdentitySuccess :: time
  gs_IdentityUntil :: time
  gs_ControlUntil :: time
  gs_ExplicitUntil :: time
  gs_ValidKeys :: nat

text \<open>Rates are exact quotients; the rounding of \<^verbatim>\<open>float64\<close> is left out.\<close>

record tailnet_rate =
  tr_TailnetID :: string
  tr_RX :: rat
  tr_TX :: rat
  tr_Interval :: rat

record node_status =
  nst_Node :: node
  nst_DesiredRevision :: nat
  nst_ReceivedRevision :: nat
  nst_AppliedRevision :: nat
  nst_ReportedUsable :: bool
  nst_PolicyHasLiveKeys :: bool
  nst_ControlStreamOpen :: bool
  nst_DomainVerifiedAt :: int
  nst_InstanceID :: string
  nst_Grants :: "grant_status list"
  nst_Report :: "node_report option"
  nst_ReportedAt :: int
  nst_Probes :: "node_probes option"
  nst_TrafficRates :: "tailnet_rate list"

record relay_summary =
  rs_Node :: node
  rs_Provider :: string
  rs_QoS :: qos_policy
  rs_DomainVerifiedAt :: int
  rs_Probes :: "node_probes option"

definition lease_over :: "time \<Rightarrow> int \<Rightarrow> bool" where
  "lease_over now lease \<longleftrightarrow> lease \<noteq> 0 \<and> \<not> now < unix_time lease"

text \<open>A node is summarised for everyone who is signed in, as long as it and its owner are enabled.\<close>

definition RelaySummary :: "store \<Rightarrow> actor \<Rightarrow> string \<Rightarrow> time \<Rightarrow> relay_summary result" where
  "RelaySummary s actor rid now =
     bindE (RequireOwner actor (ac_ID actor)) (\<lambda>_.
     bindE (query_row (\<lambda>n. n_id n = rid \<and> n_enabled n \<and> user_enabled s (n_owner_id n) \<and> serving_state (n_state n)) (nodes s)) (\<lambda>n.
     bindE (query_row (\<lambda>u. u_id u = n_owner_id n) (users s)) (\<lambda>u.
     bindE (query_row (\<lambda>p. pr_node_id p = rid) (node_policies s)) (\<lambda>p.
     Inr \<lparr>rs_Node = (if lease_over now (n_lease_until n) then (scanNode n)\<lparr>nd_State := Offline\<rparr> else scanNode n),
          rs_Provider = u_username u,
          rs_QoS = \<lparr>q_BudgetBPS = pr_budget_bps p, q_OwnerWeight = pr_owner_weight p, q_SharedWeight = pr_shared_weight p,
                    q_SharedMaxBPS = pr_shared_max_bps p, q_Tailnets = []\<rparr>,
          rs_DomainVerifiedAt = n_domain_verified_at n,
          rs_Probes = Option.bind (find_observation s rid) o_probes\<rparr>))))"

text \<open>The rows of the events and of the audit log are in the order of their numbers.\<close>

definition Events :: "store \<Rightarrow> actor \<Rightarrow> event_row list result" where
  "Events s actor =
     bindE (RequireOwner actor (ac_ID actor)) (\<lambda>_.
     Inr (take 200 (rev (filter (\<lambda>e. ev_owner_id e = ac_ID actor \<or> ac_Role actor = ''admin'') (events s)))))"

definition Audit :: "store \<Rightarrow> actor \<Rightarrow> (audit_row \<times> string) list result" where
  "Audit s actor =
     bindE (RequireOwner actor (ac_ID actor)) (\<lambda>_.
     Inr (map (\<lambda>a. (a, case find (\<lambda>u. u_id u = a_actor_id a) (users s) of Some u \<Rightarrow> u_username u | None \<Rightarrow> a_actor_id a))
       (take 200 (rev (filter (\<lambda>a. a_owner_id a = ac_ID actor \<or> ac_Role actor = ''admin'') (audit s))))))"

definition tailnet_of_actor :: "store \<Rightarrow> actor \<Rightarrow> string \<Rightarrow> bool" where
  "tailnet_of_actor s actor tid \<longleftrightarrow> (case find_tailnet s tid of None \<Rightarrow> False | Some t \<Rightarrow> t_owner_id t = ac_ID actor)"

definition filter_report :: "store \<Rightarrow> actor \<Rightarrow> bool \<Rightarrow> node_report \<Rightarrow> node_report" where
  "filter_report s actor owner r =
     (if owner then r
      else r\<lparr>nr_ActiveConnections := None, nr_Traffic := filter (\<lambda>t. tailnet_of_actor s actor (tt_TailnetID t)) (nr_Traffic r)\<rparr>)"

definition traffic_rate :: "rat \<Rightarrow> node_report \<Rightarrow> tailnet_traffic \<Rightarrow> tailnet_rate option" where
  "traffic_rate seconds previous t =
     (case map_of (rev (map (\<lambda>x. (tt_TailnetID x, x)) (nr_Traffic previous))) (tt_TailnetID t) of
        None \<Rightarrow> None
      | Some before \<Rightarrow>
          if tt_CounterID t \<noteq> 0 \<and> tt_CounterID t = tt_CounterID before \<and> tt_RX before \<le> tt_RX t \<and> tt_TX before \<le> tt_TX t
          then Some \<lparr>tr_TailnetID = tt_TailnetID t, tr_RX = of_nat (tt_RX t - tt_RX before) * 8 / seconds,
                     tr_TX = of_nat (tt_TX t - tt_TX before) * 8 / seconds, tr_Interval = seconds\<rparr>
          else None)"

definition traffic_rates :: "node_report \<Rightarrow> node_report option \<Rightarrow> tailnet_rate list" where
  "traffic_rates report previous =
     (case previous of
        None \<Rightarrow> []
      | Some p \<Rightarrow>
          let seconds = Fract (nr_ObservedAt report - nr_ObservedAt p) second
          in if 0 < seconds then List.map_filter (traffic_rate seconds p) (nr_Traffic report) else [])"

definition valid_keys :: "time \<Rightarrow> grant_policy \<Rightarrow> nat" where
  "valid_keys now g = length (filter (\<lambda>k. now < EffectiveUntil g k) (gp_Keys g))"

definition grant_status_of :: "time \<Rightarrow> grant_policy \<Rightarrow> grant_status" where
  "grant_status_of now g = \<lparr>gs_GrantID = gp_GrantID g, gs_TailnetID = gp_TailnetID g, gs_LastIdentitySuccess = gp_LastIdentitySuccess g,
     gs_IdentityUntil = gp_IdentityUntil g, gs_ControlUntil = gp_ControlUntil g, gs_ExplicitUntil = gp_ExplicitUntil g,
     gs_ValidKeys = valid_keys now g\<rparr>"

text \<open>The grants of the stored policy the actor may see; no body gives none.\<close>

definition status_grants :: "env \<Rightarrow> store \<Rightarrow> actor \<Rightarrow> bool \<Rightarrow> string \<Rightarrow> policy_row option \<Rightarrow> grant_policy list result" where
  "status_grants E s actor owner rid row =
     (case Option.bind row pr_policy of
        None \<Rightarrow> Inr []
      | Some body \<Rightarrow>
          bindE (DecodePolicy E (body_len body) body (clusterID s) rid) (\<lambda>p.
          Inr (filter (\<lambda>g. if owner then find_tailnet s (gp_TailnetID g) \<noteq> None else tailnet_of_actor s actor (gp_TailnetID g)) (p_Grants p))))"

definition current_observation :: "store \<Rightarrow> node_row \<Rightarrow> observation_row option" where
  "current_observation s n = find (\<lambda>x. o_node_id x = n_id n \<and> o_report_instance x = n_instance_id n) (node_observations s)"

definition shown_node :: "time \<Rightarrow> node_row \<Rightarrow> node" where
  "shown_node now n =
     (if (n_state n = Registered \<or> n_state n = Ready) \<and> lease_over now (n_lease_until n)
      then (scanNode n)\<lparr>nd_State := Offline\<rparr> else scanNode n)"

definition NodeStatus :: "env \<Rightarrow> store \<Rightarrow> actor \<Rightarrow> string \<Rightarrow> time \<Rightarrow> node_status result" where
  "NodeStatus E s actor rid now =
     bindE (RequireOwner actor (ac_ID actor)) (\<lambda>_.
     bindE (select_node s rid) (\<lambda>n.
     bindE (failIf (\<not> may_see_rules s actor rid (n_owner_id n)) ErrForbidden) (\<lambda>_.
     let owner = (RequireOwner actor (n_owner_id n) = Inr ());
         obs = current_observation s n;
         report = map_option (filter_report s actor owner) (Option.bind obs o_report);
         row = find (\<lambda>p. pr_node_id p = rid) (node_policies s)
     in bindE (status_grants E s actor owner rid row) (\<lambda>gs.
        Inr \<lparr>nst_Node = shown_node now n,
             nst_DesiredRevision = (case row of None \<Rightarrow> 0 | Some r \<Rightarrow> pr_desired_revision r),
             nst_ReceivedRevision = (case row of None \<Rightarrow> 0 | Some r \<Rightarrow> pr_received_revision r),
             nst_AppliedRevision = (case row of None \<Rightarrow> 0 | Some r \<Rightarrow> pr_applied_revision r),
             nst_ReportedUsable = (case row of None \<Rightarrow> False | Some r \<Rightarrow> pr_derper_usable r),
             nst_PolicyHasLiveKeys = list_ex (\<lambda>g. 0 < valid_keys now g) gs,
             nst_ControlStreamOpen = stream_open rid s,
             nst_DomainVerifiedAt = n_domain_verified_at n,
             nst_InstanceID = (if owner then n_instance_id n else []),
             nst_Grants = map (grant_status_of now) gs,
             nst_Report = report,
             nst_ReportedAt = (case obs of None \<Rightarrow> 0 | Some x \<Rightarrow> o_reported_at x),
             nst_Probes = Option.bind (find_observation s rid) o_probes,
             nst_TrafficRates = (case report of None \<Rightarrow> [] | Some r \<Rightarrow> traffic_rates r (Option.bind obs o_previous_report))\<rparr>))))"

section \<open>The DERP map of a tailnet\<close>

record derp_region =
  dr_RegionID :: nat
  dr_RegionCode :: string
  dr_RegionName :: string
  dr_NodeName :: string
  dr_HostName :: string
  dr_DERPPort :: int
  dr_STUNPort :: int

text \<open>The rows of the query, by region.\<close>

definition derp_row :: "store \<Rightarrow> grant_row \<Rightarrow> (node_row \<times> policy_row) option" where
  "derp_row s g =
     (case (find_node s (g_node_id g), find_tailnet s (g_tailnet_id g), find (\<lambda>p. pr_node_id p = g_node_id g) (node_policies s)) of
        (Some n, Some t, Some p) \<Rightarrow>
          if g_state g = Active \<and> n_enabled n \<and> serving_state (n_state n) \<and> user_enabled s (n_owner_id n)
             \<and> t_enabled t \<and> user_enabled s (t_owner_id t)
          then Some (n, p) else None
      | _ \<Rightarrow> None)"

definition derp_rows :: "store \<Rightarrow> string \<Rightarrow> (node_row \<times> policy_row) list" where
  "derp_rows s tid = sort_key (\<lambda>(n, _). n_region_id n) (List.map_filter (derp_row s) (filter (\<lambda>g. g_tailnet_id g = tid) (grants s)))"

definition usable_for :: "string \<Rightarrow> time \<Rightarrow> policy \<Rightarrow> bool" where
  "usable_for tid now p \<longleftrightarrow>
     list_ex (\<lambda>g. gp_TailnetID g = tid \<and> list_ex (\<lambda>k. now < EffectiveUntil g k) (gp_Keys g)) (p_Grants p)"

definition region_of :: "node_row \<Rightarrow> derp_region" where
  "region_of n =
     (let code = ''uniderp-'' @ FormatInt (int (n_region_id n))
      in \<lparr>dr_RegionID = n_region_id n, dr_RegionCode = code, dr_RegionName = n_display_name n, dr_NodeName = code @ ''a'',
          dr_HostName = n_domain n, dr_DERPPort = n_derp_port n, dr_STUNPort = n_stun_port n\<rparr>)"

definition row_policy :: "env \<Rightarrow> store \<Rightarrow> node_row \<times> policy_row \<Rightarrow> policy result" where
  "row_policy E s x =
     (case pr_policy (snd x) of
        None \<Rightarrow> DecodePolicy E 0 None (clusterID s) (n_id (fst x))
      | Some body \<Rightarrow> DecodePolicy E (body_len body) body (clusterID s) (n_id (fst x)))"

definition derp_step ::
    "env \<Rightarrow> store \<Rightarrow> string \<Rightarrow> time \<Rightarrow> node_row \<times> policy_row \<Rightarrow> (nat \<rightharpoonup> derp_region) \<Rightarrow> (nat \<rightharpoonup> derp_region) result" where
  "derp_step E s tid now x m =
     bindE (row_policy E s x) (\<lambda>p.
     let n = fst x; region = n_region_id n
     in if \<not> usable_for tid now p then Inr m
        else if region < 900 \<or> 999 < region \<or> m region \<noteq> None then Inl ErrConflict
        else Inr (m(region \<mapsto> region_of n)))"

definition BuildDERPMap :: "env \<Rightarrow> store \<Rightarrow> actor \<Rightarrow> string \<Rightarrow> time \<Rightarrow> (nat \<rightharpoonup> derp_region) result" where
  "BuildDERPMap E s actor tid now =
     bindE (tailnetOwner s actor tid) (\<lambda>_. foldE (derp_step E s tid now) (derp_rows s tid) Map.empty)"

section \<open>Probes\<close>

text \<open>
  The network is a parameter: \<open>ips\<close> what the domain resolves to, \<open>dial\<close> the address and port
  a connection ends at, \<open>fetch\<close> the status of a request, \<open>exchange\<close> what comes back for a STUN
  request with the given transaction, and \<open>parse\<close> the transaction of a STUN response.
\<close>

definition probe_url :: "string \<Rightarrow> string \<Rightarrow> string" where
  "probe_url domain port = ''https://'' @ domain @ '':'' @ port @ ''/derp/probe''"

definition probeDERP ::
    "ip_prefix list \<Rightarrow> ip_addr list option \<Rightarrow> (ip_addr \<Rightarrow> string \<Rightarrow> (ip_addr option \<times> string) option) \<Rightarrow> (ip_addr \<Rightarrow> string \<Rightarrow> nat option)
      \<Rightarrow> string \<Rightarrow> int \<Rightarrow> unit result" where
  "probeDERP allowedCIDRs ips dial fetch domain port =
     bindE (dialDomainPort allowedCIDRs ips dial ''tcp'' (Some (domain, FormatInt port)) (FormatInt port)) (\<lambda>ip.
     case fetch ip (probe_url domain (FormatInt port)) of
       None \<Rightarrow> Inl (ErrMsg ''request failed'')
     | Some status \<Rightarrow> failIf (status \<noteq> 200) (ErrMsg ''DERP probe failed''))"

fun stun_loop ::
    "ip_prefix list \<Rightarrow> (ip_addr \<Rightarrow> string \<Rightarrow> (ip_addr option \<times> string) option) \<Rightarrow> (ip_addr \<Rightarrow> string \<Rightarrow> string option)
      \<Rightarrow> (string \<Rightarrow> string option) \<Rightarrow> string \<Rightarrow> (ip_addr \<times> string) list \<Rightarrow> unit result" where
  "stun_loop allowedCIDRs dial exchange parse port [] = Inl (ErrMsg ''STUN probe failed'')"
| "stun_loop allowedCIDRs dial exchange parse port ((ip, txid) # rest) =
     (case dial ip port of
        None \<Rightarrow> stun_loop allowedCIDRs dial exchange parse port rest
      | Some (remote, remotePort) \<Rightarrow>
          if (case remote of None \<Rightarrow> True | Some r \<Rightarrow> Unmap r \<noteq> Unmap ip \<or> remotePort \<noteq> port \<or> \<not> allowed allowedCIDRs r)
          then Inl (ErrMsg ''STUN target changed'')
          else if Option.bind (exchange ip txid) parse = Some txid then Inr ()
          else stun_loop allowedCIDRs dial exchange parse port rest)"

definition probeSTUN ::
    "ip_prefix list \<Rightarrow> ip_addr list option \<Rightarrow> (ip_addr \<Rightarrow> string \<Rightarrow> (ip_addr option \<times> string) option) \<Rightarrow> (ip_addr \<Rightarrow> string \<Rightarrow> string option)
      \<Rightarrow> (string \<Rightarrow> string option) \<Rightarrow> (ip_addr \<Rightarrow> string) \<Rightarrow> string \<Rightarrow> int \<Rightarrow> unit result" where
  "probeSTUN allowedCIDRs ips dial exchange parse newTxID domain port =
     bindE (resolve allowedCIDRs domain ips) (\<lambda>as. stun_loop allowedCIDRs dial exchange parse (FormatInt port) (map (\<lambda>ip. (ip, newTxID ip)) as))"

definition probe_of :: "unit result \<Rightarrow> time \<Rightarrow> probe" where
  "probe_of r now = \<lparr>pb_State = (case r of Inl _ \<Rightarrow> ''failed'' | Inr _ \<Rightarrow> ''ok''), pb_ObservedAt = now\<rparr>"

definition probe_both :: "unit result \<Rightarrow> time \<Rightarrow> unit result \<Rightarrow> time \<Rightarrow> node_probes" where
  "probe_both derp t1 stun t2 = \<lparr>pbs_DERP = probe_of derp t1, pbs_STUN = probe_of stun t2\<rparr>"

definition put_probes :: "string \<Rightarrow> node_probes \<Rightarrow> store \<Rightarrow> store" where
  "put_probes rid probes s = s\<lparr>node_observations := upsert_row o_node_id
     \<lparr>o_node_id = rid, o_report_instance = [], o_report = None, o_reported_at = 0, o_probes = Some probes, o_previous_report = None\<rparr>
     (\<lambda>x. x\<lparr>o_probes := Some probes\<rparr>) (node_observations s)\<rparr>"

text \<open>
  \<open>s0\<close> is the store before the probe, \<open>s\<close> the one of the transaction after it; \<open>full\<close> says that
  four requests are under way, \<open>probe\<close> is \<^verbatim>\<open>probeDomain\<close>, \<open>timeout\<close> the error of the context.
\<close>

definition ProbeNode ::
    "store \<Rightarrow> store \<Rightarrow> actor \<Rightarrow> string \<Rightarrow> bool \<Rightarrow> (string \<Rightarrow> int \<Rightarrow> int \<Rightarrow> node_probes) \<Rightarrow> go_error option \<Rightarrow> time
      \<Rightarrow> (node_probes \<times> store) result" where
  "ProbeNode s0 s actor rid full probe timeout now =
     bindE (Node s0 actor rid) (\<lambda>n.
     bindE (failIf (\<not> serving_state (nd_State n)) ErrConflict) (\<lambda>_.
     bindE (failIf full ErrRateLimited) (\<lambda>_.
     bindE (case timeout of Some e \<Rightarrow> Inl e | None \<Rightarrow> Inr ()) (\<lambda>_.
     bindE (activeActor s actor) (\<lambda>_.
     bindE (select_node s rid) (\<lambda>m.
     bindE (RequireOwner actor (n_owner_id m)) (\<lambda>_.
     bindE (failIf (n_domain m \<noteq> nd_Domain n \<or> n_derp_port m \<noteq> nd_DERPPort n \<or> n_stun_port m \<noteq> nd_STUNPort n
              \<or> \<not> serving_state (n_state m)) ErrConflict) (\<lambda>_.
     let result = probe (nd_Domain n) (nd_DERPPort n) (nd_STUNPort n)
     in Inr (result, writeAudit (ac_ID actor) (n_owner_id m) ''node'' rid ''node.probe'' now (put_probes rid result s))))))))))"

section \<open>Consistency\<close>

lemma put_probes_inv: "db_inv E s \<Longrightarrow> rid \<in> node_ids s \<Longrightarrow> db_inv E (put_probes rid probes s)"
  unfolding put_probes_def by (rule db_inv_observations_upsert) simp_all

lemma ProbeNode_Inr:
  assumes "ProbeNode s0 s actor rid full probe timeout now = Inr (r, s')"
  obtains m where "activeActor s actor = Inr ()" "select_node s rid = Inr m" "may_act actor (n_owner_id m)" "serving_state (n_state m)"
    "r = probe (n_domain m) (n_derp_port m) (n_stun_port m)"
    "s' = writeAudit (ac_ID actor) (n_owner_id m) ''node'' rid ''node.probe'' now (put_probes rid r s)"
  using assms unfolding ProbeNode_def bindE_Inr_iff failIf_Inr_iff RequireOwner_Inr Let_def by (auto intro: that)

lemma ProbeNode_inv [inv_intros]:
  assumes "ProbeNode s0 s actor rid full probe timeout now = Inr (r, s')" "db_inv E s"
  shows "db_inv E s'"
  using assms(1) by (rule ProbeNode_Inr) (auto simp: assms(2) put_probes_inv dest: select_node_Inr)

section \<open>Properties\<close>

text \<open>C30: The status of a node tells a stranger nothing about others: it is refused unless the actor may act for the node's owner or owns a tailnet with a live grant on it, and in the second case it leaves out the instance and the number of connections and lists grants, traffic and rates of the actor's own tailnets only.\<close>

theorem status_private:
  assumes "NodeStatus E s actor rid now = Inr st" and "select_node s rid = Inr n" and "\<not> may_act actor (n_owner_id n)"
  shows "(\<exists>g\<in>set (grants s). g_node_id g = rid \<and> live_grant g \<and> tailnet_of_actor s actor (g_tailnet_id g))
    \<and> nst_InstanceID st = []
    \<and> (\<forall>g\<in>set (nst_Grants st). tailnet_of_actor s actor (gs_TailnetID g))
    \<and> (\<forall>r\<in>set (nst_TrafficRates st). tailnet_of_actor s actor (tr_TailnetID r))
    \<and> (\<forall>report. nst_Report st = Some report \<longrightarrow> nr_ActiveConnections report = None
        \<and> (\<forall>t\<in>set (nr_Traffic report). tailnet_of_actor s actor (tt_TailnetID t)))"
proof -
  have ro: "(RequireOwner actor (n_owner_id n) = Inr ()) = False" using assms(3) by (simp add: RequireOwner_Inr)
  obtain report gs where see: "may_see_rules s actor rid (n_owner_id n)"
    and report: "report = map_option (filter_report s actor False) (Option.bind (current_observation s n) o_report)"
    and gs: "status_grants E s actor False rid (find (\<lambda>p. pr_node_id p = rid) (node_policies s)) = Inr gs"
    and st: "nst_Report st = report" "nst_Grants st = map (grant_status_of now) gs" "nst_InstanceID st = []"
      "nst_TrafficRates st = (case report of None \<Rightarrow> [] | Some r \<Rightarrow> traffic_rates r (Option.bind (current_observation s n) o_previous_report))"
    using assms(1) unfolding NodeStatus_def assms(2) bindE_simps Let_def ro by (auto simp: bindE_Inr_iff failIf_Inr_iff)
  have "\<forall>g\<in>set gs. tailnet_of_actor s actor (gp_TailnetID g)"
    using gs by (auto simp: status_grants_def bindE_Inr_iff split: option.splits)
  then have g: "\<forall>g\<in>set (nst_Grants st). tailnet_of_actor s actor (gs_TailnetID g)" by (simp add: st grant_status_of_def)
  have r: "nr_ActiveConnections x = None \<and> (\<forall>t\<in>set (nr_Traffic x). tailnet_of_actor s actor (tt_TailnetID t))" if "report = Some x" for x
    using that report by (auto simp: filter_report_def)
  have "tr_TailnetID y \<in> tt_TailnetID ` set (nr_Traffic x)" if "y \<in> set (traffic_rates x prev)" for x y prev
    using that by (auto simp: traffic_rates_def Let_def set_map_filter traffic_rate_def split: option.splits if_splits)
  with r have "\<forall>y\<in>set (nst_TrafficRates st). tailnet_of_actor s actor (tr_TailnetID y)" by (fastforce simp: st split: option.splits)
  with see g r show ?thesis by (auto simp: st ro may_see_rules_def list_ex_iff tailnet_of_actor_def)
qed

text \<open>A row that goes into the map.\<close>

definition derp_usable :: "env \<Rightarrow> store \<Rightarrow> string \<Rightarrow> time \<Rightarrow> node_row \<times> policy_row \<Rightarrow> bool" where
  "derp_usable E s tid now x \<longleftrightarrow> (\<exists>p. row_policy E s x = Inr p \<and> usable_for tid now p)"

lemma derp_step_Inr:
  assumes "derp_step E s tid now x m = Inr m'"
  shows "m' = (if derp_usable E s tid now x then m(n_region_id (fst x) \<mapsto> region_of (fst x)) else m)"
    and "derp_usable E s tid now x \<Longrightarrow> m (n_region_id (fst x)) = None \<and> 900 \<le> n_region_id (fst x) \<and> n_region_id (fst x) \<le> 999"
  using assms by (auto simp: derp_step_def derp_usable_def bindE_Inr_iff Let_def split: if_splits)

lemma derp_fold:
  assumes "foldE (derp_step E s tid now) xs m = Inr m'"
  shows "m' r = Some reg \<longleftrightarrow> m r = Some reg \<or> (\<exists>x\<in>set xs. derp_usable E s tid now x \<and> n_region_id (fst x) = r \<and> reg = region_of (fst x))"
    and "\<forall>x\<in>set xs. derp_usable E s tid now x \<longrightarrow> m (n_region_id (fst x)) = None \<and> 900 \<le> n_region_id (fst x) \<and> n_region_id (fst x) \<le> 999"
proof -
  have "(m' r = Some reg \<longleftrightarrow> m r = Some reg \<or> (\<exists>x\<in>set xs. derp_usable E s tid now x \<and> n_region_id (fst x) = r \<and> reg = region_of (fst x)))
    \<and> (\<forall>x\<in>set xs. derp_usable E s tid now x \<longrightarrow> m (n_region_id (fst x)) = None \<and> 900 \<le> n_region_id (fst x) \<and> n_region_id (fst x) \<le> 999)"
    using assms
  proof (induction xs arbitrary: m)
    case (Cons x xs)
    then obtain m1 where m1: "derp_step E s tid now x m = Inr m1" and rest: "foldE (derp_step E s tid now) xs m1 = Inr m'" by (auto simp: bindE_Inr_iff)
    note ih = Cons.IH [OF rest]
    show ?case
    proof (cases "derp_usable E s tid now x")
      case True
      then have "m1 = m(n_region_id (fst x) \<mapsto> region_of (fst x))" "m (n_region_id (fst x)) = None"
        "900 \<le> n_region_id (fst x)" "n_region_id (fst x) \<le> 999" using derp_step_Inr [OF m1] by auto
      with ih True show ?thesis by (auto split: if_splits)
    next
      case False
      with derp_step_Inr(1) [OF m1] ih show ?thesis by auto
    qed
  qed simp
  then show "m' r = Some reg \<longleftrightarrow> m r = Some reg \<or> (\<exists>x\<in>set xs. derp_usable E s tid now x \<and> n_region_id (fst x) = r \<and> reg = region_of (fst x))"
    and "\<forall>x\<in>set xs. derp_usable E s tid now x \<longrightarrow> m (n_region_id (fst x)) = None \<and> 900 \<le> n_region_id (fst x) \<and> n_region_id (fst x) \<le> 999"
    by blast+
qed

lemma row_policy_Inr: "row_policy E s x = Inr p \<longleftrightarrow> pr_policy (snd x) = Some (Some p) \<and> policy_size p \<le> MaxPolicyBytes \<and> policy_valid E p (clusterID s) (n_id (fst x))"
  by (auto simp: row_policy_def DecodePolicy_Inr body_len_def split: option.splits)

text \<open>C31: The DERP map of a tailnet lists exactly the nodes that will relay for it: a region is in it when, and only when, it is that of an enabled, registered node whose owner is enabled, that has an active grant for the enabled tailnet, and whose stored policy grants the tailnet a key with a deadline ahead. Its entry is the domain and ports of that node, and its number is from 900 to 999.\<close>

theorem derpmap_exact:
  assumes "BuildDERPMap E s actor tid now = Inr m"
  shows "(m r = Some reg \<longleftrightarrow> (\<exists>g n t row p. g \<in> set (grants s) \<and> g_tailnet_id g = tid \<and> g_state g = Active
      \<and> find_node s (g_node_id g) = Some n \<and> n_enabled n \<and> serving_state (n_state n) \<and> user_enabled s (n_owner_id n)
      \<and> find_tailnet s tid = Some t \<and> t_enabled t \<and> user_enabled s (t_owner_id t)
      \<and> find (\<lambda>p. pr_node_id p = g_node_id g) (node_policies s) = Some row \<and> row_policy E s (n, row) = Inr p
      \<and> usable_for tid now p \<and> n_region_id n = r \<and> reg = region_of n))
    \<and> (m r = Some reg \<longrightarrow> 900 \<le> r \<and> r \<le> 999 \<and> dr_RegionID reg = r)"
proof -
  from assms have f: "foldE (derp_step E s tid now) (derp_rows s tid) Map.empty = Inr m"
    by (auto simp: BuildDERPMap_def bindE_Inr_iff)
  have rows: "x \<in> set (derp_rows s tid) \<longleftrightarrow> (\<exists>g\<in>set (grants s). g_tailnet_id g = tid \<and> derp_row s g = Some x)" for x
    by (auto simp: derp_rows_def set_map_filter)
  have row: "derp_row s g = Some x \<longleftrightarrow> g_state g = Active \<and> find_node s (g_node_id g) = Some (fst x) \<and> n_enabled (fst x)
      \<and> serving_state (n_state (fst x)) \<and> user_enabled s (n_owner_id (fst x))
      \<and> (\<exists>t. find_tailnet s (g_tailnet_id g) = Some t \<and> t_enabled t \<and> user_enabled s (t_owner_id t))
      \<and> find (\<lambda>p. pr_node_id p = g_node_id g) (node_policies s) = Some (snd x)" for g x
    by (cases x) (auto simp: derp_row_def split: option.splits)
  have "m r = Some reg \<longleftrightarrow> (\<exists>g n t row p. g \<in> set (grants s) \<and> g_tailnet_id g = tid \<and> g_state g = Active
      \<and> find_node s (g_node_id g) = Some n \<and> n_enabled n \<and> serving_state (n_state n) \<and> user_enabled s (n_owner_id n)
      \<and> find_tailnet s tid = Some t \<and> t_enabled t \<and> user_enabled s (t_owner_id t)
      \<and> find (\<lambda>p. pr_node_id p = g_node_id g) (node_policies s) = Some row \<and> row_policy E s (n, row) = Inr p
      \<and> usable_for tid now p \<and> n_region_id n = r \<and> reg = region_of n)"
    unfolding derp_fold(1) [OF f] rows row derp_usable_def Bex_def split_paired_Ex fst_conv snd_conv by auto
  moreover have "m r = Some reg \<longrightarrow> 900 \<le> r \<and> r \<le> 999 \<and> dr_RegionID reg = r"
    using derp_fold(2) [OF f] unfolding derp_fold(1) [OF f] by (auto simp: region_of_def Let_def)
  ultimately show ?thesis ..
qed

section \<open>Concrete inputs\<close>

definition sample_guest :: actor where
  "sample_guest = \<lparr>ac_ID = ''v'', ac_Username = ''bob'', ac_Role = ''member'', ac_Enabled = True\<rparr>"

definition sample_shared :: store where
  "sample_shared = sample_store\<lparr>node_policies := [], tailnets := map (\<lambda>t. t\<lparr>t_owner_id := ''v''\<rparr>) (tailnets sample_store)\<rparr>"

theorem status_private_witness:
  "\<exists>st. NodeStatus sample_env sample_shared sample_guest ''n'' (unix_time 300) = Inr st \<and> nst_InstanceID st = []
    \<and> (\<forall>g\<in>set (nst_Grants st). tailnet_of_actor sample_shared sample_guest (gs_TailnetID g))"
proof -
  have n: "select_node sample_shared ''n'' = Inr sample_node" by (simp add: select_node_def query_row_def sample_shared_def sample_store_defs)
  have a: "\<not> may_act sample_guest (n_owner_id sample_node)" by (simp add: may_act_def sample_guest_def sample_node_def)
  have "\<exists>st. NodeStatus sample_env sample_shared sample_guest ''n'' (unix_time 300) = Inr st"
    using n by (simp add: NodeStatus_def RequireOwner_def failIf_def sample_guest_def may_see_rules_def live_grant_def sample_shared_def
        sample_store_defs find_tailnet_def status_grants_def Let_def)
  then obtain st where st: "NodeStatus sample_env sample_shared sample_guest ''n'' (unix_time 300) = Inr st" ..
  from status_private [OF st n a] st show ?thesis by blast
qed

definition sample_host :: actor where
  "sample_host = \<lparr>ac_ID = ''u'', ac_Username = ''ann'', ac_Role = ''provider'', ac_Enabled = True\<rparr>"

lemma sample_derp_rows:
  "\<exists>row. derp_rows (store_policy sample_built ''n'' sample_store) ''t1'' = [(sample_node, row)]
    \<and> row_policy sample_env (store_policy sample_built ''n'' sample_store) (sample_node, row) = Inr sample_built"
proof -
  have "clusterID (store_policy sample_built ''n'' sample_store) = ''c''" by (simp, simp add: sample_store_def)
  then show ?thesis using sample_built_valid sample_built_size unfolding row_policy_Inr
    by (simp add: derp_rows_def derp_row_def store_policy_def update_policy_row_def update_where_def sample_store_defs map_filter_simps
        find_node_def find_tailnet_def user_enabled_def serving_state_def)
qed

lemma sample_usable: "usable_for ''t1'' (unix_time 300) sample_built"
  by (simp add: usable_for_def sample_built_def sample_built_grant_def EffectiveUntil_def unix_time_def zero_time_def second_def)

theorem derpmap_exact_witness:
  "\<exists>m. BuildDERPMap sample_env (store_policy sample_built ''n'' sample_store) sample_host ''t1'' (unix_time 300) = Inr m
    \<and> m 900 = Some (region_of sample_node)"
proof -
  let ?s = "store_policy sample_built ''n'' sample_store"
  obtain row where row: "derp_rows ?s ''t1'' = [(sample_node, row)]" "row_policy sample_env ?s (sample_node, row) = Inr sample_built"
    using sample_derp_rows by blast
  have "tailnetOwner ?s sample_host ''t1'' = Inr ''u''"
    by (simp add: tailnetOwner_def activeActor_def query_row_def RequireOwner_def failIf_def sample_host_def store_policy_def
        update_policy_row_def sample_store_defs)
  with row sample_usable obtain m where m: "BuildDERPMap sample_env ?s sample_host ''t1'' (unix_time 300) = Inr m" "m 900 = Some (region_of sample_node)"
    by (simp add: BuildDERPMap_def derp_step_def Let_def sample_node_def)
  from derpmap_exact [OF m(1), of 900 "region_of sample_node"] m show ?thesis by blast
qed

end
