(* ===== verification/NetText.thy ===== *)
theory NetText
  imports Domain
begin

text \<open>
  The parts of Go's standard library that read addresses and paths: \<^verbatim>\<open>net.SplitHostPort\<close>,
  \<^verbatim>\<open>net.ParseIP\<close>, \<^verbatim>\<open>netip.ParsePrefix\<close>, \<^verbatim>\<open>strconv.ParseUint\<close> with a bit size, and
  \<^verbatim>\<open>filepath.Join\<close> on slash-separated paths.
\<close>

section \<open>Numbers\<close>

definition ParseUint :: "string \<Rightarrow> nat \<Rightarrow> nat option" where
  "ParseUint s bits = (if s = [] then None
     else case read_digits s 0 of None \<Rightarrow> None | Some n \<Rightarrow> if 2 ^ bits \<le> n then None else Some n)"

section \<open>Host and port\<close>

definition index_of :: "char \<Rightarrow> string \<Rightarrow> nat option" where
  "index_of c s = find (\<lambda>i. s ! i = c) [0..<length s]"

definition last_index_of :: "char \<Rightarrow> string \<Rightarrow> nat option" where
  "last_index_of c s = find (\<lambda>i. s ! i = c) (rev [0..<length s])"

definition SplitHostPort :: "string \<Rightarrow> (string \<times> string) option" where
  "SplitHostPort hostport =
     (case last_index_of CHR '':'' hostport of
        None \<Rightarrow> None
      | Some i \<Rightarrow>
          let port = drop (i + 1) hostport
          in if hd hostport = CHR ''[''
             then (case index_of CHR '']'' hostport of
                     None \<Rightarrow> None
                   | Some e \<Rightarrow>
                       if e + 1 \<noteq> i \<or> CHR ''['' \<in> set (drop 1 hostport) \<or> CHR '']'' \<in> set (drop (e + 1) hostport)
                       then None else Some (take (e - 1) (drop 1 hostport), port))
             else if CHR '':'' \<in> set (take i hostport) \<or> CHR ''['' \<in> set hostport \<or> CHR '']'' \<in> set hostport
             then None else Some (take i hostport, port))"

text \<open>The host a caller gets when it ignores the error.\<close>

definition host_of :: "string \<Rightarrow> string" where
  "host_of a = (case SplitHostPort a of None \<Rightarrow> [] | Some (h, _) \<Rightarrow> h)"

definition port_of :: "string \<Rightarrow> string" where
  "port_of a = (case SplitHostPort a of None \<Rightarrow> [] | Some (_, p) \<Rightarrow> p)"

text \<open>\<^verbatim>\<open>strconv.ParseUint(port, 10, 16)\<close> with the error ignored: out of range gives the largest value.\<close>

definition port_number :: "string \<Rightarrow> nat" where
  "port_number port = (if port = [] then 0
     else case read_digits port 0 of None \<Rightarrow> 0 | Some n \<Rightarrow> min n 65535)"

section \<open>Addresses\<close>

definition parse_ipv4 :: "string \<Rightarrow> nat option" where
  "parse_ipv4 s = (if is_ipv4 s
     then Some (foldl (\<lambda>a f. a * 256 + the (read_digits f 0)) 0 (split_at CHR ''.'' s)) else None)"

definition hex_digit :: "char \<Rightarrow> nat option" where
  "hex_digit c =
     (let n = of_char c :: nat
      in if 48 \<le> n \<and> n \<le> 57 then Some (n - 48)
         else if 97 \<le> n \<and> n \<le> 102 then Some (n - 87)
         else if 65 \<le> n \<and> n \<le> 70 then Some (n - 55) else None)"

fun read_hex :: "string \<Rightarrow> nat \<Rightarrow> nat option" where
  "read_hex [] acc = Some acc"
| "read_hex (c # cs) acc = (case hex_digit c of None \<Rightarrow> None | Some d \<Rightarrow> read_hex cs (16 * acc + d))"

definition hex_group :: "string \<Rightarrow> nat option" where
  "hex_group g = (if g = [] \<or> 4 < length g then None else read_hex g 0)"

text \<open>The groups of one side of \<^verbatim>\<open>::\<close>; an IPv4 address may stand for the last two of the whole.\<close>

fun hex_groups :: "bool \<Rightarrow> string list \<Rightarrow> nat list option" where
  "hex_groups v4 [] = Some []"
| "hex_groups v4 [g] =
     (if v4 \<and> CHR ''.'' \<in> set g
      then map_option (\<lambda>w. [w div 65536, w mod 65536]) (parse_ipv4 g)
      else map_option (\<lambda>n. [n]) (hex_group g))"
| "hex_groups v4 (g # gs) =
     (case (hex_group g, hex_groups v4 gs) of (Some n, Some ns) \<Rightarrow> Some (n # ns) | _ \<Rightarrow> None)"

definition colon_parts :: "string \<Rightarrow> string list" where
  "colon_parts s = (if s = [] then [] else split_at CHR '':'' s)"

text \<open>The first \<^verbatim>\<open>::\<close>.\<close>

definition ellipsis :: "string \<Rightarrow> nat option" where
  "ellipsis s = find (\<lambda>i. s ! i = CHR '':'' \<and> s ! (i + 1) = CHR '':'') [0..<length s - 1]"

definition parse_ipv6 :: "string \<Rightarrow> nat option" where
  "parse_ipv6 s =
     (let groups = (case ellipsis s of
          None \<Rightarrow> (case hex_groups True (colon_parts s) of
              None \<Rightarrow> None | Some gs \<Rightarrow> if length gs = 8 then Some gs else None)
        | Some i \<Rightarrow> (case (hex_groups False (colon_parts (take i s)), hex_groups True (colon_parts (drop (i + 2) s))) of
              (Some l, Some r) \<Rightarrow> if length l + length r < 8 then Some (l @ replicate (8 - length l - length r) 0 @ r) else None
            | _ \<Rightarrow> None))
      in map_option (foldl (\<lambda>a g. a * 65536 + g) 0) groups)"

text \<open>\<^verbatim>\<open>net.ParseIP\<close>: what the first separator is decides; a zone is refused. Addresses are unmapped.\<close>

definition ParseIP :: "string \<Rightarrow> ip_addr option" where
  "ParseIP s =
     (case find (\<lambda>c. c = CHR ''.'' \<or> c = CHR '':'' \<or> c = CHR ''%'') s of
        None \<Rightarrow> None
      | Some c \<Rightarrow>
          if c = CHR ''.'' then map_option (\<lambda>n. V4 (of_nat n)) (parse_ipv4 s)
          else if c = CHR '':'' then map_option (\<lambda>n. Unmap (V6 (of_nat n) [])) (parse_ipv6 s)
          else None)"

text \<open>\<^verbatim>\<open>netip.ParsePrefix\<close>: no zone, no leading zero in the length.\<close>

definition ParsePrefix :: "string \<Rightarrow> ip_prefix option" where
  "ParsePrefix s =
     (case last_index_of CHR ''/'' s of
        None \<Rightarrow> None
      | Some i \<Rightarrow>
          let a = take i s; bits = drop (i + 1) s
          in if 1 < length bits \<and> \<not> (CHR ''1'' \<le> hd bits \<and> hd bits \<le> CHR ''9'') then None
             else case ParseUint bits 32 of
               None \<Rightarrow> None
             | Some b \<Rightarrow>
                 (case find (\<lambda>c. c = CHR ''.'' \<or> c = CHR '':'' \<or> c = CHR ''%'') a of
                    None \<Rightarrow> None
                  | Some c \<Rightarrow>
                      if c = CHR ''.'' then (case parse_ipv4 a of None \<Rightarrow> None | Some n \<Rightarrow> if b \<le> 32 then Some (P4 (of_nat n) b) else None)
                      else if c = CHR '':'' then (case parse_ipv6 a of None \<Rightarrow> None | Some n \<Rightarrow> if b \<le> 128 then Some (P6 (of_nat n) b) else None)
                      else None))"

section \<open>Paths\<close>

definition clean_part :: "bool \<Rightarrow> string \<Rightarrow> string list \<Rightarrow> string list" where
  "clean_part rooted p stack =
     (if p = [] \<or> p = ''.'' then stack
      else if p = ''..''
      then (case stack of
              [] \<Rightarrow> if rooted then [] else [p]
            | q # qs \<Rightarrow> if q = ''..'' then p # stack else qs)
      else p # stack)"

definition Clean :: "string \<Rightarrow> string" where
  "Clean path =
     (if path = [] then ''.''
      else let rooted = (hd path = CHR ''/'');
               parts = rev (fold (clean_part rooted) (split_at CHR ''/'' path) []);
               body = join_at CHR ''/'' parts
           in if rooted then CHR ''/'' # body else if parts = [] then ''.'' else body)"

definition Join :: "string \<Rightarrow> string \<Rightarrow> string" where
  "Join a b = (if a = [] then if b = [] then [] else Clean b else Clean (a @ ''/'' @ b))"

lemma SplitHostPort_simple:
  assumes "CHR '':'' \<notin> set h" "CHR ''['' \<notin> set h" "CHR '']'' \<notin> set h" "CHR '':'' \<notin> set p" "CHR ''['' \<notin> set p" "CHR '']'' \<notin> set p"
  shows "SplitHostPort (h @ '':'' @ p) = Some (h, p)"
proof -
  let ?s = "h @ '':'' @ p"
  have "find (\<lambda>i. ?s ! i = CHR '':'') (rev [Suc (length h)..<length ?s]) = None"
    using assms(4) by (auto simp: find_None_iff nth_append nth_Cons' in_set_conv_nth)
  moreover have "[0..<length ?s] = [0..<length h] @ length h # [Suc (length h)..<length ?s]"
    using upt_add_eq_append [of 0 "length h" "length ?s - length h"] upt_conv_Cons [of "length h" "length ?s"] by (simp del: upt_Suc)
  ultimately have "last_index_of CHR '':'' ?s = Some (length h)"
    unfolding last_index_of_def by (simp add: find_append del: upt_Suc)
  moreover have "hd ?s \<noteq> CHR ''[''" using assms(2) by (cases h) auto
  ultimately show ?thesis using assms by (simp add: SplitHostPort_def Let_def)
qed

end
