(* ===== verification/Config.thy ===== *)
theory Config
  imports NetText
begin

text \<open>
  The configuration file (config.go): its data, the defaults, the checks, and the reading of
  the document. The YAML library is a parameter: a document is a tree of nodes, and decoding a
  tree into a configuration is a function of the caller.
\<close>

section \<open>The configuration\<close>

record controller_config =
  cc_Enabled :: bool
  cc_Listen :: string
  cc_Database :: string
  cc_KeyFile :: string
  cc_AllowedNodeCIDRs :: "string list"

record node_config =
  nc_DERPPort :: int
  nc_STUNPort :: int
  nc_ControllerURL :: string
  nc_StateDir :: string
  nc_MaxBudgetBPS :: nat

record derp_config =
  dc_Listen :: string
  dc_STUNListen :: string
  dc_TLSMode :: string
  dc_CertMode :: string
  dc_CertDir :: string

record server_config =
  sc_Management :: string
  sc_Hostname :: string
  sc_DERP :: derp_config
  sc_AdminSocket :: string
  sc_HealthListen :: string

record config =
  cf_SetupRequired :: bool
  cf_Controller :: "controller_config option"
  cf_Node :: node_config
  cf_Version :: int
  cf_Server :: server_config
  cf_StateDir :: string
  cf_LoggingLevel :: string

definition zero_config :: config where
  "zero_config = \<lparr>cf_SetupRequired = False, cf_Controller = None,
     cf_Node = \<lparr>nc_DERPPort = 0, nc_STUNPort = 0, nc_ControllerURL = [], nc_StateDir = [], nc_MaxBudgetBPS = 0\<rparr>,
     cf_Version = 0,
     cf_Server = \<lparr>sc_Management = [], sc_Hostname = [],
       sc_DERP = \<lparr>dc_Listen = [], dc_STUNListen = [], dc_TLSMode = [], dc_CertMode = [], dc_CertDir = []\<rparr>,
       sc_AdminSocket = [], sc_HealthListen = []\<rparr>,
     cf_StateDir = [], cf_LoggingLevel = []\<rparr>"

definition CurrentVersion :: int where
  "CurrentVersion = 2"

section \<open>Defaults\<close>

definition or_default :: "string \<Rightarrow> string \<Rightarrow> string" where
  "or_default v d = (if v = [] then d else v)"

definition normalize_derp :: "derp_config \<Rightarrow> derp_config" where
  "normalize_derp d =
     (let mode = or_default (dc_TLSMode d) ''external''
      in d\<lparr>dc_Listen := or_default (dc_Listen d) '':3377'', dc_STUNListen := or_default (dc_STUNListen d) '':3478'',
           dc_TLSMode := mode,
           dc_CertMode := (if dc_CertMode d = [] \<and> mode = ''external'' then ''none'' else dc_CertMode d)\<rparr>)"

definition normalize_server :: "server_config \<Rightarrow> server_config" where
  "normalize_server s = s\<lparr>sc_DERP := normalize_derp (sc_DERP s),
     sc_AdminSocket := or_default (sc_AdminSocket s) ''/run/uniderp/admin.sock'',
     sc_HealthListen := or_default (sc_HealthListen s) ''127.0.0.1:9090''\<rparr>"

definition normalize_controller :: "string \<Rightarrow> controller_config option \<Rightarrow> controller_config" where
  "normalize_controller state c =
     (let cc = (case c of Some cc \<Rightarrow> cc
                | None \<Rightarrow> \<lparr>cc_Enabled = True, cc_Listen = [], cc_Database = [], cc_KeyFile = [], cc_AllowedNodeCIDRs = []\<rparr>)
      in if cc_Enabled cc
         then cc\<lparr>cc_Listen := or_default (cc_Listen cc) ''127.0.0.1:3341'',
                 cc_Database := or_default (cc_Database cc) (Join state ''controller.sqlite''),
                 cc_KeyFile := or_default (cc_KeyFile cc) (Join state ''controller.key'')\<rparr>
         else cc)"

definition normalize_node :: "string \<Rightarrow> node_config \<Rightarrow> node_config" where
  "normalize_node state n = n\<lparr>nc_StateDir := or_default (nc_StateDir n) (Join state ''node''),
     nc_DERPPort := (if nc_DERPPort n = 0 then 443 else nc_DERPPort n),
     nc_STUNPort := (if nc_STUNPort n = 0 then 3478 else nc_STUNPort n)\<rparr>"

definition Normalize :: "config \<Rightarrow> config" where
  "Normalize c =
     (let state = or_default (cf_StateDir c) ''/data''
      in c\<lparr>cf_Version := (if cf_Version c = 0 then CurrentVersion else cf_Version c),
           cf_Server := normalize_server (cf_Server c), cf_StateDir := state,
           cf_Controller := Some (normalize_controller state (cf_Controller c)),
           cf_Node := normalize_node state (cf_Node c),
           cf_LoggingLevel := or_default (cf_LoggingLevel c) ''info''\<rparr>)"

definition Default :: config where
  "Default = Normalize (zero_config\<lparr>cf_Version := CurrentVersion\<rparr>)"

section \<open>Checks\<close>

definition validateListenAddress :: "string \<Rightarrow> string \<Rightarrow> unit result" where
  "validateListenAddress address field =
     bindE (failIf (TrimSpace address = []) (ErrMsg (field @ '' must not be empty''))) (\<lambda>_.
     case SplitHostPort address of
       None \<Rightarrow> Inl (ErrMsg (field @ '': invalid listen address''))
     | Some (host, port) \<Rightarrow>
         if port = [] then Inl (ErrMsg (field @ '': port is empty''))
         else if host \<noteq> [] \<and> host \<noteq> ''0.0.0.0'' \<and> host \<noteq> ''::'' \<and> ParseIP host = None
         then Inl (ErrMsg (field @ '': host must be an IP address or empty''))
         else if ParseUint port 16 = None \<or> ParseUint port 16 = Some 0
         then Inl (ErrMsg (field @ '': port must be a non-zero numeric value''))
         else Inr ())"

definition is_letter_digit :: "char \<Rightarrow> bool" where
  "is_letter_digit c \<longleftrightarrow> CHR ''0'' \<le> c \<and> c \<le> CHR ''9'' \<or> CHR ''A'' \<le> c \<and> c \<le> CHR ''Z'' \<or> CHR ''a'' \<le> c \<and> c \<le> CHR ''z''"

text \<open>The expression \<^verbatim>\<open>^[A-Za-z0-9](?:[A-Za-z0-9-]{0,61}[A-Za-z0-9])?$\<close>.\<close>

definition hostnameLabel :: "string \<Rightarrow> bool" where
  "hostnameLabel l \<longleftrightarrow> l \<noteq> [] \<and> length l \<le> 63 \<and> is_letter_digit (hd l) \<and> is_letter_digit (last l)
     \<and> list_all (\<lambda>c. is_letter_digit c \<or> c = CHR ''-'') l"

definition ValidateHostname :: "string \<Rightarrow> unit result" where
  "ValidateHostname hostname =
     (if hostname = [] \<or> 253 < length hostname
         \<or> list_ex (\<lambda>c. c \<in> set [CHR ''/'', CHR 0x5C, CHR '' '', CHR 0x09, CHR 0x0D, CHR 0x0A]) hostname
      then Inl (ErrMsg ''must be a valid DNS hostname'')
      else if ParseIP hostname \<noteq> None then Inr ()
      else failIf (\<not> list_all hostnameLabel (split_at CHR ''.'' hostname)) (ErrMsg ''invalid DNS label''))"

text \<open>What \<^verbatim>\<open>url.Parse\<close> gives; the parser is a parameter, only its result is looked at.\<close>

record url =
  u_Scheme :: string
  u_Hostname :: string
  u_HasUser :: bool
  u_Path :: string
  u_RawQuery :: string
  u_ForceQuery :: bool
  u_Fragment :: string
  u_Opaque :: string

definition https_origin :: "url \<Rightarrow> bool" where
  "https_origin u \<longleftrightarrow> u_Scheme u = ''https'' \<and> u_Hostname u \<noteq> [] \<and> \<not> u_HasUser u
     \<and> u_RawQuery u = [] \<and> \<not> u_ForceQuery u \<and> u_Fragment u = [] \<and> u_Opaque u = []"

definition validate_controller :: "(string \<Rightarrow> url option) \<Rightarrow> controller_config \<Rightarrow> string \<Rightarrow> unit result" where
  "validate_controller url_parse cc controllerURL =
     (if cc_Enabled cc
      then bindE (failIf (controllerURL \<noteq> []) (ErrMsg ''controller cannot join another controller'')) (\<lambda>_.
           bindE (failIf (TrimSpace (cc_Database cc) = [] \<or> TrimSpace (cc_KeyFile cc) = []) (ErrMsg ''controller database and key_file are required'')) (\<lambda>_.
           bindE (validateListenAddress (cc_Listen cc) ''controller.listen'') (\<lambda>_.
           bindE (failIf (case ParseIP (host_of (cc_Listen cc)) of None \<Rightarrow> True | Some ip \<Rightarrow> \<not> IsLoopback ip)
                   (ErrMsg ''controller.listen must be loopback'')) (\<lambda>_.
           failIf (\<not> list_all (\<lambda>c. ParsePrefix c \<noteq> None) (cc_AllowedNodeCIDRs cc))
             (ErrMsg ''controller.allowed_node_cidrs contains an invalid range'')))))
      else bindE (failIf (cc_Listen cc \<noteq> [] \<or> cc_Database cc \<noteq> [] \<or> cc_KeyFile cc \<noteq> [] \<or> cc_AllowedNodeCIDRs cc \<noteq> [])
                   (ErrMsg ''member node cannot configure controller storage or settings'')) (\<lambda>_.
           if controllerURL = [] then Inr ()
           else failIf (case url_parse controllerURL of None \<Rightarrow> True | Some u \<Rightarrow> \<not> https_origin u \<or> u_Path u \<noteq> [])
                  (ErrMsg ''node.controller_url must be an HTTPS origin'')))"

definition validate_node :: "node_config \<Rightarrow> string \<Rightarrow> unit result" where
  "validate_node n management =
     bindE (failIf (nc_DERPPort n < 1 \<or> 65535 < nc_DERPPort n \<or> nc_STUNPort n < 1 \<or> 65535 < nc_STUNPort n)
             (ErrMsg ''node public ports must be between 1 and 65535'')) (\<lambda>_.
     bindE (if management \<noteq> [] then validateListenAddress management ''server.management.listen'' else Inr ()) (\<lambda>_.
     bindE (failIf (TrimSpace (nc_StateDir n) = []) (ErrMsg ''node.state_dir is required'')) (\<lambda>_.
     failIf (MaxInt64 < nc_MaxBudgetBPS n \<or> nc_MaxBudgetBPS n \<noteq> 0 \<and> nc_MaxBudgetBPS n < 8)
       (ErrMsg ''node.max_budget_bps overflows the supported budget''))))"

text \<open>The relay's addresses and its certificates.\<close>

definition validate_tls :: "derp_config \<Rightarrow> unit result" where
  "validate_tls d =
     bindE (failIf (dc_TLSMode d \<noteq> ''external'' \<and> dc_TLSMode d \<noteq> ''passthrough'') (ErrMsg ''server.derp.tls_mode: unsupported value'')) (\<lambda>_.
     bindE (failIf (dc_CertMode d \<notin> set [[], ''none'', ''manual'', ''letsencrypt'']) (ErrMsg ''server.derp.cert_mode: unsupported value'')) (\<lambda>_.
     bindE (failIf (dc_TLSMode d = ''external'' \<and> port_number (port_of (dc_Listen d)) = 443)
             (ErrMsg ''server.derp.listen: tls_mode external must use a non-443 internal port'')) (\<lambda>_.
     bindE (if dc_TLSMode d = ''external''
            then bindE (failIf (dc_CertMode d \<noteq> [] \<and> dc_CertMode d \<noteq> ''none'') (ErrMsg ''server.derp.cert_mode requires tls_mode: passthrough'')) (\<lambda>_.
                 failIf (dc_CertDir d \<noteq> []) (ErrMsg ''server.derp.cert_dir is only valid with tls_mode: passthrough''))
            else Inr ()) (\<lambda>_.
     if dc_TLSMode d = ''passthrough''
     then bindE (failIf (dc_CertMode d \<noteq> ''manual'' \<and> dc_CertMode d \<noteq> ''letsencrypt'')
                  (ErrMsg ''server.derp.cert_mode must be manual or letsencrypt with tls_mode: passthrough'')) (\<lambda>_.
          bindE (failIf (dc_CertDir d = []) (ErrMsg ''server.derp.cert_dir is required with tls_mode: passthrough'')) (\<lambda>_.
          failIf (dc_CertMode d \<noteq> ''manual'' \<and> port_number (port_of (dc_Listen d)) \<noteq> 443)
            (ErrMsg ''server.derp.listen: passthrough must use port 443'')))
     else Inr ()))))"

definition validate_derp :: "string \<Rightarrow> derp_config \<Rightarrow> unit result" where
  "validate_derp hostname d =
     bindE (if hostname \<noteq> [] then ValidateHostname hostname else Inr ()) (\<lambda>_.
     bindE (validateListenAddress (dc_Listen d) ''server.derp.listen'') (\<lambda>_.
     bindE (validateListenAddress (dc_STUNListen d) ''server.derp.stun_listen'') (\<lambda>_.
     bindE (failIf (host_of (dc_Listen d) \<noteq> [] \<and> host_of (dc_STUNListen d) \<noteq> [] \<and> host_of (dc_Listen d) \<noteq> host_of (dc_STUNListen d))
             (ErrMsg ''server.derp.stun_listen must use the same host as server.derp.listen when both are explicit'')) (\<lambda>_.
     validate_tls d))))"

definition Validate :: "(string \<Rightarrow> url option) \<Rightarrow> config \<Rightarrow> unit result" where
  "Validate url_parse c =
     bindE (failIf (cf_Version c \<noteq> CurrentVersion) (ErrMsg ''unsupported config version'')) (\<lambda>_.
     case cf_Controller c of
       None \<Rightarrow> Inl (ErrMsg ''controller role is required'')
     | Some cc \<Rightarrow>
         bindE (validate_controller url_parse cc (nc_ControllerURL (cf_Node c))) (\<lambda>_.
         bindE (validate_node (cf_Node c) (sc_Management (cf_Server c))) (\<lambda>_.
         bindE (validate_derp (sc_Hostname (cf_Server c)) (sc_DERP (cf_Server c))) (\<lambda>_.
         bindE (failIf (TrimSpace (sc_AdminSocket (cf_Server c)) = []) (ErrMsg ''server.admin.socket must not be empty'')) (\<lambda>_.
         bindE (validateListenAddress (sc_HealthListen (cf_Server c)) ''server.health.listen'') (\<lambda>_.
         bindE (failIf (cf_LoggingLevel c \<notin> set [''info'', ''warn'', ''error'', ''debug'']) (ErrMsg ''logging.level: unsupported value'')) (\<lambda>_.
         failIf (TrimSpace (cf_StateDir c) = []) (ErrMsg ''storage paths must not be empty''))))))))"

text \<open>A change that needs a restart; the logging level is the one field that does not.\<close>

definition RestartOnlyChanged :: "config \<Rightarrow> config \<Rightarrow> bool" where
  "RestartOnlyChanged oldConfig newConfig =
     (let a = Normalize oldConfig; b = Normalize newConfig
      in sc_Hostname (cf_Server a) \<noteq> sc_Hostname (cf_Server b)
         \<or> cf_SetupRequired a \<noteq> cf_SetupRequired b \<or> sc_Management (cf_Server a) \<noteq> sc_Management (cf_Server b)
         \<or> sc_DERP (cf_Server a) \<noteq> sc_DERP (cf_Server b)
         \<or> sc_AdminSocket (cf_Server a) \<noteq> sc_AdminSocket (cf_Server b)
         \<or> sc_HealthListen (cf_Server a) \<noteq> sc_HealthListen (cf_Server b)
         \<or> cf_StateDir a \<noteq> cf_StateDir b
         \<or> cf_Controller a \<noteq> cf_Controller b \<or> cf_Node a \<noteq> cf_Node b)"

section \<open>The document\<close>

text \<open>A key is given by its \<^verbatim>\<open>Value\<close>; \<open>YNone\<close> is the zero node.\<close>

datatype yaml_node =
    YNone
  | YDocument "yaml_node list"
  | YMapping "(string \<times> yaml_node) list"
  | YSequence "yaml_node list"
  | YScalar string string
  | YAlias string

definition isEmptyDocument :: "yaml_node \<Rightarrow> bool" where
  "isEmptyDocument root =
     (root = YNone \<or>
      (let n = (case root of YDocument (c # _) \<Rightarrow> c | _ \<Rightarrow> root)
       in case n of
            YNone \<Rightarrow> True
          | YScalar tag v \<Rightarrow> tag = ''!!null'' \<or> TrimSpace v = []
          | YMapping kvs \<Rightarrow> kvs = []
          | _ \<Rightarrow> False))"

definition mappingValue :: "yaml_node \<Rightarrow> string \<Rightarrow> yaml_node option" where
  "mappingValue n key = (case n of YMapping kvs \<Rightarrow> map_of kvs key | _ \<Rightarrow> None)"

definition sub_path :: "string \<Rightarrow> string \<Rightarrow> string" where
  "sub_path path key = (if path = [] then key else path @ ''.'' @ key)"

definition item_path :: "string \<Rightarrow> nat \<Rightarrow> string" where
  "item_path path i = path @ ''['' @ FormatInt (int i) @ '']''"

fun rejectDuplicateKeys :: "yaml_node \<Rightarrow> string \<Rightarrow> unit result"
  and duplicate_pairs :: "string list \<Rightarrow> (string \<times> yaml_node) list \<Rightarrow> string \<Rightarrow> unit result"
  and duplicate_items :: "nat \<Rightarrow> yaml_node list \<Rightarrow> string \<Rightarrow> unit result" where
  "rejectDuplicateKeys (YDocument []) path = Inr ()"
| "rejectDuplicateKeys (YDocument (c # cs)) path = rejectDuplicateKeys c path"
| "rejectDuplicateKeys (YMapping kvs) path = duplicate_pairs [] kvs path"
| "rejectDuplicateKeys (YSequence xs) path = duplicate_items 0 xs path"
| "rejectDuplicateKeys _ path = Inr ()"
| "duplicate_pairs seen [] path = Inr ()"
| "duplicate_pairs seen ((key, v) # kvs) path =
     (if key \<in> set seen then Inl (ErrMsg (''duplicate YAML mapping key at '' @ (if path = [] then ''<root>'' else path)))
      else bindE (rejectDuplicateKeys v (sub_path path key)) (\<lambda>_. duplicate_pairs (key # seen) kvs path))"
| "duplicate_items i [] path = Inr ()"
| "duplicate_items i (x # xs) path = bindE (rejectDuplicateKeys x (item_path path i)) (\<lambda>_. duplicate_items (i + 1) xs path)"

text \<open>The schema: a field without fields of its own is a leaf.\<close>

datatype schemaNode = Leaf | Fields "(string \<times> schemaNode) list"

definition leaves :: "string list \<Rightarrow> schemaNode" where
  "leaves ks = Fields (map (\<lambda>k. (k, Leaf)) ks)"

definition serverSchema :: schemaNode where
  "serverSchema = Fields
     [(''management'', leaves [''listen'']), (''hostname'', Leaf),
      (''derp'', leaves [''listen'', ''stun_listen'', ''tls_mode'', ''cert_mode'', ''cert_dir'']),
      (''admin'', leaves [''socket'']), (''health'', leaves [''listen''])]"

definition rootSchema :: schemaNode where
  "rootSchema = Fields
     [(''setup_required'', Leaf), (''version'', Leaf), (''server'', serverSchema),
      (''storage'', leaves [''state_dir'']), (''logging'', leaves [''level'']),
      (''controller'', leaves [''enabled'', ''listen'', ''database'', ''key_file'', ''allowed_node_cidrs'']),
      (''node'', leaves [''controller_url'', ''state_dir'', ''max_budget_bps'', ''derp_port'', ''stun_port''])]"

definition unsupportedFields :: "string list" where
  "unsupportedFields =
     [''control_url'', ''controlurl'', ''derp_map'', ''derpmap'', ''derp_map_file'', ''derp_map_url'', ''mesh_psk_file'',
      ''mesh_with'', ''secrets_url'', ''verify_client_url'', ''verify_clients'', ''rate_config'', ''accept_connection_limit'',
      ''accept_connection_burst'']"

definition unsupported :: "string \<Rightarrow> bool" where
  "unsupported key \<longleftrightarrow> ToLower (map (\<lambda>c. if c = CHR ''-'' then CHR ''_'' else c) key) \<in> set unsupportedFields"

definition field_error :: "string \<Rightarrow> string \<Rightarrow> unit result" where
  "field_error key path =
     bindE (failIf (key = ''<<'') (ErrMsg (''YAML merge keys are not supported at '' @ path))) (\<lambda>_.
     failIf (unsupported key) (ErrMsg (''unsupported field at '' @ path)))"

fun rejectUnsupportedFields :: "yaml_node \<Rightarrow> string \<Rightarrow> unit result"
  and unsupported_pairs :: "(string \<times> yaml_node) list \<Rightarrow> string \<Rightarrow> unit result"
  and unsupported_items :: "nat \<Rightarrow> yaml_node list \<Rightarrow> string \<Rightarrow> unit result" where
  "rejectUnsupportedFields (YDocument []) path = Inr ()"
| "rejectUnsupportedFields (YDocument (c # cs)) path = rejectUnsupportedFields c path"
| "rejectUnsupportedFields (YMapping kvs) path = unsupported_pairs kvs path"
| "rejectUnsupportedFields (YSequence xs) path = unsupported_items 0 xs path"
| "rejectUnsupportedFields _ path = Inr ()"
| "unsupported_pairs [] path = Inr ()"
| "unsupported_pairs ((key, v) # kvs) path =
     bindE (field_error key (sub_path path key)) (\<lambda>_.
     bindE (rejectUnsupportedFields v (sub_path path key)) (\<lambda>_. unsupported_pairs kvs path))"
| "unsupported_items i [] path = Inr ()"
| "unsupported_items i (x # xs) path = bindE (rejectUnsupportedFields x (item_path path i)) (\<lambda>_. unsupported_items (i + 1) xs path)"

fun collectUnknownFields :: "yaml_node \<Rightarrow> string \<Rightarrow> schemaNode \<Rightarrow> string list \<Rightarrow> string list result"
  and collect_pairs :: "(string \<times> yaml_node) list \<Rightarrow> string \<Rightarrow> (string \<times> schemaNode) list \<Rightarrow> string list \<Rightarrow> string list result" where
  "collectUnknownFields n path Leaf warnings = Inr warnings"
| "collectUnknownFields (YDocument (c # cs)) path schema warnings = collectUnknownFields c path schema warnings"
| "collectUnknownFields (YMapping kvs) path (Fields fs) warnings = collect_pairs kvs path fs warnings"
| "collectUnknownFields _ path schema warnings = Inr warnings"
| "collect_pairs [] path fs warnings = Inr warnings"
| "collect_pairs ((key, v) # kvs) path fs warnings =
     bindE (field_error key (sub_path path key)) (\<lambda>_.
     case map_of fs key of
       None \<Rightarrow> bindE (rejectUnsupportedFields v (sub_path path key)) (\<lambda>_.
           collect_pairs kvs path fs (warnings @ [''unknown config field ignored: '' @ sub_path path key]))
     | Some child \<Rightarrow> bindE (collectUnknownFields v (sub_path path key) child warnings) (collect_pairs kvs path fs))"

text \<open>What the decoder delivers at each call.\<close>

datatype yaml_read = YamlEOF | YamlError go_error | YamlDoc yaml_node

definition check_version :: "(string \<Rightarrow> int result) \<Rightarrow> yaml_node \<Rightarrow> unit result" where
  "check_version yaml_int document =
     (case mappingValue document ''version'' of
        None \<Rightarrow> Inl (ErrMsg ''config version is required for non-empty YAML'')
      | Some (YScalar tag v) \<Rightarrow>
          if tag \<noteq> ''!!int'' then Inl (ErrMsg ''config version must be an explicit integer'')
          else bindE (yaml_int v) (\<lambda>version.
            if version = CurrentVersion then Inr ()
            else if version = 1 then Inl (ErrMsg ''config version 1 requires migration to version 2'')
            else Inl (ErrMsg ''unsupported config version''))
      | Some _ \<Rightarrow> Inl (ErrMsg ''config version must be an explicit integer''))"

definition parse_document ::
    "(string \<Rightarrow> url option) \<Rightarrow> (string \<Rightarrow> int result) \<Rightarrow> (yaml_node \<Rightarrow> config result) \<Rightarrow> yaml_node \<Rightarrow> (config \<times> string list) result" where
  "parse_document url_parse yaml_int decode document =
     bindE (case document of YMapping _ \<Rightarrow> Inr () | _ \<Rightarrow> Inl (ErrMsg ''config root must be a YAML mapping'')) (\<lambda>_.
     bindE (rejectDuplicateKeys document []) (\<lambda>_.
     bindE (check_version yaml_int document) (\<lambda>_.
     bindE (failIf (mappingValue document ''tailnets'' \<noteq> None) (ErrMsg ''tailnets must be managed through the controller'')) (\<lambda>_.
     bindE (collectUnknownFields document [] rootSchema []) (\<lambda>warnings.
     bindE (decode document) (\<lambda>cfg.
     bindE (Validate url_parse (Normalize cfg)) (\<lambda>_.
     Inr (Normalize cfg, sort warnings))))))))"

definition Parse ::
    "(string \<Rightarrow> url option) \<Rightarrow> (string \<Rightarrow> int result) \<Rightarrow> (yaml_node \<Rightarrow> config result) \<Rightarrow> yaml_read \<Rightarrow> yaml_read
      \<Rightarrow> (config \<times> string list) result" where
  "Parse url_parse yaml_int decode first trailing =
     (case first of
        YamlEOF \<Rightarrow> Inr (Default, [])
      | YamlError e \<Rightarrow> Inl e
      | YamlDoc root \<Rightarrow>
          (case trailing of
             YamlDoc _ \<Rightarrow> Inl (ErrMsg ''config must contain exactly one YAML document'')
           | YamlError e \<Rightarrow> Inl e
           | YamlEOF \<Rightarrow>
               if isEmptyDocument root then Inr (Default, [])
               else parse_document url_parse yaml_int decode (case root of YDocument (c # _) \<Rightarrow> c | _ \<Rightarrow> root)))"

text \<open>
  \<^verbatim>\<open>WriteAtomic\<close>: the file is replaced only by an encoding of a checked configuration. \<open>write\<close> is
  the outcome of writing the temporary file and renaming it; the result is the new content.
\<close>

definition WriteAtomic ::
    "(string \<Rightarrow> url option) \<Rightarrow> (config \<Rightarrow> string result) \<Rightarrow> unit result \<Rightarrow> string option \<Rightarrow> config \<Rightarrow> unit result \<times> string option" where
  "WriteAtomic url_parse encode write content cfg =
     (case bindE (Validate url_parse (Normalize cfg)) (\<lambda>_. bindE (encode (Normalize cfg)) (\<lambda>data. bindE write (\<lambda>_. Inr data))) of
        Inl e \<Rightarrow> (Inl e, content)
      | Inr data \<Rightarrow> (Inr (), Some data))"

section \<open>Properties\<close>

lemma or_default_idem [simp]: "or_default (or_default v d) d = or_default v d"
  by (simp add: or_default_def)

lemma or_default_set [simp]: "d \<noteq> [] \<Longrightarrow> or_default v d \<noteq> []"
  by (simp add: or_default_def)

lemma Normalize_idem: "Normalize (Normalize c) = Normalize c"
proof -
  have "normalize_derp (normalize_derp d) = normalize_derp d" for d
    by (auto simp: normalize_derp_def Let_def or_default_def)
  moreover have "normalize_controller s (Some (normalize_controller s cc)) = normalize_controller s cc" for s cc
    by (cases cc) (auto simp: normalize_controller_def Let_def)
  moreover have "normalize_node s (normalize_node s n) = normalize_node s n" for s n
    by (auto simp: normalize_node_def)
  ultimately show ?thesis
    by (simp add: Normalize_def Let_def normalize_server_def CurrentVersion_def)
qed

text \<open>A tree in which no mapping has a key twice, outside the parts of a document after the first.\<close>

fun distinct_keys :: "yaml_node \<Rightarrow> bool" where
  "distinct_keys (YDocument []) = True"
| "distinct_keys (YDocument (c # cs)) = distinct_keys c"
| "distinct_keys (YMapping kvs) = (distinct (map fst kvs) \<and> list_all (\<lambda>(_, v). distinct_keys v) kvs)"
| "distinct_keys (YSequence xs) = list_all distinct_keys xs"
| "distinct_keys _ = True"

lemma rejectDuplicateKeys_distinct:
  "rejectDuplicateKeys n path = Inr () \<longleftrightarrow> distinct_keys n"
  "duplicate_pairs seen kvs path = Inr () \<longleftrightarrow>
     distinct (map fst kvs) \<and> set (map fst kvs) \<inter> set seen = {} \<and> list_all (\<lambda>(_, v). distinct_keys v) kvs"
  "duplicate_items i xs path = Inr () \<longleftrightarrow> list_all distinct_keys xs"
  by (induction n path and seen kvs path and i xs path rule: rejectDuplicateKeys_duplicate_pairs_duplicate_items.induct)
    (auto simp: bindE_Inr_iff)

lemmas read_number = ParseUint_def port_number_def char_digit_def less_eq_char_def

lemma default_ports:
  "ParseUint ''3377'' 16 = Some 3377" "ParseUint ''3478'' 16 = Some 3478" "ParseUint ''3341'' 16 = Some 3341" "ParseUint ''9090'' 16 = Some 9090"
  "port_number ''3377'' = 3377"
  by (simp_all add: read_number)

lemma default_splits:
  "SplitHostPort '':3377'' = Some ([], ''3377'')" "SplitHostPort '':3478'' = Some ([], ''3478'')"
  "SplitHostPort ''127.0.0.1:3341'' = Some (''127.0.0.1'', ''3341'')" "SplitHostPort ''127.0.0.1:9090'' = Some (''127.0.0.1'', ''9090'')"
  using SplitHostPort_simple [of "[]" "''3377''"] SplitHostPort_simple [of "[]" "''3478''"]
    SplitHostPort_simple [of "''127.0.0.1''" "''3341''"] SplitHostPort_simple [of "''127.0.0.1''" "''9090''"]
  by simp_all

lemma default_loopback: "ParseIP ''127.0.0.1'' = Some (V4 0x7F000001)"
  by (simp add: ParseIP_def parse_ipv4_def is_ipv4_def octet_ok_def char_digit_def less_eq_char_def)

lemma default_texts:
  "TrimSpace '':3377'' = '':3377''" "TrimSpace '':3478'' = '':3478''" "TrimSpace ''127.0.0.1:3341'' = ''127.0.0.1:3341''"
  "TrimSpace ''127.0.0.1:9090'' = ''127.0.0.1:9090''" "TrimSpace ''/data/controller.sqlite'' = ''/data/controller.sqlite''"
  "TrimSpace ''/data/controller.key'' = ''/data/controller.key''" "TrimSpace ''/data/node'' = ''/data/node''" "TrimSpace ''/data'' = ''/data''"
  "TrimSpace ''/run/uniderp/admin.sock'' = ''/run/uniderp/admin.sock''"
  by (simp_all add: TrimSpace_id is_graph_def less_eq_char_def)

lemma default_paths:
  "Join ''/data'' ''controller.sqlite'' = ''/data/controller.sqlite''" "Join ''/data'' ''controller.key'' = ''/data/controller.key''"
  "Join ''/data'' ''node'' = ''/data/node''"
  by (simp_all add: Join_def Clean_def clean_part_def)

lemmas default_eval = default_ports default_splits default_loopback default_texts default_paths host_of_def port_of_def

lemma Default_valid: "Validate url_parse Default = Inr ()"
proof -
  have derp: "validate_derp [] (normalize_derp (sc_DERP (cf_Server zero_config))) = Inr ()"
    by (simp add: normalize_derp_def zero_config_def or_default_def validate_derp_def validate_tls_def validateListenAddress_def failIf_def default_eval)
  have node: "validate_node (normalize_node ''/data'' (cf_Node zero_config)) [] = Inr ()"
    by (simp add: normalize_node_def zero_config_def or_default_def validate_node_def failIf_def default_eval)
  have controller: "validate_controller url_parse (normalize_controller ''/data'' None) [] = Inr ()"
    by (simp add: normalize_controller_def or_default_def validate_controller_def validateListenAddress_def failIf_def default_eval)
  have health: "validateListenAddress ''127.0.0.1:9090'' f = Inr ()" for f
    by (simp add: validateListenAddress_def failIf_def default_eval)
  have url: "nc_ControllerURL (normalize_node s (cf_Node zero_config)) = []" for s by (simp add: normalize_node_def zero_config_def)
  show ?thesis
    unfolding Default_def Validate_def
    using derp node controller health
    by (simp add: Normalize_def Let_def url normalize_server_def CurrentVersion_def failIf_def default_eval or_default_def)
      (simp add: zero_config_def or_default_def failIf_def default_eval)
qed

lemma collect_pairs_keys:
  "collect_pairs kvs path fs ws = Inr ws' \<Longrightarrow> k \<in> fst ` set kvs \<Longrightarrow> \<not> unsupported k \<and> k \<noteq> ''<<''"
proof (induction kvs arbitrary: ws)
  case (Cons kv kvs)
  obtain key v where [simp]: "kv = (key, v)" by (cases kv)
  from Cons.prems(1) have e: "field_error key (sub_path path key) = Inr ()" and r: "\<exists>ws. collect_pairs kvs path fs ws = Inr ws'"
    by (auto simp: bindE_Inr_iff split: option.splits)
  from e have "\<not> unsupported key \<and> key \<noteq> ''<<''" by (simp add: field_error_def bindE_Inr_iff failIf_Inr_iff)
  with Cons.IH r Cons.prems(2) show ?case by auto
qed simp



end
