(* ===== verification/Derper.thy ===== *)
theory Derper
  imports Config Cache
begin

text \<open>
  The relay process: its command line (args.go), and the exchange with it over its local socket
  when a policy is applied or its state is asked for (policy.go of the derper package).
\<close>

section \<open>The command line\<close>

record policy_client =
  pc_Path :: string
  pc_SocketPath :: string
  pc_MaxBudgetBPS :: nat

definition ValidateManagementAddress :: "string \<Rightarrow> unit result" where
  "ValidateManagementAddress address =
     (case SplitHostPort address of
        None \<Rightarrow> Inl (ErrMsg ''management address: invalid listen address'')
      | Some (host, port) \<Rightarrow>
          bindE (failIf (case ParseIP host of None \<Rightarrow> True | Some ip \<Rightarrow> \<not> IsLoopback ip)
                  (ErrMsg ''management address: host must be a loopback IP address'')) (\<lambda>_.
          failIf (ParseUint port 16 = None \<or> ParseUint port 16 = Some 0)
            (ErrMsg ''management address: port must be a non-zero numeric value'')))"

definition configAddress :: "string \<Rightarrow> string \<Rightarrow> unit result" where
  "configAddress address field =
     bindE (failIf (TrimSpace address = []) (ErrMsg (field @ '' must not be empty''))) (\<lambda>_.
     case SplitHostPort address of
       None \<Rightarrow> Inl (ErrMsg field)
     | Some (_, port) \<Rightarrow> failIf (ParseUint port 16 = None \<or> ParseUint port 16 = Some 0)
         (ErrMsg (field @ '': port must be a non-zero numeric value'')))"

definition validateTLSConfig :: "server_config \<Rightarrow> unit result" where
  "validateTLSConfig server =
     (let d = sc_DERP server
      in if dc_TLSMode d = ''external''
         then bindE (failIf (port_number (port_of (dc_Listen d)) = 443)
                      (ErrMsg ''server.derp.listen: tls_mode external must use a non-443 internal port'')) (\<lambda>_.
              bindE (failIf (dc_CertMode d \<noteq> [] \<and> dc_CertMode d \<noteq> ''none'') (ErrMsg ''server.derp.cert_mode requires tls_mode: passthrough'')) (\<lambda>_.
              failIf (dc_CertDir d \<noteq> []) (ErrMsg ''server.derp.cert_dir is only valid with tls_mode: passthrough'')))
         else if dc_TLSMode d = ''passthrough''
         then bindE (if dc_CertMode d = ''manual'' then Inr ()
                     else if dc_CertMode d = ''letsencrypt''
                     then failIf (port_of (dc_Listen d) \<noteq> ''443'') (ErrMsg ''server.derp.listen: passthrough must use port 443'')
                     else Inl (ErrMsg ''server.derp.cert_mode must be manual or letsencrypt with tls_mode: passthrough'')) (\<lambda>_.
              failIf (TrimSpace (dc_CertDir d) = []) (ErrMsg ''server.derp.cert_dir is required with tls_mode: passthrough''))
         else Inl (ErrMsg ''server.derp.tls_mode: unsupported value''))"

definition acmeHTTPPort :: "server_config \<Rightarrow> string" where
  "acmeHTTPPort server =
     (if dc_TLSMode (sc_DERP server) = ''passthrough'' \<and> dc_CertMode (sc_DERP server) = ''letsencrypt'' then ''80'' else ''-1'')"

text \<open>\<^verbatim>\<open>filepath.Abs\<close>, over the working directory, and \<^verbatim>\<open>filepath.Dir\<close>.\<close>

definition Abs_path :: "string result \<Rightarrow> string \<Rightarrow> string result" where
  "Abs_path cwd path = (if take 1 path = ''/'' then Inr (Clean path) else bindE cwd (\<lambda>d. Inr (Join d path)))"

definition Dir :: "string \<Rightarrow> string" where
  "Dir path = Clean (case last_index_of CHR ''/'' path of None \<Rightarrow> [] | Some i \<Rightarrow> take (i + 1) path)"

definition derper_args :: "server_config \<Rightarrow> string \<Rightarrow> string \<Rightarrow> policy_client \<Rightarrow> string \<Rightarrow> string \<Rightarrow> string \<Rightarrow> string list" where
  "derper_args server managementAddress keyPath policy policyFile policySocket stunPort =
     [''-hostname='' @ sc_Hostname server, ''-a='' @ dc_Listen (sc_DERP server), ''-stun-port='' @ stunPort, ''-stun=true'', ''-derp=true'',
      ''-c='' @ keyPath, ''-http-port='' @ acmeHTTPPort server, ''-verify-clients=false'', ''-verify-client-url='',
      ''-uniderp-management-url=http://'' @ managementAddress, ''-uniderp-policy-file='' @ policyFile,
      ''-uniderp-policy-socket='' @ policySocket, ''-uniderp-max-budget-bps='' @ FormatInt (int (pc_MaxBudgetBPS policy)), ''-mesh-psk-file='']
     @ (if dc_TLSMode (sc_DERP server) = ''passthrough''
        then [''-certmode='' @ dc_CertMode (sc_DERP server), ''-certdir='' @ dc_CertDir (sc_DERP server)] else [])"

definition BuildArgs :: "string result \<Rightarrow> server_config \<Rightarrow> string \<Rightarrow> string \<Rightarrow> policy_client \<Rightarrow> string list result" where
  "BuildArgs cwd server managementAddress keyPath policy =
     bindE (failIf (TrimSpace (sc_Hostname server) = []) (ErrMsg ''server.hostname is required before starting derper'')) (\<lambda>_.
     bindE (failIf (TrimSpace keyPath = []) (ErrMsg ''derper key path is required'')) (\<lambda>_.
     bindE (ValidateManagementAddress managementAddress) (\<lambda>_.
     bindE (failIf (pc_Path policy = [] \<or> pc_SocketPath policy = []) (ErrMsg ''derper policy file and socket are required'')) (\<lambda>_.
     bindE (Abs_path cwd (pc_Path policy)) (\<lambda>policyFile.
     bindE (Abs_path cwd (pc_SocketPath policy)) (\<lambda>policySocket.
     bindE (failIf (Dir policyFile \<noteq> Dir policySocket) (ErrMsg ''derper policy file and socket must share their protected directory'')) (\<lambda>_.
     bindE (configAddress (dc_Listen (sc_DERP server)) ''server.derp.listen'') (\<lambda>_.
     bindE (validateTLSConfig server) (\<lambda>_.
     case SplitHostPort (dc_STUNListen (sc_DERP server)) of
       None \<Rightarrow> Inl (ErrMsg ''server.derp.stun_listen'')
     | Some (stunHost, stunPort) \<Rightarrow>
         bindE (failIf (stunHost \<noteq> [] \<and> host_of (dc_Listen (sc_DERP server)) \<noteq> [] \<and> stunHost \<noteq> host_of (dc_Listen (sc_DERP server)))
                 (ErrMsg ''server.derp.stun_listen must use the same host as server.derp.listen when both are explicit'')) (\<lambda>_.
         bindE (failIf (ParseUint stunPort 16 = None \<or> ParseUint stunPort 16 = Some 0)
                 (ErrMsg ''server.derp.stun_listen: port must be a non-zero numeric value'')) (\<lambda>_.
         Inr (derper_args server managementAddress keyPath policy policyFile policySocket stunPort))))))))))))"

section \<open>The policy socket\<close>

record policy_notice =
  pn_Revision :: nat
  pn_Digest :: string

record policy_reply =
  pr_EffectiveBudgetBPS :: nat
  pr_Revision :: nat
  pr_Usable :: bool
  pr_Error :: string
  pr_Traffic :: "tailnet_traffic list"
  pr_TrafficObservedAt :: time
  pr_ActiveConnections :: nat

record policy_application =
  pa_LocalMaxBudgetBPS :: "nat option"
  pa_EffectiveBudgetBPS :: nat
  pa_Revision :: nat
  pa_Usable :: bool
  pa_Traffic :: "tailnet_traffic list"
  pa_TrafficObservedAt :: time
  pa_ActiveConnections :: nat

text \<open>
  A line that came back is its length and, when it is one document of the expected form, the reply. \<open>conn\<close> is what the connection gives for the request: the error of
  dialling, of the deadline, of writing or of reading, or a line.
\<close>

definition zero_application :: policy_application where
  "zero_application = \<lparr>pa_LocalMaxBudgetBPS = None, pa_EffectiveBudgetBPS = 0, pa_Revision = 0, pa_Usable = False, pa_Traffic = [], pa_TrafficObservedAt = zero_time,
     pa_ActiveConnections = 0\<rparr>"

definition application_of :: "policy_reply \<Rightarrow> policy_application" where
  "application_of r = \<lparr>pa_LocalMaxBudgetBPS = None, pa_EffectiveBudgetBPS = pr_EffectiveBudgetBPS r, pa_Revision = pr_Revision r,
     pa_Usable = pr_Usable r, pa_Traffic = pr_Traffic r, pa_TrafficObservedAt = pr_TrafficObservedAt r,
     pa_ActiveConnections = pr_ActiveConnections r\<rparr>"

definition exchange ::
    "policy_client \<Rightarrow> go_error option \<Rightarrow> (policy_notice \<Rightarrow> (nat \<times> policy_reply option) result) \<Rightarrow> policy_notice
      \<Rightarrow> policy_application \<times> unit result" where
  "exchange c ctx conn request =
     (case ctx of
        Some e \<Rightarrow> (zero_application, Inl e)
      | None \<Rightarrow>
          if pc_SocketPath c = [] then (zero_application, Inl (ErrMsg ''derper policy socket is required''))
          else case conn request of
            Inl e \<Rightarrow> (zero_application, Inl e)
          | Inr (len, body) \<Rightarrow>
              (case (if MaxPolicyBytes < len then None else body) of
                 None \<Rightarrow> (zero_application, Inl (ErrMsg ''invalid derper policy response''))
               | Some reply \<Rightarrow>
                   (application_of reply,
                    if pr_Error reply \<noteq> [] then Inl (ErrMsg ''derper policy application failed'')
                    else failIf (pn_Revision request \<noteq> 0 \<and> pr_Revision reply \<noteq> pn_Revision request) (ErrMsg ''derper applied revision differs''))))"

text \<open>\<^verbatim>\<open>ApplyPolicy\<close> stores the policy before it tells the relay where to find it.\<close>

definition ApplyPolicy ::
    "env \<Rightarrow> policy_client \<Rightarrow> go_error option \<Rightarrow> (policy_notice \<Rightarrow> (nat \<times> policy_reply option) result)
      \<Rightarrow> policy \<Rightarrow> time \<Rightarrow> write_outcome \<Rightarrow> write_outcome \<Rightarrow> cache_files \<Rightarrow> (policy_application \<times> unit result) \<times> cache_files" where
  "ApplyPolicy E c ctx conn p now w1 w2 fs =
     (case ctx of
        Some e \<Rightarrow> ((zero_application, Inl e), fs)
      | None \<Rightarrow>
          (case ValidatePolicy E p (p_ClusterID p) (p_NodeID p) of
             Inl e \<Rightarrow> ((zero_application, Inl e), fs)
           | Inr _ \<Rightarrow>
               (case saveCacheAt E (pc_Path c) p now w1 w2 fs of
                  (Inl e, fs') \<Rightarrow> ((zero_application, Inl e), fs')
                | (Inr _, fs') \<Rightarrow> (exchange c ctx conn \<lparr>pn_Revision = p_Revision p, pn_Digest = cacheDigest E p\<rparr>, fs'))))"

definition Status_derper :: "policy_client \<Rightarrow> go_error option \<Rightarrow> (policy_notice \<Rightarrow> (nat \<times> policy_reply option) result)
    \<Rightarrow> policy_application \<times> unit result" where
  "Status_derper c ctx conn = exchange c ctx conn \<lparr>pn_Revision = 0, pn_Digest = []\<rparr>"

section \<open>Properties\<close>

lemma validateListenAddress_Inr:
  assumes "validateListenAddress a f = Inr ()"
  obtains host port where "TrimSpace a \<noteq> []" "SplitHostPort a = Some (host, port)" "ParseUint port 16 \<noteq> None" "ParseUint port 16 \<noteq> Some 0"
  using assms unfolding validateListenAddress_def bindE_Inr_iff failIf_Inr_iff by (auto split: option.splits prod.splits if_splits intro: that)

lemma validate_tls_args:
  assumes "validate_tls (sc_DERP server) = Inr ()"
    and "dc_CertMode (sc_DERP server) = ''letsencrypt'' \<Longrightarrow> port_of (dc_Listen (sc_DERP server)) = ''443''"
    and "dc_CertDir (sc_DERP server) \<noteq> [] \<Longrightarrow> TrimSpace (dc_CertDir (sc_DERP server)) \<noteq> []"
  shows "validateTLSConfig server = Inr ()"
  using assms unfolding validate_tls_def validateTLSConfig_def bindE_Inr_iff failIf_Inr_iff Let_def
  by (auto simp: failIf_def split: if_splits)


lemma Validate_other_relay:
  assumes "Validate url_parse c = Inr ()" "validate_derp h d = Inr ()"
  shows "Validate url_parse (c\<lparr>cf_Server := (cf_Server c)\<lparr>sc_Hostname := h, sc_DERP := d\<rparr>\<rparr>) = Inr ()"
  using assms unfolding Validate_def by (auto simp: bindE_Inr_iff failIf_Inr_iff split: option.splits)

lemma sample_hostname: "ValidateHostname ''relay.example'' = Inr ()" "TrimSpace ''relay.example'' = ''relay.example''"
  by (simp_all add: ValidateHostname_def ParseIP_def parse_ipv4_def is_ipv4_def hostnameLabel_def is_letter_digit_def failIf_def
      TrimSpace_id is_graph_def less_eq_char_def)

definition sample_config :: config where
  "sample_config = Default\<lparr>cf_Server := (cf_Server Default)\<lparr>sc_Hostname := ''relay.example'', sc_DERP := sc_DERP (cf_Server Default)\<rparr>\<rparr>"

definition sample_derp :: "string \<Rightarrow> derp_config" where
  "sample_derp listen = \<lparr>dc_Listen = listen, dc_STUNListen = '':3478'', dc_TLSMode = ''passthrough'', dc_CertMode = ''letsencrypt'', dc_CertDir = ''/certs''\<rparr>"

definition sample_client :: policy_client where
  "sample_client = \<lparr>pc_Path = ''/data/p'', pc_SocketPath = ''/data/s'', pc_MaxBudgetBPS = 0\<rparr>"

lemma sample_paths: "Abs_path cwd ''/data/p'' = Inr ''/data/p''" "Abs_path cwd ''/data/s'' = Inr ''/data/s''" "Dir ''/data/p'' = ''/data''" "Dir ''/data/s'' = ''/data''"
  by (simp_all add: Abs_path_def Dir_def Clean_def clean_part_def last_index_of_def upt_rec)

lemma sample_management: "ValidateManagementAddress ''127.0.0.1:9090'' = Inr ()" "TrimSpace ''/data/node'' \<noteq> []"
  by (simp_all add: ValidateManagementAddress_def default_eval failIf_def)


text \<open>
  The two checks differ on how a port is written: the file is read as a number, the command line
  as text, so a listener on \<^verbatim>\<open>:0443\<close> is accepted by the one and refused by the other.
\<close>

lemma checks_differ:
  "Validate url_parse (Default\<lparr>cf_Server := (cf_Server Default)\<lparr>sc_Hostname := ''relay.example'', sc_DERP := sample_derp '':0443''\<rparr>\<rparr>) = Inr ()
   \<and> validateTLSConfig ((cf_Server Default)\<lparr>sc_Hostname := ''relay.example'', sc_DERP := sample_derp '':0443''\<rparr>)
       = Inl (ErrMsg ''server.derp.listen: passthrough must use port 443'')"
proof
  have s: "SplitHostPort '':0443'' = Some ([], ''0443'')" using SplitHostPort_simple [of "[]" "''0443''"] by simp
  have n: "ParseUint ''0443'' 16 = Some 443" "port_number ''0443'' = 443" by (simp_all add: read_number)
  have ts: "TrimSpace '':0443'' = '':0443''" by (simp add: TrimSpace_id is_graph_def less_eq_char_def)
  have "validate_derp ''relay.example'' (sample_derp '':0443'') = Inr ()"
    by (simp add: sample_derp_def validate_derp_def validate_tls_def validateListenAddress_def failIf_def default_eval sample_hostname s n ts)
  then show "Validate url_parse (Default\<lparr>cf_Server := (cf_Server Default)\<lparr>sc_Hostname := ''relay.example'', sc_DERP := sample_derp '':0443''\<rparr>\<rparr>) = Inr ()"
    by (rule Validate_other_relay [OF Default_valid])
  show "validateTLSConfig ((cf_Server Default)\<lparr>sc_Hostname := ''relay.example'', sc_DERP := sample_derp '':0443''\<rparr>)
       = Inl (ErrMsg ''server.derp.listen: passthrough must use port 443'')"
    by (simp add: validateTLSConfig_def sample_derp_def port_of_def s failIf_def)
qed

end
