(* ===== verification/Admin.thy ===== *)
theory Admin
  imports Prelude
begin

text \<open>
  The local administration protocol (admin/protocol.go): frames with a length in four bytes, over
  a connection that may take a frame in pieces; the filter of the log (logging/filter.go) and the
  health endpoint (health/health.go). Values are encoded and decoded by functions of the caller.
\<close>

section \<open>Frames\<close>

definition MaxFrameSize :: nat where
  "MaxFrameSize = 65536"

definition PutUint32 :: "nat \<Rightarrow> string" where
  "PutUint32 n = map (\<lambda>i. char_of (n div 256 ^ i mod 256)) [3, 2, 1, 0]"

definition Uint32 :: "string \<Rightarrow> nat" where
  "Uint32 bs = foldl (\<lambda>a c. a * 256 + of_char c) 0 bs"

text \<open>
  The loop of \<^verbatim>\<open>WriteFrame\<close>. \<open>w k\<close> is what the \<open>k\<close>-th call of the writer returns: the number of
  bytes it took and its error. The result is the outcome, the number of the next call, and the
  bytes that went out.
\<close>

function write_loop :: "(nat \<Rightarrow> int \<times> go_error option) \<Rightarrow> string \<Rightarrow> nat \<Rightarrow> nat \<Rightarrow> string \<Rightarrow> unit result \<times> nat \<times> string" where
  "write_loop w payload written k out =
     (if written < length payload
      then (case w k of (n, err) \<Rightarrow>
              let out' = out @ take (nat n) (drop written payload)
              in case err of
                   Some e \<Rightarrow> (Inl e, k + 1, out')
                 | None \<Rightarrow> if n \<le> 0 then (Inl (ErrMsg ''short write''), k + 1, out')
                           else write_loop w payload (written + nat n) (k + 1) out')
      else (Inr (), k, out))"
  by pat_completeness auto
termination
  by (relation "measure (\<lambda>(w, payload, written, k, out). length payload - written)") auto

declare write_loop.simps [simp del]

definition WriteFrame :: "('v \<Rightarrow> string result) \<Rightarrow> (nat \<Rightarrow> int \<times> go_error option) \<Rightarrow> 'v \<Rightarrow> unit result \<times> nat \<times> string" where
  "WriteFrame encode w v =
     (case encode v of
        Inl e \<Rightarrow> (Inl e, 0, [])
      | Inr payload \<Rightarrow>
          if payload = [] \<or> MaxFrameSize < length payload then (Inl (ErrMsg ''frame size is outside the allowed range''), 0, [])
          else (case w 0 of (n, err) \<Rightarrow>
            let out = take (nat n) (PutUint32 (length payload))
            in case err of
                 Some e \<Rightarrow> (Inl e, 1, out)
               | None \<Rightarrow> write_loop w payload 0 1 out))"

text \<open>\<^verbatim>\<open>ReadFrame\<close> over the bytes that arrive; the rest of them is returned.\<close>

definition ReadFrame :: "(string \<Rightarrow> 'v result) \<Rightarrow> string \<Rightarrow> ('v \<times> string) result" where
  "ReadFrame decode bytes =
     bindE (failIf (length bytes < 4) (ErrMsg ''read frame length'')) (\<lambda>_.
     let size = Uint32 (take 4 bytes)
     in bindE (failIf (size = 0 \<or> MaxFrameSize < size) (ErrMsg ''frame size is outside the allowed range'')) (\<lambda>_.
        bindE (failIf (length bytes < 4 + size) (ErrMsg ''read frame'')) (\<lambda>_.
        bindE (decode (take size (drop 4 bytes))) (\<lambda>v. Inr (v, drop (4 + size) bytes)))))"

section \<open>Responses\<close>

record response =
  rsp_OK :: bool
  rsp_Error :: string
  rsp_Message :: string
  rsp_Data :: "string option"

definition Failure :: "string \<Rightarrow> response" where
  "Failure message = \<lparr>rsp_OK = False, rsp_Error = message, rsp_Message = [], rsp_Data = None\<rparr>"

text \<open>\<open>data\<close> is absent, or what encoding it gives.\<close>

definition Success :: "string \<Rightarrow> string result option \<Rightarrow> response" where
  "Success message data =
     (case data of
        None \<Rightarrow> \<lparr>rsp_OK = True, rsp_Error = [], rsp_Message = message, rsp_Data = None\<rparr>
      | Some (Inr encoded) \<Rightarrow> \<lparr>rsp_OK = True, rsp_Error = [], rsp_Message = message, rsp_Data = Some encoded\<rparr>
      | Some (Inl _) \<Rightarrow> Failure ''encode response data'')"

section \<open>The log\<close>

definition upper_char :: "char \<Rightarrow> char" where
  "upper_char c = (if CHR ''a'' \<le> c \<and> c \<le> CHR ''z'' then char_of (of_char c - 32 :: nat) else c)"

text \<open>\<^verbatim>\<open>strings.ToUpper\<close>; besides the ASCII letters, two others have an ASCII capital.\<close>

fun ToUpper :: "string \<Rightarrow> string" where
  "ToUpper [] = []"
| "ToUpper (c # cs) =
     (if c = CHR 0xC4 \<and> take 1 cs = [CHR 0xB1] then CHR ''I'' # ToUpper (drop 1 cs)
      else if c = CHR 0xC5 \<and> take 1 cs = [CHR 0xBF] then CHR ''S'' # ToUpper (drop 1 cs)
      else upper_char c # ToUpper cs)"

definition messageSeverity :: "string \<Rightarrow> int" where
  "messageSeverity message =
     (let first = ToUpper (TrimSpace (takeWhile (\<lambda>c. c \<noteq> CHR '' '') message))
      in if first = ''DEBUG'' then - 1
         else if first = ''WARN'' \<or> first = ''WARNING'' then 1
         else if first = ''ERROR'' then 2 else 0)"

definition SetLevel :: "string \<Rightarrow> int" where
  "SetLevel level =
     (let l = ToLower level
      in if l = ''debug'' then - 1 else if l = ''warn'' then 1 else if l = ''error'' then 2 else 0)"

text \<open>\<^verbatim>\<open>Printf\<close> on the formatted message: the lines that are printed.\<close>

definition Printf :: "int \<Rightarrow> bool \<Rightarrow> string \<Rightarrow> string list" where
  "Printf level logger message = (if logger \<and> level \<le> messageSeverity message then [message] else [])"

section \<open>Health\<close>

record health_snapshot =
  hs_Live :: bool
  hs_Ready :: bool
  hs_Startup :: bool
  hs_DerperUsable :: bool
  hs_PendingRestart :: bool

definition zero_health :: health_snapshot where
  "zero_health = \<lparr>hs_Live = False, hs_Ready = False, hs_Startup = False, hs_DerperUsable = False, hs_PendingRestart = False\<rparr>"

text \<open>The status of the answer, and the snapshot in its body.\<close>

definition health_handler :: "health_snapshot option \<Rightarrow> string \<Rightarrow> string \<Rightarrow> nat \<times> health_snapshot option" where
  "health_handler provider verb path =
     (if verb \<noteq> ''GET'' then (405, None)
      else let snapshot = (case provider of None \<Rightarrow> zero_health | Some s \<Rightarrow> s);
               reply = (\<lambda>ok. (if ok then 200 else 503, Some snapshot))
           in if path = ''/health/live'' then reply (hs_Live snapshot)
              else if path = ''/health/ready'' then reply (hs_Ready snapshot)
              else if path = ''/health/startup'' then reply (hs_Startup snapshot)
              else (404, None))"

section \<open>Properties\<close>

lemma Uint32_PutUint32:
  assumes "n < 256 ^ 4"
  shows "Uint32 (PutUint32 n) = n"
proof -
  have *: "n div 65536 * 256 + n div 256 mod 256 = n div 256" "n div 16777216 * 256 + n div 65536 mod 256 = n div 65536"
    using div_mult_mod_eq [of "n div 256" 256] div_mult_mod_eq [of "n div 65536" 256] by (simp_all add: div_mult2_eq [symmetric])
  have top: "n div 16777216 mod 256 = n div 16777216" using assms by (intro mod_less) (simp add: less_mult_imp_div_less)
  have "((n div 16777216 mod 256 * 256 + n div 65536 mod 256) * 256 + n div 256 mod 256) * 256 + n mod 256 = n"
    unfolding top * by (rule div_mult_mod_eq)
  then show ?thesis by (simp add: Uint32_def PutUint32_def top)
qed

lemma write_loop_out:
  assumes "write_loop w payload written k out = (Inr (), k', out')"
  shows "out' = out @ drop written payload"
  using assms
proof (induction w payload written k out rule: write_loop.induct)
  case (1 w payload written k out)
  show ?case
  proof (cases "written < length payload")
    case False
    with 1(2) show ?thesis by (subst (asm) write_loop.simps) simp
  next
    case True
    obtain n err where w: "w k = (n, err)" by (cases "w k")
    from 1(2) True have "err = None" "0 < n"
      and r: "write_loop w payload (written + nat n) (k + 1) (out @ take (nat n) (drop written payload)) = (Inr (), k', out')"
      by (subst (asm) write_loop.simps, simp add: w Let_def split: option.splits if_splits)+
    from 1(1) [OF True w [symmetric] refl \<open>err = None\<close> _ r] \<open>0 < n\<close>
    have "out' = (out @ take (nat n) (drop written payload)) @ drop (written + nat n) payload" by simp
    then show ?thesis by (metis append.assoc append_take_drop_id drop_drop add.commute)
  qed
qed

lemma write_loop_calls:
  "fst (snd (write_loop w payload written k out)) \<le> k + (length payload - written)"
proof (induction w payload written k out rule: write_loop.induct)
  case (1 w payload written k out)
  show ?case
  proof (cases "written < length payload")
    case False
    then show ?thesis by (subst write_loop.simps) simp
  next
    case True
    obtain n err where w: "w k = (n, err)" by (cases "w k")
    have "fst (snd (write_loop w payload (written + nat n) (k + 1) (out @ take (nat n) (drop written payload)))) \<le> k + 1 + (length payload - (written + nat n))"
      if "err = None" "0 < n"
      using 1 [OF True w [symmetric] refl that(1)] that by simp
    with True show ?thesis by (subst write_loop.simps) (auto simp: w Let_def split: option.split)
  qed
qed

text \<open>C34: A frame that was written is the frame that is read: when \<^verbatim>\<open>WriteFrame\<close> succeeds over a connection that took the length in one piece and the rest in pieces of any size, the reader gets the same value back and is left with exactly the bytes that follow.\<close>

theorem frame_roundtrip:
  assumes "WriteFrame encode w v = (Inr (), k, out)" and "fst (w 0) = 4" and "\<And>payload. encode v = Inr payload \<Longrightarrow> decode payload = Inr v"
  shows "ReadFrame decode (out @ rest) = Inr (v, rest)"
proof -
  from assms(1,2) obtain payload where p: "encode v = Inr payload" "payload \<noteq> []" "length payload \<le> MaxFrameSize"
    and l: "write_loop w payload 0 1 (PutUint32 (length payload)) = (Inr (), k, out)"
    by (auto simp: WriteFrame_def Let_def PutUint32_def split: sum.splits if_splits prod.splits option.splits)
  from write_loop_out [OF l] have out: "out = PutUint32 (length payload) @ payload" by simp
  have len: "length (PutUint32 n) = 4" for n by (simp add: PutUint32_def)
  from p(3) have size: "Uint32 (PutUint32 (length payload)) = length payload" by (intro Uint32_PutUint32) (simp add: MaxFrameSize_def)
  show ?thesis using p assms(3) [OF p(1)] by (simp add: ReadFrame_def out len size failIf_def)
qed

text \<open>C35: Writing a frame ends: whatever the connection does, also one that takes nothing or less than it was offered, \<^verbatim>\<open>WriteFrame\<close> returns after at most one call for the length and one for each byte of the frame.\<close>

theorem frame_write_ends:
  assumes "encode v = Inr payload"
  shows "fst (snd (WriteFrame encode w v)) \<le> 1 + length payload"
proof -
  obtain n err where w: "w 0 = (n, err)" by (cases "w 0")
  show ?thesis using write_loop_calls [of w payload 0 1] by (auto simp: WriteFrame_def assms w Let_def split: option.split)
qed

definition sample_writer :: "nat \<Rightarrow> int \<times> go_error option" where
  "sample_writer k = (if k = 0 then 4 else 1, None)"

lemma sample_chars: "char_of (0::nat) = CHR 0x00" "char_of (2::nat) = CHR 0x02"
  by code_simp+

lemma sample_frame: "WriteFrame Inr sample_writer ''ok'' = (Inr (), 3, [CHR 0x00, CHR 0x00, CHR 0x00, CHR 0x02, CHR ''o'', CHR ''k''])"
  by (simp add: WriteFrame_def sample_writer_def MaxFrameSize_def PutUint32_def write_loop.simps sample_chars numeral_2_eq_2 [symmetric])

theorem frame_roundtrip_witness:
  "ReadFrame Inr ([CHR 0x00, CHR 0x00, CHR 0x00, CHR 0x02, CHR ''o'', CHR ''k''] @ ''rest'') = Inr (''ok'', ''rest'')"
  by (rule frame_roundtrip [OF sample_frame]) (simp_all add: sample_writer_def)

theorem frame_write_ends_witness: "fst (snd (WriteFrame Inr (\<lambda>_. (0, None)) ''ok'')) \<le> 3"
  using frame_write_ends [of Inr "''ok''" "''ok''" "\<lambda>_. (0, None)"] by simp

end
