(* ===== verification/NodeClient.thy ===== *)
theory NodeClient
  imports Sessions Cache Config Derper
begin

text \<open>
  The node's side of enrolment, \<^verbatim>\<open>internal/cluster/node_client.go\<close>: its key, its registration
  and the file that keeps it, and the two exchanges with the controller that end in a session.

  The controller and the disk are what they answer: a \<open>reply\<close> for every request, and for every
  write the error it ends with, if any. The registration file holds the JSON of a registration,
  which is the registration here.
\<close>

section \<open>The key of the node\<close>

text \<open>
  How the steps of \<^verbatim>\<open>LoadNodeIdentity\<close> end. A write that fails leaves the bytes it got to;
  \<open>fromSeed\<close> is \<^verbatim>\<open>ed25519.NewKeyFromSeed\<close>.
\<close>

record identity_io =
  ii_read :: "go_error option"
  ii_mkdir :: "go_error option"
  ii_key :: "string result"
  ii_open :: "go_error option"
  ii_write :: "(nat \<times> go_error) option"
  ii_sync :: "go_error option"
  ii_close :: "go_error option"
  ii_chmod :: "go_error option"

definition create_identity :: "identity_io \<Rightarrow> string result \<times> string option" where
  "create_identity io =
     (case ii_mkdir io of Some e \<Rightarrow> (Inl e, None) | None \<Rightarrow>
     (case ii_key io of Inl e \<Rightarrow> (Inl e, None) | Inr key \<Rightarrow>
     (case ii_open io of Some e \<Rightarrow> (Inl e, None) | None \<Rightarrow>
     (case ii_write io of Some (n, e) \<Rightarrow> (Inl e, Some (take n key)) | None \<Rightarrow>
     (case ii_sync io of Some e \<Rightarrow> (Inl e, Some key) | None \<Rightarrow>
     (case ii_close io of Some e \<Rightarrow> (Inl e, Some key) | None \<Rightarrow> (Inr key, Some key)))))))"

definition valid_identity :: "(string \<Rightarrow> string) \<Rightarrow> string \<Rightarrow> bool" where
  "valid_identity fromSeed b \<longleftrightarrow> length b = 64 \<and> b = fromSeed (take 32 b)"

definition LoadNodeIdentity :: "(string \<Rightarrow> string) \<Rightarrow> identity_io \<Rightarrow> string option \<Rightarrow> string result \<times> string option" where
  "LoadNodeIdentity fromSeed io file =
     (case ii_read io of
        Some e \<Rightarrow> (Inl e, file)
      | None \<Rightarrow>
          (case file of
             None \<Rightarrow> create_identity io
           | Some b \<Rightarrow>
               if \<not> valid_identity fromSeed b then (Inl (ErrMsg ''invalid persistent node identity''), file)
               else (case ii_chmod io of Some e \<Rightarrow> (Inl e, file) | None \<Rightarrow> (Inr b, file))))"

section \<open>Registration\<close>

record node_registration =
  rg_ControllerURL :: string
  rg_Domain :: string
  rg_Session :: node_session
  rg_Pending :: "enrollment_request option"

record control_status =
  st_Connected :: bool
  st_DesiredRevision :: nat
  st_ReceivedRevision :: nat
  st_AppliedRevision :: nat
  st_Usable :: bool
  st_LastContact :: time
  st_Error :: string
  st_Traffic :: "tailnet_traffic list"
  st_TrafficObservedAt :: time
  st_ActiveConnections :: nat

text \<open>\<open>ec_file\<close> is the file at \<^verbatim>\<open>statePath\<close>.\<close>

record enrollment_client =
  ec_privateKey :: string
  ec_instanceID :: string
  ec_file :: "node_registration option"
  ec_state :: node_registration
  ec_responder :: domain_responder
  ec_controlStatus :: control_status

definition zero_session :: node_session where
  "zero_session = \<lparr>ses_ClusterID = [], ses_NodeID = [], ses_InstanceID = [], ses_Token = [], ses_ExpiresAt = zero_time,
     ses_LeaseUntil = zero_time\<rparr>"

definition unregistered :: "string \<Rightarrow> node_registration" where
  "unregistered origin = \<lparr>rg_ControllerURL = origin, rg_Domain = [], rg_Session = zero_session, rg_Pending = None\<rparr>"

definition zero_status :: control_status where
  "zero_status = \<lparr>st_Connected = False, st_DesiredRevision = 0, st_ReceivedRevision = 0, st_AppliedRevision = 0, st_Usable = False,
     st_LastContact = zero_time, st_Error = [], st_Traffic = [], st_TrafficObservedAt = zero_time, st_ActiveConnections = 0\<rparr>"

text \<open>The registration names a controller it may not leave silently.\<close>

definition bound :: "node_registration \<Rightarrow> bool" where
  "bound r \<longleftrightarrow> ses_NodeID (rg_Session r) \<noteq> [] \<or> rg_Pending r \<noteq> None"

definition PolicyBinding :: "enrollment_client \<Rightarrow> string \<times> string" where
  "PolicyBinding c = (ses_ClusterID (rg_Session (ec_state c)), ses_NodeID (rg_Session (ec_state c)))"

text \<open>\<open>url_string\<close> is \<^verbatim>\<open>URL.String\<close>.\<close>

definition controllerOrigin :: "(string \<Rightarrow> url option) \<Rightarrow> (url \<Rightarrow> string) \<Rightarrow> string \<Rightarrow> string result" where
  "controllerOrigin url_parse url_string v =
     (if v = [] then Inr []
      else case url_parse v of
        None \<Rightarrow> Inl (ErrMsg ''controller must be an HTTPS origin'')
      | Some u \<Rightarrow>
          if \<not> https_origin u \<or> u_Path u \<noteq> [] \<and> u_Path u \<noteq> ''/'' then Inl (ErrMsg ''controller must be an HTTPS origin'')
          else Inr (url_string (u\<lparr>u_Path := []\<rparr>)))"

text \<open>
  The registration file as it is read: its length, and what it decodes to over a registration that
  has the address already.
\<close>

definition load_registration :: "go_error option \<Rightarrow> string \<Rightarrow> string \<Rightarrow> string \<Rightarrow> (nat \<times> node_registration option) option \<Rightarrow> enrollment_client result" where
  "load_registration err origin inst key file =
     (let client = \<lparr>ec_privateKey = key, ec_instanceID = inst, ec_file = None, ec_state = unregistered origin,
            ec_responder = NewDomainResponder key, ec_controlStatus = zero_status\<rparr>
      in case err of
        Some e \<Rightarrow> Inl e
      | None \<Rightarrow>
          (case file of
             None \<Rightarrow> Inr client
           | Some (len, content) \<Rightarrow>
               (case content of
                  None \<Rightarrow> Inl (ErrMsg ''invalid or differently bound node registration'')
                | Some r \<Rightarrow>
                    if 65536 < len \<or> rg_ControllerURL r \<noteq> origin \<and> bound r
                    then Inl (ErrMsg ''invalid or differently bound node registration'')
                    else Inr (client\<lparr>ec_file := Some r, ec_state := r\<lparr>rg_ControllerURL := origin\<rparr>\<rparr>))))"

record client_io =
  ci_statRegistration :: "go_error option"
  ci_statKey :: "go_error option"
  ci_identity :: identity_io
  ci_readRegistration :: "go_error option"

definition NewEnrollmentClient ::
    "(string \<Rightarrow> url option) \<Rightarrow> (url \<Rightarrow> string) \<Rightarrow> (string \<Rightarrow> string) \<Rightarrow> client_io \<Rightarrow> string \<Rightarrow> string \<Rightarrow> string
      \<Rightarrow> string option \<Rightarrow> (nat \<times> node_registration option) option \<Rightarrow> enrollment_client result \<times> string option" where
  "NewEnrollmentClient url_parse url_string fromSeed io inst controllerURL stateDir keyFile file =
     (case controllerOrigin url_parse url_string controllerURL of
        Inl _ \<Rightarrow> (Inl (ErrMsg ''controller must be an HTTPS origin''), keyFile)
      | Inr origin \<Rightarrow>
          if stateDir = [] then (Inl (ErrMsg ''controller must be an HTTPS origin''), keyFile)
          else case ci_statRegistration io of
            Some e \<Rightarrow> (Inl e, keyFile)
          | None \<Rightarrow>
              if file \<noteq> None \<and> (keyFile = None \<or> ci_statKey io \<noteq> None)
              then (Inl (ErrMsg ''persistent node identity is missing''), keyFile)
              else (case LoadNodeIdentity fromSeed (ci_identity io) keyFile of
                  (Inl e, k) \<Rightarrow> (Inl e, k)
                | (Inr key, k) \<Rightarrow> (load_registration (ci_readRegistration io) origin inst key file, k)))"

text \<open>
  \<^verbatim>\<open>saveRegistration\<close> writes a temporary file and renames it: the file is the state or what it was.
  \<open>store_state\<close> is how every caller uses it, taking the change back if it could not be saved.
\<close>

definition saveRegistration :: "go_error option \<Rightarrow> enrollment_client \<Rightarrow> unit result \<times> enrollment_client" where
  "saveRegistration err c =
     (case err of Some e \<Rightarrow> (Inl e, c) | None \<Rightarrow> (Inr (), c\<lparr>ec_file := Some (ec_state c)\<rparr>))"

definition store_state :: "go_error option \<Rightarrow> node_registration \<Rightarrow> enrollment_client \<Rightarrow> unit result \<times> enrollment_client" where
  "store_state err r c =
     (case saveRegistration err (c\<lparr>ec_state := r\<rparr>) of
        (Inl e, c') \<Rightarrow> (Inl e, c'\<lparr>ec_state := ec_state c\<rparr>)
      | (Inr _, c') \<Rightarrow> (Inr (), c'))"

definition SetControllerURL ::
    "(string \<Rightarrow> url option) \<Rightarrow> (url \<Rightarrow> string) \<Rightarrow> string \<Rightarrow> go_error option \<Rightarrow> enrollment_client \<Rightarrow> unit result \<times> enrollment_client" where
  "SetControllerURL url_parse url_string v err c =
     (case controllerOrigin url_parse url_string v of
        Inl e \<Rightarrow> (Inl e, c)
      | Inr origin \<Rightarrow>
          if bound (ec_state c) then (Inl (ErrMsg ''node is already bound to a controller''), c)
          else store_state err ((ec_state c)\<lparr>rg_ControllerURL := origin\<rparr>) c)"

definition ClearRegistration :: "go_error option \<Rightarrow> enrollment_client \<Rightarrow> node_session result \<times> enrollment_client" where
  "ClearRegistration err c =
     (case store_state err (unregistered (rg_ControllerURL (ec_state c))) c of
        (Inl e, c') \<Rightarrow> (Inl e, c')
      | (Inr _, c') \<Rightarrow> (Inr (rg_Session (ec_state c)), c'\<lparr>ec_controlStatus := zero_status\<rparr>))"

section \<open>Requests\<close>

text \<open>
  What comes back for a request: it could not be built, it could not be sent, or a status with a
  body, as its length (\<open>None\<close> if reading failed), the value it decodes to, and the
  code it carries as the report of a failure.
\<close>

datatype 'a reply = BadRequest | NoReply | Reply nat "nat option" "'a option" "string option"

definition ErrEnrollmentCodeRejected :: go_error where
  "ErrEnrollmentCodeRejected = ErrMsg ''enrollment code rejected''"

definition errEnrollmentProofRejected :: go_error where
  "errEnrollmentProofRejected = ErrMsg ''enrollment proof rejected''"

definition errNodeSessionRejected :: go_error where
  "errNodeSessionRejected = ErrMsg ''node session rejected''"

definition rejection :: "string \<Rightarrow> string \<Rightarrow> nat \<Rightarrow> nat option \<Rightarrow> string option \<Rightarrow> go_error" where
  "rejection path token status len code =
     (if (status = 401 \<or> status = 403) \<and> path = ''/cluster/v1/enroll/challenge'' then ErrEnrollmentCodeRejected
      else if (status = 401 \<or> status = 403) \<and> path = ''/cluster/v1/enroll'' then errEnrollmentProofRejected
      else if token \<noteq> [] \<and> status = 401 then errNodeSessionRejected
      else if path = ''/cluster/v1/session'' \<and> status = 409 \<and> len \<noteq> None \<and> the len \<le> 4096 \<and> code = Some ''identity_conflict''
      then ErrIdentityConflict
      else ErrMsg ''controller rejected node request'')"

definition post :: "string \<Rightarrow> string \<Rightarrow> 'a reply \<Rightarrow> 'a result" where
  "post path token reply =
     (case reply of
        BadRequest \<Rightarrow> Inl (ErrMsg ''invalid controller request'')
      | NoReply \<Rightarrow> Inl (ErrMsg ''controller HTTPS request failed'')
      | Reply status len body code \<Rightarrow>
          if status \<noteq> 200 then Inl (rejection path token status len code)
          else if len = None \<or> 65536 < the len then Inl (ErrMsg ''invalid controller response'')
          else (case body of None \<Rightarrow> Inl (ErrMsg ''invalid node response'') | Some x \<Rightarrow> Inr x))"

definition Release :: "bool reply \<Rightarrow> node_session \<Rightarrow> unit result" where
  "Release reply previous = bindE (post ''/cluster/v1/node/leave'' (ses_Token previous) reply) (\<lambda>_. Inr ())"

definition SetPorts :: "bool reply \<Rightarrow> int \<Rightarrow> int \<Rightarrow> enrollment_client \<Rightarrow> unit result" where
  "SetPorts reply derpPort stunPort c =
     bindE (failIf (derpPort < 1 \<or> 65535 < derpPort \<or> stunPort < 1 \<or> 65535 < stunPort) (ErrMsg ''invalid public ports'')) (\<lambda>_.
     bindE (post ''/cluster/v1/node/ports'' (ses_Token (rg_Session (ec_state c))) reply) (\<lambda>_. Inr ()))"

section \<open>Enrolment\<close>

definition validChallenge :: "env \<Rightarrow> time \<Rightarrow> enrollment_client \<Rightarrow> node_challenge \<Rightarrow> string \<Rightarrow> bool" where
  "validChallenge E now c ch purpose \<longleftrightarrow>
     ch_Purpose ch = purpose \<and> validNodeToken (ch_ClusterID ch) \<and> validNodeToken (ch_NodeID ch) \<and> validNodeToken (ch_Nonce ch)
     \<and> ch_Domain ch \<noteq> [] \<and> ch_InstanceID ch = ec_instanceID c \<and> ch_PublicKey ch = ed_public E (ec_privateKey c)
     \<and> now < ch_ExpiresAt ch \<and> ch_ExpiresAt ch < now + 180 * second"

definition session_bound :: "time \<Rightarrow> node_session \<Rightarrow> node_challenge \<Rightarrow> bool" where
  "session_bound now session ch \<longleftrightarrow>
     ses_ClusterID session = ch_ClusterID ch \<and> ses_NodeID session = ch_NodeID ch \<and> ses_InstanceID session = ch_InstanceID ch
     \<and> validNodeToken (ses_Token session) \<and> now < ses_ExpiresAt session \<and> ses_ExpiresAt session \<le> now + 3660 * second
     \<and> ses_LeaseUntil session \<noteq> zero_time \<and> ses_LeaseUntil session \<le> ses_ExpiresAt session
     \<and> ses_LeaseUntil session \<le> now + 120 * second"

definition acceptSession ::
    "time \<Rightarrow> go_error option \<Rightarrow> node_session \<Rightarrow> node_challenge \<Rightarrow> enrollment_client \<Rightarrow> unit result \<times> enrollment_client" where
  "acceptSession now err session ch c =
     (if \<not> session_bound now session ch then (Inl (ErrMsg ''controller returned a differently bound session''), c)
      else store_state err ((ec_state c)\<lparr>rg_Session := session, rg_Domain := ch_Domain ch, rg_Pending := None\<rparr>) c)"

definition PendingEnrollmentCode :: "enrollment_client \<Rightarrow> string" where
  "PendingEnrollmentCode c = (case rg_Pending (ec_state c) of Some r \<Rightarrow> er_Code r | None \<Rightarrow> [])"

text \<open>
  What \<^verbatim>\<open>Enroll\<close> meets in each of its attempts: the times of the two answers, the answers of the controller, and how
  the three writes end.
\<close>

record enroll_world =
  ew_now :: "nat \<Rightarrow> time"
  ew_now' :: "nat \<Rightarrow> time"
  ew_challenge :: "nat \<Rightarrow> string \<Rightarrow> string \<Rightarrow> string \<Rightarrow> node_challenge reply"
  ew_enroll :: "nat \<Rightarrow> enrollment_request \<Rightarrow> node_session reply"
  ew_savePending :: "nat \<Rightarrow> go_error option"
  ew_saveDropped :: "nat \<Rightarrow> go_error option"
  ew_saveSession :: "nat \<Rightarrow> go_error option"

text \<open>The request an attempt sends: the pending one if it is for this code, or a new one, saved before it is sent.\<close>

definition new_request ::
    "env \<Rightarrow> enroll_world \<Rightarrow> nat \<Rightarrow> string \<Rightarrow> enrollment_client \<Rightarrow> enrollment_request result \<times> enrollment_client" where
  "new_request E w k code c =
     (case post ''/cluster/v1/enroll/challenge'' [] (ew_challenge w k code (ed_public E (ec_privateKey c)) (ec_instanceID c)) of
        Inl e \<Rightarrow> (Inl e, c)
      | Inr ch \<Rightarrow>
          if \<not> validChallenge E (ew_now w k) c ch ''enroll'' then (Inl (ErrMsg ''invalid enrollment challenge''), c)
          else (let r = \<lparr>er_Code = code, er_Challenge = ch, er_Signature = ed_sign E (ec_privateKey c) ch\<rparr>
                in case store_state (ew_savePending w k) ((ec_state c)\<lparr>rg_Pending := Some r\<rparr>) c of
                     (Inl e, c') \<Rightarrow> (Inl e, c')
                   | (Inr _, c') \<Rightarrow> (Inr r, c')))"

definition pending_request ::
    "env \<Rightarrow> enroll_world \<Rightarrow> nat \<Rightarrow> string \<Rightarrow> enrollment_client \<Rightarrow> enrollment_request result \<times> enrollment_client" where
  "pending_request E w k code c =
     (case rg_Pending (ec_state c) of
        None \<Rightarrow> new_request E w k code c
      | Some r \<Rightarrow> if er_Code r \<noteq> code then new_request E w k code c else (Inr r, c))"

definition set_challenge :: "node_challenge \<Rightarrow> enrollment_client \<Rightarrow> enrollment_client" where
  "set_challenge ch c = c\<lparr>ec_responder := SetChallenge ch (ec_responder c)\<rparr>"

text \<open>One attempt; \<open>None\<close> is \<^verbatim>\<open>continue\<close>.\<close>

definition enroll_attempt ::
    "env \<Rightarrow> enroll_world \<Rightarrow> nat \<Rightarrow> string \<Rightarrow> enrollment_client \<Rightarrow> node_session result option \<times> enrollment_client" where
  "enroll_attempt E w k code c =
     (case pending_request E w k code c of
        (Inl e, c1) \<Rightarrow> (Some (Inl e), c1)
      | (Inr r, c1) \<Rightarrow>
          (let c2 = set_challenge (er_Challenge r) c1
           in case post ''/cluster/v1/enroll'' [] (ew_enroll w k r) of
             Inl e \<Rightarrow>
               if k = 0 \<and> e = errEnrollmentProofRejected \<and> \<not> ew_now' w k < ch_ExpiresAt (er_Challenge r)
               then (case store_state (ew_saveDropped w k) ((ec_state c2)\<lparr>rg_Pending := None\<rparr>) c2 of
                       (Inl e', c3) \<Rightarrow> (Some (Inl e'), c3)
                     | (Inr _, c3) \<Rightarrow> (None, c3))
               else (Some (Inl e), c2)
           | Inr session \<Rightarrow>
               (case acceptSession (ew_now' w k) (ew_saveSession w k) session (er_Challenge r) c2 of
                  (Inl e, c3) \<Rightarrow> (Some (Inl e), c3)
                | (Inr _, c3) \<Rightarrow> (Some (Inr session), c3))))"

function enroll_loop ::
    "env \<Rightarrow> enroll_world \<Rightarrow> nat \<Rightarrow> string \<Rightarrow> enrollment_client \<Rightarrow> node_session result \<times> enrollment_client" where
  "enroll_loop E w k code c =
     (if k < 2
      then (case enroll_attempt E w k code c of
              (Some r, c') \<Rightarrow> (r, c')
            | (None, c') \<Rightarrow> enroll_loop E w (k + 1) code c')
      else (Inl errEnrollmentProofRejected, c))"
  by pat_completeness auto

termination by (relation "measure (\<lambda>(E, w, k, code, c). 2 - k)") auto

declare enroll_loop.simps [simp del]

definition Enroll :: "env \<Rightarrow> enroll_world \<Rightarrow> string \<Rightarrow> enrollment_client \<Rightarrow> node_session result \<times> enrollment_client" where
  "Enroll E w code c =
     (if \<not> validNodeToken code then (Inl (ErrMsg ''invalid enrollment code''), c)
      else if ses_NodeID (rg_Session (ec_state c)) \<noteq> [] then (Inl (ErrMsg ''node is already registered''), c)
      else enroll_loop E w 0 code c)"

section \<open>Renewal\<close>

text \<open>The requests for a challenge and for a session, and the times they are answered at.\<close>

record renew_world =
  rw_now :: time
  rw_challenge :: "string \<Rightarrow> string \<Rightarrow> node_challenge reply"
  rw_now' :: time
  rw_session :: "node_challenge \<Rightarrow> string \<Rightarrow> node_session reply"
  rw_save :: "go_error option"

definition renewal_challenge :: "env \<Rightarrow> time \<Rightarrow> enrollment_client \<Rightarrow> node_challenge \<Rightarrow> bool" where
  "renewal_challenge E now c ch \<longleftrightarrow>
     (validChallenge E now c ch ''session'' \<and> ch_Domain ch = rg_Domain (ec_state c) \<or> validChallenge E now c ch ''domain_change'')
     \<and> ch_NodeID ch = ses_NodeID (rg_Session (ec_state c)) \<and> ch_ClusterID ch = ses_ClusterID (rg_Session (ec_state c))"

definition RenewSession :: "env \<Rightarrow> renew_world \<Rightarrow> enrollment_client \<Rightarrow> node_session result \<times> enrollment_client" where
  "RenewSession E w c =
     (if ses_NodeID (rg_Session (ec_state c)) = [] then (Inl (ErrMsg ''node is not registered''), c)
      else case post ''/cluster/v1/session/challenge'' [] (rw_challenge w (ses_NodeID (rg_Session (ec_state c))) (ec_instanceID c)) of
        Inl e \<Rightarrow> (Inl e, c)
      | Inr ch \<Rightarrow>
          if \<not> renewal_challenge E (rw_now w) c ch then (Inl (ErrMsg ''invalid session challenge''), c)
          else (let c1 = (if ch_Purpose ch = ''domain_change'' then set_challenge ch c else c)
                in case post ''/cluster/v1/session'' [] (rw_session w ch (ed_sign E (ec_privateKey c) ch)) of
                  Inl e \<Rightarrow> (Inl e, c1)
                | Inr session \<Rightarrow>
                    (case acceptSession (rw_now' w) (rw_save w) session ch c1 of
                       (Inl e, c2) \<Rightarrow> (Inl e, c2)
                     | (Inr _, c2) \<Rightarrow> (Inr session, c2))))"

text \<open>A heartbeat moves the lease of the session, \<^verbatim>\<open>controlHeartbeats\<close>.\<close>

definition move_lease :: "time \<Rightarrow> go_error option \<Rightarrow> enrollment_client \<Rightarrow> unit result \<times> enrollment_client" where
  "move_lease until err c =
     store_state err ((ec_state c)\<lparr>rg_Session := (rg_Session (ec_state c))\<lparr>ses_LeaseUntil := until\<rparr>\<rparr>) c"

section \<open>What is on disk\<close>

lemma store_state_eq:
  "store_state err r c = (case err of Some e \<Rightarrow> (Inl e, c) | None \<Rightarrow> (Inr (), c\<lparr>ec_state := r, ec_file := Some r\<rparr>))"
  by (simp add: store_state_def saveRegistration_def split: option.split)

text \<open>A state in memory that survives a restart: whatever the operations do, what is read back is what was in memory.\<close>

locale durable_state =
  fixes step :: "'s \<Rightarrow> 's \<Rightarrow> bool" and synced :: "'s \<Rightarrow> bool" and fits :: "'s \<Rightarrow> bool"
    and recover :: "'s \<Rightarrow> 'r option" and memory :: "'s \<Rightarrow> 'r"
  assumes synced_step: "step s t \<Longrightarrow> synced s \<Longrightarrow> synced t"
    and recover_synced: "synced s \<Longrightarrow> fits s \<Longrightarrow> recover s = Some (memory s)"
begin

lemma synced_steps: "step\<^sup>*\<^sup>* s t \<Longrightarrow> synced s \<Longrightarrow> synced t"
  by (induction rule: rtranclp_induct) (auto intro: synced_step)

lemma recovered: "step\<^sup>*\<^sup>* s t \<Longrightarrow> synced s \<Longrightarrow> fits t \<Longrightarrow> recover t = Some (memory t)"
  using synced_steps recover_synced by blast

end

text \<open>
  The registration is on disk, or there is none yet. Only the address of the controller may
  differ, and only while the node is not bound to one.
\<close>

definition synced :: "enrollment_client \<Rightarrow> bool" where
  "synced c \<longleftrightarrow>
     (case ec_file c of
        None \<Rightarrow> ec_state c = unregistered (rg_ControllerURL (ec_state c))
      | Some r \<Rightarrow> ec_state c = r \<or> \<not> bound r \<and> ec_state c = r\<lparr>rg_ControllerURL := rg_ControllerURL (ec_state c)\<rparr>)"

inductive client_step :: "env \<Rightarrow> enrollment_client \<Rightarrow> enrollment_client \<Rightarrow> bool" for E where
  set_url: "client_step E c (snd (SetControllerURL url_parse url_string v err c))"
| clear: "client_step E c (snd (ClearRegistration err c))"
| enroll: "client_step E c (snd (Enroll E w code c))"
| renew: "client_step E c (snd (RenewSession E rw c))"
| lease: "client_step E c (snd (move_lease until err c))"

text \<open>Starting again: the registration file read back under the address the node is configured with.\<close>

definition restart :: "(node_registration \<Rightarrow> nat) \<Rightarrow> string \<Rightarrow> enrollment_client \<Rightarrow> enrollment_client result" where
  "restart len inst c = load_registration None (rg_ControllerURL (ec_state c)) inst (ec_privateKey c)
     (map_option (\<lambda>r. (len r, Some r)) (ec_file c))"

definition fits_file :: "(node_registration \<Rightarrow> nat) \<Rightarrow> enrollment_client \<Rightarrow> bool" where
  "fits_file len c = (case ec_file c of None \<Rightarrow> True | Some r \<Rightarrow> len r \<le> 65536)"

lemma synced_frame [simp]:
  "synced (c\<lparr>ec_responder := h\<rparr>) = synced c" "synced (c\<lparr>ec_controlStatus := st\<rparr>) = synced c"
  "synced (c\<lparr>ec_state := r, ec_file := Some r\<rparr>)" "synced (set_challenge ch c) = synced c"
  by (simp_all add: synced_def set_challenge_def split: option.split)

lemma synced_store: "synced c \<Longrightarrow> synced (snd (store_state err r c))"
  by (simp add: store_state_eq split: option.split)

lemma synced_accept: "synced c \<Longrightarrow> synced (snd (acceptSession now err session ch c))"
  by (simp add: acceptSession_def synced_store)

lemma synced_request: "synced c \<Longrightarrow> synced (snd (pending_request E w k code c))"
  by (auto simp: pending_request_def new_request_def Let_def store_state_eq split: sum.split option.split)

lemma synced_attempt: "synced c \<Longrightarrow> synced (snd (enroll_attempt E w k code c))"
  using synced_request [of c E w k code]
  by (auto simp: enroll_attempt_def Let_def store_state_eq acceptSession_def split: sum.split option.split prod.split)

lemma synced_loop: "synced c \<Longrightarrow> synced (snd (enroll_loop E w k code c))"
proof (induction E w k code c rule: enroll_loop.induct)
  case (1 E w k code c)
  obtain r c' where a: "enroll_attempt E w k code c = (r, c')" by (cases "enroll_attempt E w k code c")
  with synced_attempt [OF 1(2), of E w k code] have "synced c'" by simp
  with 1 a show ?case by (subst enroll_loop.simps) (auto split: option.split)
qed

lemma synced_renew: "synced c \<Longrightarrow> synced (snd (RenewSession E w c))"
  by (auto simp: RenewSession_def Let_def acceptSession_def store_state_eq split: sum.split option.split)

interpretation reg: durable_state "client_step E" synced "fits_file len"
    "\<lambda>c. case restart len inst c of Inl _ \<Rightarrow> None | Inr c' \<Rightarrow> Some (ec_state c')" ec_state for E len inst
proof
  fix s t assume "client_step E s t" and s: "synced s"
  then show "synced t"
  proof (cases rule: client_step.cases)
    case (set_url url_parse url_string v err)
    with s show ?thesis by (auto simp: SetControllerURL_def synced_store split: sum.split)
  next
    case (clear err)
    with s show ?thesis by (auto simp: ClearRegistration_def store_state_eq split: option.split)
  next
    case (enroll w code)
    with s show ?thesis by (simp add: Enroll_def synced_loop)
  next
    case (renew rw)
    with s show ?thesis by (simp add: synced_renew)
  next
    case (lease until err)
    with s show ?thesis by (simp add: move_lease_def synced_store)
  qed
next
  fix s assume "synced s" "fits_file len s"
  then show "(case restart len inst s of Inl _ \<Rightarrow> None | Inr c' \<Rightarrow> Some (ec_state c')) = Some (ec_state s)"
    by (auto simp: synced_def fits_file_def restart_def load_registration_def Let_def split: option.splits)
qed

section \<open>What an exchange with the controller changes\<close>

lemma acceptSession_Inr:
  assumes "acceptSession now err session ch c = (Inr u, c')"
  shows "session_bound now session ch \<and> ec_state c' = (ec_state c)\<lparr>rg_Session := session, rg_Domain := ch_Domain ch, rg_Pending := None\<rparr>
    \<and> ec_file c' = Some (ec_state c')"
  using assms by (auto simp: acceptSession_def store_state_eq split: if_splits option.splits)

lemma acceptSession_Inl: "acceptSession now err session ch c = (Inl e, c') \<Longrightarrow> c' = c"
  by (auto simp: acceptSession_def store_state_eq split: if_splits option.splits)

lemma set_challenge_state [simp]:
  "ec_state (set_challenge ch c) = ec_state c" "ec_privateKey (set_challenge ch c) = ec_privateKey c"
  "ec_instanceID (set_challenge ch c) = ec_instanceID c" "ec_file (set_challenge ch c) = ec_file c"
  by (simp_all add: set_challenge_def)

text \<open>A request that an attempt may send: the pending one, or one that signs a challenge for this key and instance.\<close>

definition own_request :: "env \<Rightarrow> enroll_world \<Rightarrow> nat \<Rightarrow> string \<Rightarrow> enrollment_client \<Rightarrow> enrollment_request \<Rightarrow> bool" where
  "own_request E w k code c r \<longleftrightarrow> er_Code r = code \<and>
     (rg_Pending (ec_state c) = Some r
      \<or> validChallenge E (ew_now w k) c (er_Challenge r) ''enroll'' \<and> er_Signature r = ed_sign E (ec_privateKey c) (er_Challenge r))"

definition requested :: "env \<Rightarrow> enroll_world \<Rightarrow> nat \<Rightarrow> string \<Rightarrow> enrollment_client \<Rightarrow> enrollment_request result \<times> enrollment_client \<Rightarrow> bool" where
  "requested E w k code c res \<longleftrightarrow>
     (case fst res of
        Inl e \<Rightarrow> snd res = c
      | Inr r \<Rightarrow> own_request E w k code c r \<and> ec_state (snd res) = (ec_state c)\<lparr>rg_Pending := Some r\<rparr>
          \<and> ec_privateKey (snd res) = ec_privateKey c \<and> ec_instanceID (snd res) = ec_instanceID c)"

lemma requested_new: "requested E w k code c (new_request E w k code c)"
  by (auto simp: new_request_def requested_def Let_def store_state_eq own_request_def split: sum.splits option.splits)

lemma requested_pending: "requested E w k code c (pending_request E w k code c)"
  using requested_new [of E w k code c] by (cases "ec_state c") (auto simp: pending_request_def requested_def own_request_def split: option.split)

text \<open>What an attempt leaves behind: a session that belongs to the request, or the session it found.\<close>

definition attempted ::
    "env \<Rightarrow> enroll_world \<Rightarrow> nat \<Rightarrow> string \<Rightarrow> enrollment_client \<Rightarrow> node_session result \<Rightarrow> enrollment_client \<Rightarrow> bool" where
  "attempted E w k code c r c' \<longleftrightarrow>
     (case r of
        Inl e \<Rightarrow> rg_Session (ec_state c') = rg_Session (ec_state c) \<and> rg_Domain (ec_state c') = rg_Domain (ec_state c)
      | Inr session \<Rightarrow> (\<exists>req. own_request E w k code c req \<and> post ''/cluster/v1/enroll'' [] (ew_enroll w k req) = Inr session
          \<and> session_bound (ew_now' w k) session (er_Challenge req)
          \<and> ec_state c' = (ec_state c)\<lparr>rg_Session := session, rg_Domain := ch_Domain (er_Challenge req), rg_Pending := None\<rparr>
          \<and> ec_file c' = Some (ec_state c')))"

lemma enroll_attempt_Some: "enroll_attempt E w k code c = (Some r, c') \<Longrightarrow> attempted E w k code c r c'"
  using requested_pending [of E w k code c] unfolding enroll_attempt_def
  by (auto simp: requested_def attempted_def Let_def store_state_eq
      split: prod.splits sum.splits option.splits if_splits dest!: acceptSession_Inl acceptSession_Inr)

lemma enroll_attempt_None:
  "enroll_attempt E w k code c = (None, c') \<Longrightarrow> k = 0 \<and> ec_state c' = (ec_state c)\<lparr>rg_Pending := None\<rparr>
     \<and> ec_privateKey c' = ec_privateKey c \<and> ec_instanceID c' = ec_instanceID c"
  using requested_pending [of E w k code c] unfolding enroll_attempt_def
  by (auto simp: requested_def Let_def store_state_eq split: prod.splits sum.splits option.splits if_splits)

lemma Enroll_attempted:
  assumes "Enroll E w code c = (r, c')"
  shows "\<exists>k. attempted E w k code c r c'"
proof (cases "validNodeToken code \<and> ses_NodeID (rg_Session (ec_state c)) = []")
  case False
  with assms show ?thesis by (auto simp: Enroll_def attempted_def split: if_splits)
next
  case True
  obtain r0 c0 where a0: "enroll_attempt E w 0 code c = (r0, c0)" by (cases "enroll_attempt E w 0 code c")
  obtain r1 c1 where a1: "enroll_attempt E w 1 code c0 = (r1, c1)" by (cases "enroll_attempt E w 1 code c0")
  from True assms have eq: "enroll_loop E w 0 code c = (r, c')" by (simp add: Enroll_def)
  show ?thesis
  proof (cases r0)
    case (Some r0')
    with eq a0 have "enroll_attempt E w 0 code c = (Some r, c')" by (simp add: enroll_loop.simps [of E w 0])
    then show ?thesis using enroll_attempt_Some by blast
  next
    case None
    with a0 have dropped: "ec_state c0 = (ec_state c)\<lparr>rg_Pending := None\<rparr>" "ec_privateKey c0 = ec_privateKey c"
      "ec_instanceID c0 = ec_instanceID c" using enroll_attempt_None by blast+
    from None a1 have "r1 \<noteq> None" using enroll_attempt_None [of E w 1 code c0 c1] by auto
    with None eq a0 a1 have "enroll_attempt E w 1 code c0 = (Some r, c')"
      by (auto simp: enroll_loop.simps [of E w 0] enroll_loop.simps [of E w "Suc 0"])
    then have "attempted E w 1 code c0 r c'" by (rule enroll_attempt_Some)
    then have "attempted E w 1 code c r c'"
      by (auto simp: attempted_def own_request_def dropped validChallenge_def split: sum.splits)
    then show ?thesis ..
  qed
qed

section \<open>The key stays the same\<close>

lemma LoadNodeIdentity_again:
  assumes "LoadNodeIdentity fromSeed io file = (Inr key, file')"
    and "\<And>k. ii_key io = Inr k \<Longrightarrow> valid_identity fromSeed k" and "ii_read io' = None" "ii_chmod io' = None"
  shows "LoadNodeIdentity fromSeed io' file' = (Inr key, file')"
  using assms by (auto simp: LoadNodeIdentity_def create_identity_def split: option.splits sum.splits if_splits)

text \<open>
  A key file that was not written to its end stays, and no later start gets past it:
  \<^verbatim>\<open>LoadNodeIdentity\<close> does not remove it, and refuses to read it.
\<close>

lemma truncated_key_stays:
  assumes "ii_read io = None" "ii_mkdir io = None" "ii_key io = Inr key" "ii_open io = None" "ii_write io = Some (n, e)" "n < 64"
  shows "snd (LoadNodeIdentity fromSeed io None) = Some (take n key)
    \<and> fst (LoadNodeIdentity fromSeed io' (Some (take n key))) \<noteq> Inr k"
  using assms by (auto simp: LoadNodeIdentity_def create_identity_def valid_identity_def split: option.split)

section \<open>Properties\<close>


text \<open>C37: Enrolment yields only a session for the request that was sent: when \<^verbatim>\<open>Enroll\<close> returns a session, it is the
  controller's answer to the pending request for this code or to a new one that signs a valid challenge for the
  node's own key and instance, it names the cluster, node and instance of that challenge, its lifetime and lease are
  within bounds, and it is on disk with nothing pending. Otherwise the session and domain of the node are what they were.\<close>

theorem enroll_bound:
  assumes "Enroll E w code c = (r, c')"
  shows "case r of
      Inl e \<Rightarrow> rg_Session (ec_state c') = rg_Session (ec_state c) \<and> rg_Domain (ec_state c') = rg_Domain (ec_state c)
    | Inr session \<Rightarrow> \<exists>k req. own_request E w k code c req \<and> post ''/cluster/v1/enroll'' [] (ew_enroll w k req) = Inr session
        \<and> session_bound (ew_now' w k) session (er_Challenge req)
        \<and> ec_state c' = (ec_state c)\<lparr>rg_Session := session, rg_Domain := ch_Domain (er_Challenge req), rg_Pending := None\<rparr>
        \<and> ec_file c' = Some (ec_state c')"
proof -
  from Enroll_attempted [OF assms] obtain k where k: "attempted E w k code c r c'" ..
  show ?thesis
  proof (cases r)
    case (Inl e)
    with k show ?thesis by (simp add: attempted_def)
  next
    case (Inr session)
    with k show ?thesis unfolding attempted_def Inr sum.case by blast
  qed
qed

lemma minted_bound:
  assumes "ses_ExpiresAt session = truncate_second (now + 3600 * second)" "ses_LeaseUntil session = truncate_second (now + 90 * second)"
    and "ses_ClusterID session = ch_ClusterID c" "ses_NodeID session = ch_NodeID c" "ses_InstanceID session = ch_InstanceID c"
    and "validNodeToken (ses_Token session)" "0 \<le> now" "now - 30 * second \<le> t" "t < now + 3599 * second"
  shows "session_bound t session c"
proof -
  have "now + 3599 * second < truncate_second (now + 3600 * second)" "0 \<le> truncate_second (now + 90 * second)"
    using assms(7) by (simp_all add: truncate_second_def unix_def unix_time_def second_def)
  moreover have "truncate_second (now + 90 * second) \<le> truncate_second (now + 3600 * second)"
    by (simp add: truncate_second_def unix_def unix_time_def second_def zdiv_mono1)
  moreover have "truncate_second (now + 90 * second) \<noteq> zero_time" using calculation(2) by (simp add: zero_time_def)
  ultimately show ?thesis
    using assms truncate_second_le [of "now + 3600 * second"] truncate_second_le [of "now + 90 * second"]
    by (simp add: session_bound_def second_def)
qed

lemma mint_session:
  assumes "mintNodeSession E s rid inst token now = Inr (session, s')"
  shows "session = \<lparr>ses_ClusterID = clusterID s, ses_NodeID = rid, ses_InstanceID = inst, ses_Token = token,
     ses_ExpiresAt = truncate_second (now + 3600 * second), ses_LeaseUntil = truncate_second (now + 90 * second)\<rparr>"
  using assms by (auto simp: mintNodeSession_def Let_def bindE_Inr_iff)

definition minted :: "string \<Rightarrow> time \<Rightarrow> node_challenge \<Rightarrow> node_session" where
  "minted token now c = \<lparr>ses_ClusterID = ch_ClusterID c, ses_NodeID = ch_NodeID c, ses_InstanceID = ch_InstanceID c, ses_Token = token,
     ses_ExpiresAt = truncate_second (now + 3600 * second), ses_LeaseUntil = truncate_second (now + 90 * second)\<rparr>"

lemma check_cluster: "checkNodeChallenge E s c sig purpose now = Inr u \<Longrightarrow> ch_ClusterID c = clusterID s"
  by (auto simp: checkNodeChallenge_def bindE_Inr_iff failIf_def split: if_splits)

lemma enroll_minted:
  assumes "enrollmentReceipt E s req now = Inr None" and "enroll_commit E s req token nonce now = Inr (session, s')"
  shows "session = minted token now (er_Challenge req)"
  using assms(2)
proof (rule enroll_commit_cases)
  assume "enrollmentReceipt E s req now = Inr (Some session)"
  with assms(1) show ?thesis by simp
next
  fix n
  let ?c = "er_Challenge req" let ?s0 = "ensure_policy_row (ch_NodeID ?c) (register_node ?c now s)"
  assume c: "checkNodeChallenge E s ?c (er_Signature req) ''enroll'' now = Inr ()"
    and "enroll_register E s req n token nonce now = Inr (session, s')"
  then obtain p s1 s2 where b: "buildPolicy E ?s0 (ch_NodeID ?c) now = Inr (p, s1)"
    and m: "mintNodeSession E (use_challenge E ?c now s1) (ch_NodeID ?c) (ch_InstanceID ?c) token now = Inr (session, s2)"
    by (auto elim: enroll_register_Inr)
  have "clusterID s1 = clusterID s"
    using arg_cong [OF buildPolicy_same [OF b, unfolded same_but_policies_def], of clusterID]
    by (simp add: ensure_policy_row_def register_node_def)
  with mint_session [OF m] check_cluster [OF c] show ?thesis by (simp add: minted_def)
qed

lemma renew_minted:
  assumes "renew_commit E s c sig token now = (Inr session, s')"
  shows "session = minted token now c"
proof (rule renew_commit_cases [of E s c sig token now])
  fix n session0 s0
  assume "renew_commit E s c sig token now = (Inr session0, s0)" and c: "checkNodeChallenge E s c sig (ch_Purpose c) now = Inr ()"
    and g: "renew_grant E s c n token now = Inr (session0, s0)"
  then have "session0 = session" using assms by simp
  moreover from g obtain s2 where "mintNodeSession E s2 (ch_NodeID c) (ch_InstanceID c) token now = Inr (session0, s0)" "clusterID s2 = clusterID s"
    unfolding renew_grant_def Let_def by (auto split: if_splits)
  ultimately show ?thesis using check_cluster [OF c] by (auto simp: minted_def dest!: mint_session)
qed (use assms in auto)

text \<open>C38: A node accepts every session its controller gives it: a session that enrolment or renewal grants for a challenge
  passes all checks the node makes of it against that challenge and becomes its session, on disk and in memory, as long as
  the node's clock is at most half a minute behind the controller's and the session has more than a second left.\<close>

theorem granted_session_accepted:
  assumes "RenewNodeSession E s0 s verified ch sig token now0 now = (Inr session, s')
    \<or> enrollmentReceipt E s req now = Inr None \<and> enroll_commit E s req token nonce now = Inr (session, s') \<and> ch = er_Challenge req"
    and "validNodeToken token" and "0 \<le> now" and "now - 30 * second \<le> t" and "t < now + 3599 * second"
  shows "\<exists>c'. acceptSession t None session ch c = (Inr (), c') \<and> rg_Session (ec_state c') = session
    \<and> rg_Pending (ec_state c') = None \<and> ec_file c' = Some (ec_state c')"
proof -
  have "session = minted token now ch"
    using assms(1) enroll_minted renew_minted by (auto simp: RenewNodeSession_def split: if_splits sum.splits)
  then have "session_bound t session ch" using assms(2-5) by (intro minted_bound) (simp_all add: minted_def)
  then show ?thesis by (simp add: acceptSession_def store_state_eq)
qed

section \<open>Witnesses\<close>

definition agent_challenge :: node_challenge where
  "agent_challenge = \<lparr>ch_Purpose = ''enroll'', ch_ClusterID = sample_bearer, ch_NodeID = sample_code, ch_Domain = ''d.example'',
     ch_Nonce = replicate 64 CHR ''a'', ch_ExpiresAt = unix_time 400, ch_PublicKey = replicate 32 CHR ''k'', ch_InstanceID = ''i''\<rparr>"

definition agent :: enrollment_client where
  "agent = \<lparr>ec_privateKey = replicate 32 CHR ''k'', ec_instanceID = ''i'', ec_file = None, ec_state = unregistered ''https://c.example'',
     ec_responder = NewDomainResponder (replicate 32 CHR ''k''), ec_controlStatus = zero_status\<rparr>"

definition agent_world :: enroll_world where
  "agent_world = \<lparr>ew_now = (\<lambda>_. unix_time 300), ew_now' = (\<lambda>_. unix_time 301),
     ew_challenge = (\<lambda>_ _ _ _. Reply 200 (Some 500) (Some agent_challenge) None),
     ew_enroll = (\<lambda>_ r. Reply 200 (Some 500) (Some (minted sample_bearer (unix_time 300) (er_Challenge r))) None),
     ew_savePending = (\<lambda>_. None), ew_saveDropped = (\<lambda>_. None), ew_saveSession = (\<lambda>_. None)\<rparr>"

lemma sample_tokens: "validNodeToken sample_bearer" "validNodeToken sample_code" "validNodeToken (replicate 64 CHR ''a'')"
  using sample_bearer_ok by (simp_all add: validNodeToken_def sample_code_def hex_ok_def is_hex_def list_all_iff less_eq_char_def)

lemma agent_enrolls:
  "\<exists>c'. Enroll sample_env agent_world sample_code agent = (Inr (minted sample_bearer (unix_time 300) agent_challenge), c')
     \<and> ec_file c' = Some (ec_state c') \<and> rg_Session (ec_state c') = minted sample_bearer (unix_time 300) agent_challenge"
proof -
  have b: "session_bound (unix_time 301) (minted sample_bearer (unix_time 300) agent_challenge) agent_challenge"
    by (rule minted_bound [where now = "unix_time 300"]) (simp_all add: minted_def sample_tokens unix_time_def second_def)
  have v: "validChallenge sample_env (unix_time 300) agent agent_challenge ''enroll''"
    by (simp add: validChallenge_def agent_def agent_challenge_def sample_tokens sample_env_def unix_time_def second_def)
  show ?thesis
    by (simp add: Enroll_def sample_tokens enroll_loop.simps enroll_attempt_def pending_request_def new_request_def post_def agent_world_def
        v [unfolded agent_def unregistered_def zero_session_def] b acceptSession_def store_state_eq set_challenge_def Let_def agent_def unregistered_def zero_session_def)
qed


theorem enroll_bound_witness:
  "\<exists>(c' :: enrollment_client) k req. own_request sample_env agent_world k sample_code agent req
     \<and> session_bound (ew_now' agent_world k) (minted sample_bearer (unix_time 300) agent_challenge) (er_Challenge req)
     \<and> ec_file c' = Some (ec_state c')"
proof -
  from agent_enrolls obtain c' where "Enroll sample_env agent_world sample_code agent = (Inr (minted sample_bearer (unix_time 300) agent_challenge), c')"
    by blast
  from enroll_bound [OF this, unfolded sum.case] show ?thesis by blast
qed

theorem granted_session_accepted_witness:
  "\<exists>c'. acceptSession (unix_time 301) None sample_session sample_challenge agent = (Inr (), c') \<and> rg_Session (ec_state c') = sample_session"
proof -
  from sample_enroll obtain s' where
    s': "enroll_commit sample_env sample_waiting sample_request sample_bearer [] (unix_time 300) = Inr (sample_session, s')" ..
  have c: "sample_challenge = er_Challenge sample_request" by (simp add: sample_request_def)
  show ?thesis
    using granted_session_accepted [OF disjI2, OF conjI, OF sample_receipt conjI, OF s' c sample_tokens(1), of "unix_time 301" agent]
    by (auto simp: unix_time_def second_def)
qed

end
