(* ===== verification/ControlClient.thy ===== *)
theory ControlClient
  imports NodeClient
begin

text \<open>
  The node's side of the control stream, \<^verbatim>\<open>internal/cluster/client.go\<close>: what the node does with a
  message, with a heartbeat, and around its connections.

  A \<open>link\<close> is what the loop works on: the client, the cache files, and, to state what happened,
  the acknowledgements that were sent and the policies that were handed to \<^verbatim>\<open>apply\<close>, in order.
  \<^verbatim>\<open>apply\<close> is a parameter that may write the cache; the daemon passes \<open>ApplyPolicy\<close>.
\<close>

section \<open>Messages\<close>

record link =
  lk_client :: enrollment_client
  lk_files :: cache_files
  lk_acks :: "policy_ack list"
  lk_applied :: "policy list"

type_synonym apply_fn = "policy \<Rightarrow> cache_files \<Rightarrow> (policy_application \<times> unit result) \<times> cache_files"

definition set_status :: "(control_status \<Rightarrow> control_status) \<Rightarrow> link \<Rightarrow> link" where
  "set_status f l = l\<lparr>lk_client := (lk_client l)\<lparr>ec_controlStatus := f (ec_controlStatus (lk_client l))\<rparr>\<rparr>"

text \<open>A line of the stream: not a message, or a type and a policy.\<close>

datatype stream_line = Malformed | Message string "policy option"

text \<open>What handling one message meets: the times, the outcomes of the writes, the answers to the acknowledgements, the relay.\<close>

record message_world =
  mw_now :: time
  mw_saveNow :: time
  mw_w1 :: write_outcome
  mw_w2 :: write_outcome
  mw_ack :: "policy_ack \<Rightarrow> bool reply"
  mw_apply :: apply_fn

definition nack :: "policy \<Rightarrow> string \<Rightarrow> policy_ack" where
  "nack p err = \<lparr>ack_Revision = p_Revision p, ack_State = AckNack, ack_Usable = False, ack_Error = err\<rparr>"

definition send_ack :: "message_world \<Rightarrow> node_session \<Rightarrow> policy_ack \<Rightarrow> link \<Rightarrow> go_error option \<times> link" where
  "send_ack w session ack l =
     (case post ''/cluster/v1/ack'' (ses_Token session) (mw_ack w ack) of Inl e \<Rightarrow> Some e | Inr _ \<Rightarrow> None,
      l\<lparr>lk_acks := lk_acks l @ [ack]\<rparr>)"

text \<open>The policy is handed to the relay whether or not its receipt could be confirmed.\<close>

definition apply_message :: "message_world \<Rightarrow> policy \<Rightarrow> link \<Rightarrow> policy_ack \<times> link" where
  "apply_message w p l =
     (case mw_apply w p (lk_files l) of
        ((result, res), fs) \<Rightarrow>
          (let l1 = l\<lparr>lk_files := fs, lk_applied := lk_applied l @ [p]\<rparr>
           in if res \<noteq> Inr () \<or> pa_Revision result \<noteq> p_Revision p
              then (nack p ''apply_failed'', set_status (\<lambda>st. st\<lparr>st_Error := ''apply_failed''\<rparr>) l1)
              else (\<lparr>ack_Revision = pa_Revision result, ack_State = AckApplied, ack_Usable = pa_Usable result, ack_Error = []\<rparr>,
                    set_status (\<lambda>st. st\<lparr>st_AppliedRevision := pa_Revision result, st_Usable := pa_Usable result,
                      st_Traffic := pa_Traffic result, st_TrafficObservedAt := pa_TrafficObservedAt result, st_Error := []\<rparr>) l1)))"

definition accept_policy :: "message_world \<Rightarrow> node_session \<Rightarrow> policy \<Rightarrow> link \<Rightarrow> go_error option \<times> link" where
  "accept_policy w session p l =
     (case send_ack w session \<lparr>ack_Revision = p_Revision p, ack_State = AckReceived, ack_Usable = False, ack_Error = []\<rparr>
         (set_status (\<lambda>st. st\<lparr>st_ReceivedRevision := p_Revision p\<rparr>) l) of
        (receiveErr, l1) \<Rightarrow>
          (case apply_message w p l1 of
             (ack, l2) \<Rightarrow> (case receiveErr of Some e \<Rightarrow> (Some e, l2) | None \<Rightarrow> send_ack w session ack l2)))"

definition handle_policy :: "env \<Rightarrow> string \<Rightarrow> message_world \<Rightarrow> node_session \<Rightarrow> policy \<Rightarrow> link \<Rightarrow> go_error option \<times> link" where
  "handle_policy E path w session p l =
     (case ValidatePolicy E p (ses_ClusterID session) (ses_NodeID session) of
        Inl _ \<Rightarrow> send_ack w session (nack p ''invalid_policy'') l
      | Inr _ \<Rightarrow>
          (let l1 = set_status (\<lambda>st. st\<lparr>st_DesiredRevision := p_Revision p, st_LastContact := mw_now w\<rparr>) l
           in case saveCacheAt E path p (mw_saveNow w) (mw_w1 w) (mw_w2 w) (lk_files l1) of
                (Inl _, fs) \<Rightarrow> send_ack w session (nack p ''persist_failed'') (l1\<lparr>lk_files := fs\<rparr>)
              | (Inr _, fs) \<Rightarrow> accept_policy w session p (l1\<lparr>lk_files := fs\<rparr>)))"

text \<open>One round of the scanner's loop: an error ends the connection.\<close>

definition handle_message :: "env \<Rightarrow> string \<Rightarrow> message_world \<Rightarrow> node_session \<Rightarrow> stream_line \<Rightarrow> link \<Rightarrow> go_error option \<times> link" where
  "handle_message E path w session line l =
     (case line of
        Malformed \<Rightarrow> (Some (ErrMsg ''invalid control message''), l)
      | Message ty p \<Rightarrow>
          if ty = ''ping'' \<and> p = None then (None, set_status (\<lambda>st. st\<lparr>st_LastContact := mw_now w\<rparr>) l)
          else (case p of
              None \<Rightarrow> (Some (ErrMsg ''invalid control message''), l)
            | Some q \<Rightarrow> if ty \<noteq> ''policy'' then (Some (ErrMsg ''invalid control message''), l) else handle_policy E path w session q l))"

section \<open>Heartbeats\<close>

definition report_of :: "policy_application \<Rightarrow> node_report" where
  "report_of a = \<lparr>nr_LocalMaxBudgetBPS = pa_LocalMaxBudgetBPS a, nr_EffectiveBudgetBPS = Some (pa_EffectiveBudgetBPS a),
     nr_Revision = pa_Revision a, nr_Usable = pa_Usable a, nr_ObservedAt = pa_TrafficObservedAt a, nr_Traffic = pa_Traffic a,
     nr_ActiveConnections = Some (pa_ActiveConnections a)\<rparr>"

text \<open>The sample of the relay, if there is one, and what the status takes of it.\<close>

definition heartbeat_sample :: "(policy_application \<times> unit result) \<Rightarrow> link \<Rightarrow> node_report option \<times> link" where
  "heartbeat_sample sample l =
     (case sample of
        (a, res) \<Rightarrow>
          if res = Inr () \<and> pa_TrafficObservedAt a \<noteq> zero_time
          then (Some (report_of a),
                set_status (\<lambda>st. st\<lparr>st_Usable := pa_Usable a, st_Traffic := pa_Traffic a,
                  st_TrafficObservedAt := pa_TrafficObservedAt a, st_ActiveConnections := pa_ActiveConnections a\<rparr>) l)
          else (None, l))"

definition valid_heartbeat :: "node_session \<Rightarrow> node_heartbeat \<Rightarrow> bool" where
  "valid_heartbeat session h \<longleftrightarrow> hb_NodeID h = ses_NodeID session \<and> hb_LeaseUntil h \<noteq> zero_time
     \<and> 250 \<le> hb_IntervalMillis h \<and> hb_IntervalMillis h \<le> 30000"

text \<open>
  One round of \<^verbatim>\<open>controlHeartbeats\<close>: the time, the sample, the controller's answer to the report,
  the outcome of saving the lease, the time after it, and whether the wait was cut short.
\<close>

record beat_world =
  bw_now :: time
  bw_sample :: "policy_application \<times> unit result"
  bw_reply :: "node_report option \<Rightarrow> node_heartbeat reply"
  bw_save :: "go_error option"
  bw_later :: time
  bw_wait :: "go_error option"

definition heartbeat :: "beat_world \<Rightarrow> node_session \<Rightarrow> link \<Rightarrow> go_error option \<times> link" where
  "heartbeat w session l =
     (if \<not> bw_now w + 300 * second < ses_ExpiresAt session then (Some (ErrMsg ''node session needs renewal''), l)
      else case heartbeat_sample (bw_sample w) l of
        (report, l1) \<Rightarrow>
          (case post ''/cluster/v1/heartbeat'' (ses_Token session) (bw_reply w report) of
             Inl e \<Rightarrow> (Some e, l1)
           | Inr h \<Rightarrow>
               if \<not> valid_heartbeat session h then (Some (ErrMsg ''invalid node heartbeat''), l1)
               else (case move_lease (hb_LeaseUntil h) (bw_save w) (lk_client l1) of
                   (res, c) \<Rightarrow>
                     (case res of Inl _ \<Rightarrow> Some (ErrMsg ''node lease persistence failed'') | Inr _ \<Rightarrow> bw_wait w,
                      set_status (\<lambda>st. st\<lparr>st_LastContact := bw_later w\<rparr>) (l1\<lparr>lk_client := c\<rparr>)))))"

section \<open>A connection\<close>

text \<open>
  The stream is read while heartbeats are sent: any interleaving of their rounds. A heartbeat that
  fails is the last one; it cancels the requests of the connection, so the stream ends, and its
  error is the error of the connection unless a message that was still read ends with one.
\<close>

datatype link_event = Received message_world stream_line | Beat beat_world

fun link_events :: "env \<Rightarrow> string \<Rightarrow> node_session \<Rightarrow> link_event list \<Rightarrow> go_error option \<Rightarrow> link \<Rightarrow> go_error option \<times> link" where
  "link_events E path session [] hb l = (hb, l)"
| "link_events E path session (Received w line # es) hb l =
     (case handle_message E path w session line l of
        (Some e, l') \<Rightarrow> (Some e, l')
      | (None, l') \<Rightarrow> link_events E path session es hb l')"
| "link_events E path session (Beat w # es) hb l =
     (case hb of
        Some e \<Rightarrow> link_events E path session es hb l
      | None \<Rightarrow> (case heartbeat w session l of (err, l') \<Rightarrow> link_events E path session es err l'))"

datatype opened = OpenBad go_error | OpenFailed | OpenStatus nat

record connection =
  cx_open :: opened
  cx_events :: "link_event list"
  cx_scanError :: bool

definition controlConnection :: "env \<Rightarrow> string \<Rightarrow> node_session \<Rightarrow> connection \<Rightarrow> link \<Rightarrow> go_error \<times> link" where
  "controlConnection E path session x l =
     (case cx_open x of
        OpenBad e \<Rightarrow> (e, l)
      | OpenFailed \<Rightarrow> (ErrMsg ''controller stream unavailable'', l)
      | OpenStatus status \<Rightarrow>
          if status = 401 then (errNodeSessionRejected, l)
          else if status \<noteq> 200 then (ErrMsg ''controller stream rejected'', l)
          else (case link_events E path session (cx_events x) None (set_status (\<lambda>st. st\<lparr>st_Connected := True\<rparr>) l) of
              (Some e, l') \<Rightarrow> (e, l')
            | (None, l') \<Rightarrow> (ErrMsg (if cx_scanError x then ''controller stream disconnected'' else ''controller stream ended''), l')))"

section \<open>The control loop\<close>

record run_state =
  rs_link :: link
  rs_loaded :: bool
  rs_backoff :: time
  rs_renewRequired :: bool

text \<open>
  What one round of \<^verbatim>\<open>RunControl\<close> meets: whether the context is done at its start, in its waits and
  after the connection; an enrolment the operator asks for while the node is not registered; loading the cache and applying it; a renewal; a connection.
\<close>

record run_world =
  rn_ctx :: "go_error option"
  rn_waitIdle :: "go_error option"
  rn_enroll :: "(enroll_world \<times> string) option"
  rn_loadNow :: time
  rn_loadWrite :: write_outcome
  rn_apply :: apply_fn
  rn_waitLease :: "go_error option"
  rn_now :: time
  rn_renew :: renew_world
  rn_connection :: connection
  rn_ctxAfter :: "go_error option"
  rn_after :: time
  rn_waitBackoff :: "go_error option"

definition idle_enroll :: "env \<Rightarrow> run_world \<Rightarrow> link \<Rightarrow> link" where
  "idle_enroll E w l =
     (case rn_enroll w of None \<Rightarrow> l | Some (ew, code) \<Rightarrow> l\<lparr>lk_client := snd (Enroll E ew code (lk_client l))\<rparr>)"

definition load_policy :: "env \<Rightarrow> run_world \<Rightarrow> node_session \<Rightarrow> link \<Rightarrow> link" where
  "load_policy E w session l =
     (case LoadCache E (ses_ClusterID session) (ses_NodeID session) (rn_loadNow w) (rn_loadWrite w) (lk_files l) of
        (Inl _, fs) \<Rightarrow> l\<lparr>lk_files := fs\<rparr>
      | (Inr p, fs) \<Rightarrow>
          (case rn_apply w p fs of
             ((result, res), fs') \<Rightarrow>
               (let l1 = l\<lparr>lk_files := fs', lk_applied := lk_applied l @ [p]\<rparr>
                in if res = Inr () \<and> pa_Revision result = p_Revision p
                   then set_status (\<lambda>st. st\<lparr>st_ReceivedRevision := p_Revision p, st_AppliedRevision := pa_Revision result,
                          st_Usable := pa_Usable result, st_Traffic := pa_Traffic result,
                          st_TrafficObservedAt := pa_TrafficObservedAt result\<rparr>) l1
                   else l1)))"

definition conflict_link :: "link \<Rightarrow> link" where
  "conflict_link l = (set_status (\<lambda>st. st\<lparr>st_Error := ''identity_conflict'', st_Usable := False\<rparr>) l)\<lparr>lk_files := remove_snapshot (lk_files l)\<rparr>"

definition unavailable :: "link \<Rightarrow> link" where
  "unavailable = set_status (\<lambda>st. st\<lparr>st_Connected := False, st_Error := ''controller_unavailable''\<rparr>)"

definition wait_backoff :: "run_world \<Rightarrow> run_state \<Rightarrow> go_error option \<times> run_state" where
  "wait_backoff w st =
     (case rn_waitBackoff w of
        Some e \<Rightarrow> (Some e, st)
      | None \<Rightarrow> (None, st\<lparr>rs_backoff := min (rs_backoff st * 2) (30 * second)\<rparr>))"

text \<open>The first registered round starts from the cache and gives the lease of another instance time to run out.\<close>

definition start_round :: "env \<Rightarrow> run_world \<Rightarrow> node_session \<Rightarrow> run_state \<Rightarrow> go_error option \<times> run_state" where
  "start_round E w session st =
     (if rs_loaded st then (None, st)
      else (if ses_InstanceID session \<noteq> [] \<and> ses_InstanceID session \<noteq> ec_instanceID (lk_client (rs_link st)) then rn_waitLease w else None,
            st\<lparr>rs_loaded := True, rs_link := load_policy E w session (rs_link st)\<rparr>))"

definition connect_round :: "env \<Rightarrow> string \<Rightarrow> run_world \<Rightarrow> node_session \<Rightarrow> run_state \<Rightarrow> go_error option \<times> run_state" where
  "connect_round E path w session st =
     (case controlConnection E path session (rn_connection w) (rs_link st) of
        (err, l) \<Rightarrow>
          (case rn_ctxAfter w of
             Some e \<Rightarrow> (Some e, st\<lparr>rs_link := l\<rparr>)
           | None \<Rightarrow>
               if err = ErrIdentityConflict then (Some ErrIdentityConflict, st\<lparr>rs_link := conflict_link l\<rparr>)
               else (let contact = st_LastContact (ec_controlStatus (lk_client l));
                         st1 = st\<lparr>rs_link := unavailable l, rs_renewRequired := rs_renewRequired st \<or> err = errNodeSessionRejected\<rparr>
                     in wait_backoff w (if contact \<noteq> zero_time \<and> rn_after w - contact < 60 * second then st1\<lparr>rs_backoff := second\<rparr> else st1))))"

definition needs_renewal :: "run_world \<Rightarrow> node_session \<Rightarrow> run_state \<Rightarrow> bool" where
  "needs_renewal w session st \<longleftrightarrow> rs_renewRequired st \<or> ses_InstanceID session \<noteq> ec_instanceID (lk_client (rs_link st))
     \<or> \<not> rn_now w + 600 * second < ses_ExpiresAt session"

definition session_round :: "env \<Rightarrow> string \<Rightarrow> run_world \<Rightarrow> node_session \<Rightarrow> run_state \<Rightarrow> go_error option \<times> run_state" where
  "session_round E path w session st =
     (if \<not> needs_renewal w session st then connect_round E path w session st
      else case RenewSession E (rn_renew w) (lk_client (rs_link st)) of
        (Inr renewed, c) \<Rightarrow> connect_round E path w renewed (st\<lparr>rs_link := (rs_link st)\<lparr>lk_client := c\<rparr>, rs_renewRequired := False\<rparr>)
      | (Inl e, c) \<Rightarrow>
          if e = ErrIdentityConflict
          then (Some ErrIdentityConflict, st\<lparr>rs_link := conflict_link ((rs_link st)\<lparr>lk_client := c\<rparr>)\<rparr>)
          else wait_backoff w (st\<lparr>rs_link := unavailable ((rs_link st)\<lparr>lk_client := c\<rparr>)\<rparr>))"

text \<open>One round; an error is what \<^verbatim>\<open>RunControl\<close> returns.\<close>

definition run_round :: "env \<Rightarrow> string \<Rightarrow> run_world \<Rightarrow> run_state \<Rightarrow> go_error option \<times> run_state" where
  "run_round E path w st =
     (let session = rg_Session (ec_state (lk_client (rs_link st)))
      in case rn_ctx w of
        Some e \<Rightarrow> (Some e, st)
      | None \<Rightarrow>
          if ses_NodeID session = [] then (rn_waitIdle w, st\<lparr>rs_link := idle_enroll E w (rs_link st)\<rparr>)
          else (case start_round E w session st of
              (Some e, st1) \<Rightarrow> (Some e, st1)
            | (None, st1) \<Rightarrow> session_round E path w session st1))"

text \<open>\<^verbatim>\<open>RunControl\<close> over the rounds it makes; on return it is no longer connected.\<close>

fun run_rounds :: "env \<Rightarrow> string \<Rightarrow> run_world list \<Rightarrow> run_state \<Rightarrow> go_error option \<times> run_state" where
  "run_rounds E path [] st = (None, st)"
| "run_rounds E path (w # ws) st =
     (case run_round E path w st of
        (Some e, st') \<Rightarrow> (Some e, st'\<lparr>rs_link := set_status (\<lambda>s. s\<lparr>st_Connected := False\<rparr>) (rs_link st')\<rparr>)
      | (None, st') \<Rightarrow> run_rounds E path ws st')"

definition RunControl :: "env \<Rightarrow> string \<Rightarrow> run_world list \<Rightarrow> link \<Rightarrow> go_error option \<times> run_state" where
  "RunControl E path ws l =
     (let st = \<lparr>rs_link = l, rs_loaded = False, rs_backoff = second, rs_renewRequired = False\<rparr>
      in if path = [] then (Some (ErrMsg ''policy cache, application and status callbacks are required''), st)
         else run_rounds E path ws st)"

section \<open>What the loop changes\<close>

lemma set_status_frame [simp]:
  "lk_files (set_status f l) = lk_files l" "lk_acks (set_status f l) = lk_acks l" "lk_applied (set_status f l) = lk_applied l"
  "ec_state (lk_client (set_status f l)) = ec_state (lk_client l)" "PolicyBinding (lk_client (set_status f l)) = PolicyBinding (lk_client l)"
  "ec_file (lk_client (set_status f l)) = ec_file (lk_client l)" "ec_instanceID (lk_client (set_status f l)) = ec_instanceID (lk_client l)"
  by (simp_all add: set_status_def PolicyBinding_def)

lemma binding_frame [simp]:
  "PolicyBinding (c\<lparr>ec_responder := h\<rparr>) = PolicyBinding c" "PolicyBinding (c\<lparr>ec_controlStatus := st\<rparr>) = PolicyBinding c"
  "PolicyBinding (c\<lparr>ec_file := f\<rparr>) = PolicyBinding c" "PolicyBinding (set_challenge ch c) = PolicyBinding c"
  by (simp_all add: PolicyBinding_def)

lemma binding_lease: "PolicyBinding (snd (move_lease until err c)) = PolicyBinding c"
  by (simp add: move_lease_def store_state_eq PolicyBinding_def split: option.split)

lemma binding_accept:
  assumes "renewal_challenge E now' c ch" and "PolicyBinding c1 = PolicyBinding c"
  shows "PolicyBinding (snd (acceptSession now err session ch c1)) = PolicyBinding c"
  using assms by (simp add: acceptSession_def store_state_eq PolicyBinding_def session_bound_def renewal_challenge_def split: option.split)

lemma RenewSession_cases:
  obtains (refused) e c' where "RenewSession E w c = (Inl e, c')" "PolicyBinding c' = PolicyBinding c"
  | (asked) ch session c1 where "renewal_challenge E (rw_now w) c ch" "PolicyBinding c1 = PolicyBinding c"
      "RenewSession E w c = (case acceptSession (rw_now' w) (rw_save w) session ch c1 of (Inl e, c2) \<Rightarrow> (Inl e, c2) | (Inr _, c2) \<Rightarrow> (Inr session, c2))"
proof (cases "ses_NodeID (rg_Session (ec_state c)) = []")
  case True
  then show thesis by (intro refused [of _ c]) (simp_all add: RenewSession_def)
next
  case registered: False
  show thesis
  proof (cases "post ''/cluster/v1/session/challenge'' [] (rw_challenge w (ses_NodeID (rg_Session (ec_state c))) (ec_instanceID c))")
    case (Inl e)
    with registered show thesis by (intro refused [of e c]) (simp_all add: RenewSession_def)
  next
    case ch: (Inr ch)
    let ?c1 = "if ch_Purpose ch = ''domain_change'' then set_challenge ch c else c"
    have b: "PolicyBinding ?c1 = PolicyBinding c" by simp
    show thesis
    proof (cases "renewal_challenge E (rw_now w) c ch")
      case False
      with registered ch show thesis by (intro refused [of _ c]) (simp_all add: RenewSession_def)
    next
      case True
      note eq = RenewSession_def [of E w c, unfolded ch sum.case Let_def]
      show thesis
      proof (cases "post ''/cluster/v1/session'' [] (rw_session w ch (ed_sign E (ec_privateKey c) ch))")
        case (Inl e)
        with registered True eq b show thesis by (intro refused [of e ?c1]) (simp_all del: binding_frame)
      next
        case (Inr session)
        with registered True eq b show thesis by (intro asked [of ch ?c1 session]) (simp_all del: binding_frame)
      qed
    qed
  qed
qed

lemma binding_renew: "PolicyBinding (snd (RenewSession E w c)) = PolicyBinding c"
proof (cases rule: RenewSession_cases [of E w c])
  case (asked ch session c1)
  with binding_accept [OF asked(1,2), of "rw_now' w" "rw_save w" session] show ?thesis by (simp split: prod.splits sum.splits)
qed simp

lemma binding_renewed:
  assumes "RenewSession E w c = (Inr session, c')"
  shows "(ses_ClusterID session, ses_NodeID session) = PolicyBinding c'"
proof (cases rule: RenewSession_cases [of E w c])
  case (asked ch s c1)
  then have "acceptSession (rw_now' w) (rw_save w) session ch c1 = (Inr (), c')" using assms by (auto split: prod.splits sum.splits)
  then show ?thesis using acceptSession_Inr by (fastforce simp: PolicyBinding_def)
qed (use assms in simp)

text \<open>The policies in the order they may be handed over: a later one is newer, or the same document again.\<close>

definition policy_before :: "env \<Rightarrow> policy \<Rightarrow> policy \<Rightarrow> bool" where
  "policy_before E p q \<longleftrightarrow> p_Revision p < p_Revision q \<or> p_Revision p = p_Revision q \<and> cacheDigest E p = cacheDigest E q"

text \<open>The policy is no newer than what the cache has accepted for the binding.\<close>

definition guarded_policy :: "env \<Rightarrow> string \<times> string \<Rightarrow> cache_files \<Rightarrow> policy \<Rightarrow> bool" where
  "guarded_policy E b fs p \<longleftrightarrow> policy_valid E p (fst b) (snd b)
     \<and> (\<exists>r d. accepted fs = Some (b, r, d) \<and> (p_Revision p < r \<or> p_Revision p = r \<and> cacheDigest E p = d))"

definition forward :: "env \<Rightarrow> link \<Rightarrow> bool" where
  "forward E l \<longleftrightarrow> snapshot_intact E (lk_files l) \<and> sorted_wrt (policy_before E) (lk_applied l)
     \<and> (\<forall>p\<in>set (lk_applied l). guarded_policy E (PolicyBinding (lk_client l)) (lk_files l) p)"

text \<open>An \<^verbatim>\<open>apply\<close> that uses the cache as the loop does.\<close>

definition cache_user :: "env \<Rightarrow> apply_fn \<Rightarrow> bool" where
  "cache_user E f \<longleftrightarrow> (\<forall>p fs. (cache_step E)\<^sup>*\<^sup>* fs (snd (f p fs)))"

lemma guarded_steps:
  assumes "(cache_step E)\<^sup>*\<^sup>* fs fs'" "guarded_policy E b fs p"
  shows "guarded_policy E b fs' p"
proof -
  from assms(2) obtain r d where "accepted fs = Some (b, r, d)" "p_Revision p < r \<or> p_Revision p = r \<and> cacheDigest E p = d"
    and "policy_valid E p (fst b) (snd b)" by (auto simp: guarded_policy_def)
  with pc.steps_keep [OF assms(1)] show ?thesis unfolding guarded_policy_def by fastforce
qed

lemma forward_steps:
  assumes "forward E l" "(cache_step E)\<^sup>*\<^sup>* (lk_files l) fs"
  shows "forward E (l\<lparr>lk_files := fs\<rparr>)"
  using assms guarded_steps [OF assms(2)] cache_steps_intact [OF assms(2)] by (auto simp: forward_def)

lemma guarded_newest:
  assumes "guarded_policy E b fs q" "accepted fs = Some (b', p_Revision p, cacheDigest E p)"
  shows "policy_before E q p"
  using assms by (auto simp: guarded_policy_def policy_before_def)

text \<open>Handing over the policy the cache has accepted.\<close>

lemma forward_apply:
  assumes "forward E l" and "policy_valid E p (fst (PolicyBinding (lk_client l))) (snd (PolicyBinding (lk_client l)))"
    and "accepted (lk_files l) = Some (PolicyBinding (lk_client l), p_Revision p, cacheDigest E p)"
    and "(cache_step E)\<^sup>*\<^sup>* (lk_files l) fs"
  shows "forward E (l\<lparr>lk_files := fs, lk_applied := lk_applied l @ [p]\<rparr>)"
proof -
  have "forward E (l\<lparr>lk_applied := lk_applied l @ [p]\<rparr>)"
    using assms(1-3) guarded_newest [OF _ assms(3)] by (auto simp: forward_def guarded_policy_def sorted_wrt_append)
  then show ?thesis using forward_steps [of E "l\<lparr>lk_applied := lk_applied l @ [p]\<rparr>" fs] assms(4) by (simp add: forward_def)
qed

definition bound_link :: "env \<Rightarrow> string \<times> string \<Rightarrow> link \<Rightarrow> bool" where
  "bound_link E b l \<longleftrightarrow> forward E l \<and> PolicyBinding (lk_client l) = b"

lemma bound_link_frame [simp]:
  "bound_link E b (set_status f l) = bound_link E b l" "bound_link E b (l\<lparr>lk_acks := as\<rparr>) = bound_link E b l"
  "bound_link E b (snd (send_ack w session a l)) = bound_link E b l" "lk_files (snd (send_ack w session a l)) = lk_files l"
  by (simp_all add: bound_link_def forward_def send_ack_def)

lemma bound_link_client: "bound_link E b l \<Longrightarrow> PolicyBinding c = PolicyBinding (lk_client l) \<Longrightarrow> bound_link E b (l\<lparr>lk_client := c\<rparr>)"
  by (auto simp: bound_link_def forward_def)

lemma bound_link_files: "bound_link E b l \<Longrightarrow> (cache_step E)\<^sup>*\<^sup>* (lk_files l) fs \<Longrightarrow> bound_link E b (l\<lparr>lk_files := fs\<rparr>)"
  by (simp add: bound_link_def forward_steps)

lemma bound_apply_message:
  assumes "bound_link E b l" "policy_valid E p (fst b) (snd b)" "accepted (lk_files l) = Some (b, p_Revision p, cacheDigest E p)"
    and "cache_user E (mw_apply w)"
  shows "bound_link E b (snd (apply_message w p l))"
proof -
  obtain result res fs where a: "mw_apply w p (lk_files l) = ((result, res), fs)" by (metis surj_pair)
  with assms(4) have "(cache_step E)\<^sup>*\<^sup>* (lk_files l) fs" unfolding cache_user_def by (metis snd_conv)
  with assms(1-3) forward_apply [of E l p fs] have "bound_link E b (l\<lparr>lk_files := fs, lk_applied := lk_applied l @ [p]\<rparr>)"
    by (simp add: bound_link_def)
  then show ?thesis by (simp add: apply_message_def a Let_def)
qed

lemma save_step: "(cache_step E)\<^sup>*\<^sup>* fs (snd (saveCacheAt E path p now w1 w2 fs))"
  by (rule r_into_rtranclp) (rule cache_step.Save)

lemma saved_accepted:
  assumes "saveCacheAt E path p now w1 w2 fs = (Inr u, fs')"
  shows "accepted fs' = Some ((p_ClusterID p, p_NodeID p), p_Revision p, cacheDigest E p)"
proof -
  from assms obtain m where "next_watermark E path p now fs = Inr m" "w1 \<noteq> FailedBefore"
    by (auto simp: saveCacheAt_def writeCacheFile_def split: sum.splits write_outcome.splits)
  from saveCacheAt_accepted [OF this, of w2] assms show ?thesis by simp
qed

lemma bound_accept_policy:
  assumes "bound_link E b l" "policy_valid E p (fst b) (snd b)" "accepted (lk_files l) = Some (b, p_Revision p, cacheDigest E p)"
    and "cache_user E (mw_apply w)"
  shows "bound_link E b (snd (accept_policy w session p l))"
proof -
  let ?ack = "\<lparr>ack_Revision = p_Revision p, ack_State = AckReceived, ack_Usable = False, ack_Error = []\<rparr>"
  let ?l = "snd (send_ack w session ?ack (set_status (\<lambda>st. st\<lparr>st_ReceivedRevision := p_Revision p\<rparr>) l))"
  have "bound_link E b (snd (apply_message w p ?l))" using assms by (intro bound_apply_message) simp_all
  then show ?thesis by (auto simp: accept_policy_def split: prod.split option.split)
qed

lemma bound_handle_policy:
  assumes "bound_link E b l" "b = (ses_ClusterID session, ses_NodeID session)" "cache_user E (mw_apply w)"
  shows "bound_link E b (snd (handle_policy E path w session p l))"
proof (cases "ValidatePolicy E p (ses_ClusterID session) (ses_NodeID session)")
  case (Inl e)
  with assms(1) show ?thesis by (simp add: handle_policy_def)
next
  case (Inr u)
  then have v: "policy_valid E p (fst b) (snd b)" using assms(2) by (simp add: ValidatePolicy_valid)
  then have ids: "(p_ClusterID p, p_NodeID p) = b" using policy_valid_ids by (metis prod.collapse)
  let ?l1 = "set_status (\<lambda>st. st\<lparr>st_DesiredRevision := p_Revision p, st_LastContact := mw_now w\<rparr>) l"
  obtain res fs where s: "saveCacheAt E path p (mw_saveNow w) (mw_w1 w) (mw_w2 w) (lk_files l) = (res, fs)" by (metis surj_pair)
  with save_step have "(cache_step E)\<^sup>*\<^sup>* (lk_files l) fs" by (metis snd_conv)
  with assms(1) have l1: "bound_link E b (?l1\<lparr>lk_files := fs\<rparr>)"
    using bound_link_files [of E b ?l1 fs] by simp
  show ?thesis
  proof (cases res)
    case Inl
    with s l1 show ?thesis by (simp add: handle_policy_def Inr Let_def)
  next
    case (Inr x)
    with s saved_accepted ids have "accepted fs = Some (b, p_Revision p, cacheDigest E p)" by blast
    then have "bound_link E b (snd (accept_policy w session p (?l1\<lparr>lk_files := fs\<rparr>)))"
      using l1 v assms(3) by (intro bound_accept_policy) simp_all
    with s \<open>ValidatePolicy E p _ _ = Inr u\<close> show ?thesis by (simp add: handle_policy_def Inr Let_def)
  qed
qed

lemma bound_handle_message:
  assumes "bound_link E b l" "b = (ses_ClusterID session, ses_NodeID session)" "cache_user E (mw_apply w)"
  shows "bound_link E b (snd (handle_message E path w session line l))"
  using assms bound_handle_policy [OF assms] by (auto simp: handle_message_def split: stream_line.split option.split)

lemma bound_heartbeat:
  assumes "bound_link E b l"
  shows "bound_link E b (snd (heartbeat w session l))"
proof -
  obtain report l1 where r: "heartbeat_sample (bw_sample w) l = (report, l1)" by (metis surj_pair)
  then have l1: "bound_link E b l1" using assms by (auto simp: heartbeat_sample_def split: prod.splits if_splits)
  have "bound_link E b (l1\<lparr>lk_client := snd (move_lease until err (lk_client l1))\<rparr>)" for until err
    by (rule bound_link_client [OF l1 binding_lease])
  with assms l1 show ?thesis by (auto simp: heartbeat_def r split: sum.split prod.split) (metis snd_conv)+
qed

definition event_user :: "env \<Rightarrow> link_event \<Rightarrow> bool" where
  "event_user E ev = (case ev of Received w _ \<Rightarrow> cache_user E (mw_apply w) | Beat _ \<Rightarrow> True)"

definition world_user :: "env \<Rightarrow> run_world \<Rightarrow> bool" where
  "world_user E w \<longleftrightarrow> cache_user E (rn_apply w) \<and> list_all (event_user E) (cx_events (rn_connection w))"

lemma bound_link_events:
  assumes "bound_link E b l" "b = (ses_ClusterID session, ses_NodeID session)" "list_all (event_user E) es"
  shows "bound_link E b (snd (link_events E path session es hb l))"
  using assms
proof (induction E path session es hb l rule: link_events.induct)
  case (2 E path session w line es hb l)
  have "bound_link E b (snd (handle_message E path w session line l))"
    using 2 by (intro bound_handle_message) (simp_all add: event_user_def)
  with 2 show ?case by (auto split: option.split prod.splits)
next
  case (3 E path session w es hb l)
  with bound_heartbeat [OF 3(3), of w session] show ?case by (auto split: option.split prod.splits)
qed simp

lemma bound_connection:
  assumes "bound_link E b l" "b = (ses_ClusterID session, ses_NodeID session)" "list_all (event_user E) (cx_events x)"
  shows "bound_link E b (snd (controlConnection E path session x l))"
  using assms bound_link_events [OF _ assms(2,3), of "set_status (\<lambda>st. st\<lparr>st_Connected := True\<rparr>) l"]
  by (auto simp: controlConnection_def split: opened.split option.split prod.split) (metis snd_conv)+

lemma loaded_accepted:
  assumes "fst (LoadCache E cl nd now w fs) = Inr p" and "snapshot_intact E fs"
  shows "policy_valid E p cl nd \<and> accepted (snd (LoadCache E cl nd now w fs)) = Some ((cl, nd), p_Revision p, cacheDigest E p)"
  using LoadCache_Inr [OF assms(1)] assms(2) unfolding LoadCache_keeps
  by (auto simp: snapshot_intact_def accepted_def readCacheWatermark_def)

lemma load_step: "(cache_step E)\<^sup>*\<^sup>* fs (snd (LoadCache E cl nd now w fs))"
  by (rule r_into_rtranclp) (rule cache_step.Load)

lemma bound_load_policy:
  assumes "bound_link E b l" "b = (ses_ClusterID session, ses_NodeID session)" "cache_user E (rn_apply w)"
  shows "bound_link E b (load_policy E w session l)"
proof -
  obtain res fs where load: "LoadCache E (fst b) (snd b) (rn_loadNow w) (rn_loadWrite w) (lk_files l) = (res, fs)" by (metis surj_pair)
  with load_step have "(cache_step E)\<^sup>*\<^sup>* (lk_files l) fs" by (metis snd_conv)
  with assms(1) have l1: "bound_link E b (l\<lparr>lk_files := fs\<rparr>)" by (rule bound_link_files)
  show ?thesis
  proof (cases res)
    case (Inl e)
    with l1 load assms(2) show ?thesis by (simp add: load_policy_def)
  next
    case (Inr p)
    obtain result r fs' where a: "rn_apply w p fs = ((result, r), fs')" by (metis surj_pair)
    with assms(3) have "(cache_step E)\<^sup>*\<^sup>* fs fs'" unfolding cache_user_def by (metis snd_conv)
    moreover have "policy_valid E p (fst b) (snd b)" "accepted fs = Some (b, p_Revision p, cacheDigest E p)"
      using loaded_accepted [of E "fst b" "snd b" "rn_loadNow w" "rn_loadWrite w" "lk_files l" p] load Inr assms(1)
      by (simp_all add: bound_link_def forward_def)
    ultimately have "bound_link E b (l\<lparr>lk_files := fs', lk_applied := lk_applied l @ [p]\<rparr>)"
      using l1 forward_apply [of E "l\<lparr>lk_files := fs\<rparr>" p fs'] by (simp add: bound_link_def)
    with load Inr a assms(2) show ?thesis by (simp add: load_policy_def Let_def)
  qed
qed

lemma forward_conflict: "forward E l \<Longrightarrow> forward E (conflict_link l)"
proof -
  assume l: "forward E l"
  have "(cache_step E)\<^sup>*\<^sup>* (lk_files l) (remove_snapshot (lk_files l))" by (rule r_into_rtranclp) (rule cache_step.Drop)
  from forward_steps [OF l this] show ?thesis by (simp add: conflict_link_def forward_def)
qed

lemma forward_frame [simp]: "forward E (set_status f l) = forward E l" "forward E (unavailable l) = forward E l"
  by (simp_all add: forward_def unavailable_def)

lemma forward_idle:
  assumes "forward E l" "snd (PolicyBinding (lk_client l)) = []"
  shows "forward E (idle_enroll E w l)"
proof -
  have "p \<notin> set (lk_applied l)" for p
    using assms policy_valid_ids [of E p] by (auto simp: forward_def guarded_policy_def)
  then have "lk_applied l = []" by (cases "lk_applied l") auto
  with assms(1) show ?thesis by (auto simp: forward_def idle_enroll_def split: option.split)
qed

lemma wait_backoff_link [simp]: "rs_link (snd (wait_backoff w st)) = rs_link st"
  by (simp add: wait_backoff_def split: option.split)

lemma forward_connect:
  assumes "bound_link E b (rs_link st)" "b = (ses_ClusterID session, ses_NodeID session)" "world_user E w"
  shows "forward E (rs_link (snd (connect_round E path w session st)))"
proof -
  have "bound_link E b (snd (controlConnection E path session (rn_connection w) (rs_link st)))"
    using assms by (intro bound_connection) (simp_all add: world_user_def)
  then have "forward E (snd (controlConnection E path session (rn_connection w) (rs_link st)))" by (simp add: bound_link_def)
  then show ?thesis using forward_conflict by (auto simp: connect_round_def Let_def split: prod.split option.split)
qed

lemma forward_session:
  assumes "bound_link E b (rs_link st)" "b = (ses_ClusterID session, ses_NodeID session)" "world_user E w"
  shows "forward E (rs_link (snd (session_round E path w session st)))"
proof (cases "needs_renewal w session st")
  case False
  then show ?thesis using forward_connect [OF assms] by (simp add: session_round_def)
next
  case True
  obtain res c where r: "RenewSession E (rn_renew w) (lk_client (rs_link st)) = (res, c)" by (metis surj_pair)
  then have c: "PolicyBinding c = PolicyBinding (lk_client (rs_link st))" using binding_renew by (metis snd_conv)
  then have l: "bound_link E b ((rs_link st)\<lparr>lk_client := c\<rparr>)" using bound_link_client [OF assms(1)] by blast
  show ?thesis
  proof (cases res)
    case (Inl e)
    with l True r show ?thesis by (auto simp: session_round_def bound_link_def intro: forward_conflict)
  next
    case (Inr s)
    with r binding_renewed have "PolicyBinding c = (ses_ClusterID s, ses_NodeID s)" by metis
    with c assms(1) have "b = (ses_ClusterID s, ses_NodeID s)" by (simp add: bound_link_def)
    with l assms(3) forward_connect show ?thesis using True r Inr by (simp add: session_round_def)
  qed
qed

lemma forward_round:
  assumes "forward E (rs_link st)" "world_user E w"
  shows "forward E (rs_link (snd (run_round E path w st)))"
proof -
  let ?s = "rg_Session (ec_state (lk_client (rs_link st)))" let ?b = "(ses_ClusterID ?s, ses_NodeID ?s)"
  have b: "bound_link E ?b (rs_link st)" using assms(1) by (simp add: bound_link_def PolicyBinding_def)
  obtain e st1 where st1: "start_round E w ?s st = (e, st1)" by (metis surj_pair)
  have "bound_link E ?b (load_policy E w ?s (rs_link st))"
    using b assms(2) by (intro bound_load_policy) (simp_all add: world_user_def)
  with b st1 have l1: "bound_link E ?b (rs_link st1)" by (auto simp: start_round_def split: if_splits)
  with forward_session [OF l1 refl assms(2), of path] forward_idle [OF assms(1), of w] assms(1) st1 show ?thesis
    by (auto simp: run_round_def Let_def bound_link_def PolicyBinding_def split: option.split)
qed

lemma forward_rounds: "forward E (rs_link st) \<Longrightarrow> list_all (world_user E) ws \<Longrightarrow> forward E (rs_link (snd (run_rounds E path ws st)))"
proof (induction E path ws st rule: run_rounds.induct)
  case (2 E path w ws st)
  with forward_round [OF 2(2), of w path] show ?case by (auto split: option.split prod.splits)
qed simp

lemma ApplyPolicy_user: "cache_user E (\<lambda>p fs. ApplyPolicy E pc ctx conn p now w1 w2 fs)"
proof -
  have "snd (ApplyPolicy E pc ctx conn p now w1 w2 fs) = fs
      \<or> snd (ApplyPolicy E pc ctx conn p now w1 w2 fs) = snd (saveCacheAt E (pc_Path pc) p now w1 w2 fs)" for p fs
    by (auto simp: ApplyPolicy_def split: option.split sum.split prod.split)
  then show ?thesis unfolding cache_user_def using save_step by (metis rtranclp.rtrancl_refl)
qed

section \<open>What the loop reports\<close>

text \<open>A policy is reported as received or applied only if it was handed over.\<close>

definition truthful :: "link \<Rightarrow> bool" where
  "truthful l \<longleftrightarrow> (\<forall>a\<in>set (lk_acks l). ack_State a = AckNack \<or> p_Revision ` set (lk_applied l) \<inter> {ack_Revision a} \<noteq> {})"

lemma truthful_frame [simp]:
  "truthful (set_status f l) = truthful l" "truthful (l\<lparr>lk_files := fs\<rparr>) = truthful l" "truthful (l\<lparr>lk_client := c\<rparr>) = truthful l"
  by (simp_all add: truthful_def)

lemma truthful_nack: "truthful l \<Longrightarrow> truthful (snd (send_ack w session (nack p e) l))"
  by (simp add: truthful_def send_ack_def nack_def)

lemma apply_message_link:
  "lk_acks (snd (apply_message w p l)) = lk_acks l \<and> lk_applied (snd (apply_message w p l)) = lk_applied l @ [p]
   \<and> ack_Revision (fst (apply_message w p l)) = p_Revision p"
  by (auto simp: apply_message_def Let_def nack_def split: prod.split)

lemma send_ack_applied: "lk_applied (snd (send_ack w session a l)) = lk_applied l"
  by (simp add: send_ack_def)

lemma accept_policy_applied: "lk_applied (snd (accept_policy w session p l)) = lk_applied l @ [p]"
proof -
  let ?ack = "\<lparr>ack_Revision = p_Revision p, ack_State = AckReceived, ack_Usable = False, ack_Error = []\<rparr>"
  let ?l = "snd (send_ack w session ?ack (set_status (\<lambda>st. st\<lparr>st_ReceivedRevision := p_Revision p\<rparr>) l))"
  obtain ack l2 where a: "apply_message w p ?l = (ack, l2)" by (metis surj_pair)
  with apply_message_link [of w p ?l] have "lk_applied l2 = lk_applied l @ [p]" by (simp add: send_ack_applied)
  with a show ?thesis by (auto simp: accept_policy_def send_ack_applied split: prod.split option.split)
qed

lemma truthful_accept:
  assumes "truthful l"
  shows "truthful (snd (accept_policy w session p l))"
proof -
  let ?ack = "\<lparr>ack_Revision = p_Revision p, ack_State = AckReceived, ack_Usable = False, ack_Error = []\<rparr>"
  let ?l = "snd (send_ack w session ?ack (set_status (\<lambda>st. st\<lparr>st_ReceivedRevision := p_Revision p\<rparr>) l))"
  obtain ack l2 where a: "apply_message w p ?l = (ack, l2)" by (metis surj_pair)
  with apply_message_link [of w p ?l] have l2: "lk_acks l2 = lk_acks l @ [?ack]" "lk_applied l2 = lk_applied l @ [p]" "ack_Revision ack = p_Revision p"
    by (simp_all add: send_ack_def)
  then have "truthful l2" "truthful (snd (send_ack w session ack l2))" using assms by (auto simp: truthful_def send_ack_def)
  with a show ?thesis by (auto simp: accept_policy_def split: prod.split option.split)
qed

lemma truthful_message: "truthful l \<Longrightarrow> truthful (snd (handle_message E path w session line l))"
  by (auto simp: handle_message_def handle_policy_def Let_def truthful_nack truthful_accept
      split: stream_line.split option.split sum.split prod.split)

lemma truthful_heartbeat: "truthful l \<Longrightarrow> truthful (snd (heartbeat w session l))"
  by (auto simp: heartbeat_def heartbeat_sample_def split: prod.split sum.split)

lemma truthful_events: "truthful l \<Longrightarrow> truthful (snd (link_events E path session es hb l))"
proof (induction E path session es hb l rule: link_events.induct)
  case (2 E path session w line es hb l)
  with truthful_message [OF 2(2), of E path w session line] show ?case by (auto split: option.split prod.splits)
next
  case (3 E path session w es hb l)
  with truthful_heartbeat [OF 3(3), of w session] show ?case by (auto split: option.split prod.splits)
qed simp

lemma truthful_connection: "truthful l \<Longrightarrow> truthful (snd (controlConnection E path session x l))"
  using truthful_events [of "set_status (\<lambda>st. st\<lparr>st_Connected := True\<rparr>) l" E path session "cx_events x" None]
  by (auto simp: controlConnection_def split: opened.split option.split prod.split)

lemma truthful_load: "truthful l \<Longrightarrow> truthful (load_policy E w session l)"
  by (auto simp: load_policy_def Let_def truthful_def split: prod.split sum.split)

lemma truthful_connect: "truthful (rs_link st) \<Longrightarrow> truthful (rs_link (snd (connect_round E path w session st)))"
  using truthful_connection [of "rs_link st" E path session "rn_connection w"]
  by (auto simp: connect_round_def Let_def conflict_link_def unavailable_def split: prod.split option.split)

lemma truthful_session: "truthful (rs_link st) \<Longrightarrow> truthful (rs_link (snd (session_round E path w session st)))"
  using truthful_connect by (auto simp: session_round_def conflict_link_def unavailable_def split: prod.split sum.split)

lemma truthful_round: "truthful (rs_link st) \<Longrightarrow> truthful (rs_link (snd (run_round E path w st)))"
  using truthful_session truthful_load
  by (auto simp: run_round_def start_round_def Let_def idle_enroll_def split: option.split prod.split)

lemma truthful_rounds: "truthful (rs_link st) \<Longrightarrow> truthful (rs_link (snd (run_rounds E path ws st)))"
proof (induction E path ws st rule: run_rounds.induct)
  case (2 E path w ws st)
  with truthful_round [OF 2(2), of E path w] show ?case by (auto split: option.split prod.splits)
qed simp

section \<open>Waiting\<close>

definition patient :: "run_state \<Rightarrow> bool" where
  "patient st \<longleftrightarrow> second \<le> rs_backoff st \<and> rs_backoff st \<le> 30 * second"

lemma patient_frame [simp]:
  "patient (st\<lparr>rs_link := l\<rparr>) = patient st" "patient (st\<lparr>rs_loaded := b\<rparr>) = patient st"
  "patient (st\<lparr>rs_renewRequired := b\<rparr>) = patient st" "patient (st\<lparr>rs_backoff := second\<rparr>)"
  by (simp_all add: patient_def second_def)

lemma patient_wait: "patient st \<Longrightarrow> patient (snd (wait_backoff w st))"
  by (auto simp: wait_backoff_def patient_def second_def split: option.split)

lemma patient_connect: "patient st \<Longrightarrow> patient (snd (connect_round E path w session st))"
  by (simp add: connect_round_def Let_def patient_wait split: option.split prod.split)

lemma patient_session: "patient st \<Longrightarrow> patient (snd (session_round E path w session st))"
  by (simp add: session_round_def patient_wait patient_connect split: prod.split sum.split)

lemma patient_round: "patient st \<Longrightarrow> patient (snd (run_round E path w st))"
  by (simp add: run_round_def start_round_def Let_def patient_session split: option.split prod.split)

lemma patient_rounds: "patient st \<Longrightarrow> patient (snd (run_rounds E path ws st))"
proof (induction E path ws st rule: run_rounds.induct)
  case (2 E path w ws st)
  with patient_round [OF 2(2), of E path w] show ?case by (auto split: option.split prod.splits)
qed simp

section \<open>Properties\<close>


definition sample_apply :: apply_fn where
  "sample_apply p fs = ApplyPolicy sample_env \<lparr>pc_Path = ''p'', pc_SocketPath = ''s'', pc_MaxBudgetBPS = 0\<rparr> None
     (\<lambda>n. Inr (99, Some \<lparr>pr_EffectiveBudgetBPS = 0, pr_Revision = pn_Revision n, pr_Usable = True, pr_Error = [], pr_Traffic = [],
        pr_TrafficObservedAt = unix_time 301, pr_ActiveConnections = 0\<rparr>)) p (unix_time 301) Written Written fs"

definition sample_link :: link where
  "sample_link = \<lparr>lk_client = agent\<lparr>ec_state := (ec_state agent)\<lparr>rg_Session := sample_session\<rparr>\<rparr>, lk_files = sample_files, lk_acks = [], lk_applied = []\<rparr>"

definition sample_message :: message_world where
  "sample_message = \<lparr>mw_now = unix_time 300, mw_saveNow = unix_time 300, mw_w1 = Written, mw_w2 = Written,
     mw_ack = (\<lambda>_. Reply 200 (Some 12) (Some True) None), mw_apply = sample_apply\<rparr>"

definition sample_renewal :: renew_world where
  "sample_renewal = \<lparr>rw_now = unix_time 300, rw_challenge = (\<lambda>_ _. NoReply), rw_now' = unix_time 301, rw_session = (\<lambda>_ _. NoReply), rw_save = None\<rparr>"

definition sample_round :: run_world where
  "sample_round = \<lparr>rn_ctx = None, rn_waitIdle = None, rn_enroll = None, rn_loadNow = unix_time 299, rn_loadWrite = Written, rn_apply = sample_apply,
     rn_waitLease = None, rn_now = unix_time 300, rn_renew = sample_renewal,
     rn_connection = \<lparr>cx_open = OpenStatus 200, cx_events = [Received sample_message (Message ''policy'' (Some sample_policy))], cx_scanError = False\<rparr>,
     rn_ctxAfter = None, rn_after = unix_time 302, rn_waitBackoff = Some (ErrMsg ''context canceled'')\<rparr>"

lemma sample_handled:
  assumes "lk_files l = sample_files" "lk_acks l = []" "lk_applied l = []"
  shows "lk_applied (snd (handle_message sample_env ''p'' sample_message sample_session (Message ''policy'' (Some sample_policy)) l)) = [sample_policy]"
proof -
  have v: "ValidatePolicy sample_env sample_policy ''c'' ''n'' = Inr ()" using sample_policy_valid by (simp add: ValidatePolicy_valid)
  have s: "ses_ClusterID sample_session = ''c''" "ses_NodeID sample_session = ''n''" by (simp_all add: sample_session_def)
  show ?thesis
    using assms sample_saved by (simp add: handle_message_def handle_policy_def v s Let_def sample_message_def accept_policy_applied)
qed

lemma sample_connected:
  assumes "lk_files (rs_link st) = sample_files" "lk_acks (rs_link st) = []" "lk_applied (rs_link st) = []"
  shows "lk_applied (rs_link (snd (connect_round sample_env ''p'' sample_round sample_session st))) = [sample_policy]"
proof -
  let ?l = "set_status (\<lambda>s. s\<lparr>st_Connected := True\<rparr>) (rs_link st)"
  have "lk_applied (snd (controlConnection sample_env ''p'' sample_session (rn_connection sample_round) (rs_link st))) = [sample_policy]"
    using sample_handled [of ?l] assms by (auto simp: controlConnection_def sample_round_def split: prod.split option.split)
  then show ?thesis
    by (auto simp: connect_round_def Let_def conflict_link_def unavailable_def sample_round_def split: prod.split)
qed

lemma sample_run: "lk_applied (rs_link (snd (RunControl sample_env ''p'' [sample_round] sample_link))) = [sample_policy]"
proof -
  define st0 where "st0 = \<lparr>rs_link = sample_link, rs_loaded = False, rs_backoff = second, rs_renewRequired = False\<rparr>"
  define st1 where "st1 = st0\<lparr>rs_loaded := True\<rparr>"
  have ctx: "rn_ctx sample_round = None" by (simp add: sample_round_def)
  have "readCacheWatermark sample_files = Inl ErrNotExist" by (simp add: readCacheWatermark_def sample_files_def)
  then have l: "load_policy sample_env sample_round sample_session sample_link = sample_link"
    by (simp add: load_policy_def LoadCache_def sample_link_def unix_time_def zero_time_def sample_round_def)
  have s: "rg_Session (ec_state (lk_client (rs_link st0))) = sample_session" "ses_NodeID sample_session = ''n''"
    "ses_InstanceID sample_session = ''i''" "ec_instanceID (lk_client sample_link) = ''i''"
    by (simp_all add: st0_def sample_link_def sample_session_def agent_def)
  have "start_round sample_env sample_round sample_session st0 = (None, st1)"
    using l s(3,4) by (simp add: start_round_def st0_def st1_def)
  moreover have "\<not> needs_renewal sample_round sample_session st1"
    using s(3,4) by (simp add: needs_renewal_def st1_def st0_def sample_round_def sample_session_def unix_time_def second_def)
  ultimately have "run_round sample_env ''p'' sample_round st0 = connect_round sample_env ''p'' sample_round sample_session st1"
    using s ctx by (simp add: run_round_def Let_def session_round_def)
  moreover have "lk_applied (rs_link (snd (connect_round sample_env ''p'' sample_round sample_session st1))) = [sample_policy]"
    by (rule sample_connected) (simp_all add: st1_def st0_def sample_link_def)
  ultimately obtain e st2 where r: "run_round sample_env ''p'' sample_round st0 = (e, st2)" "lk_applied (rs_link st2) = [sample_policy]"
    by (metis surj_pair snd_conv)
  have "RunControl sample_env ''p'' [sample_round] sample_link = run_rounds sample_env ''p'' [sample_round] st0"
    by (simp add: RunControl_def Let_def st0_def del: run_rounds.simps)
  with r show ?thesis by (cases e) simp_all
qed


end
