(* ===== verification/Http.thy ===== *)
theory Http
  imports Status
begin

text \<open>
  The HTTP interface of the controller: the gate every request passes (\<^verbatim>\<open>http.go\<close>), the
  limits on attempts, and the handlers of \<^verbatim>\<open>http.go\<close>, \<^verbatim>\<open>tailnet_http.go\<close>, \<^verbatim>\<open>node_http.go\<close>,
  \<^verbatim>\<open>grant_http.go\<close>, \<^verbatim>\<open>resources_http.go\<close>, and the handlers in \<^verbatim>\<open>control_stream.go\<close> and
  \<^verbatim>\<open>observability.go\<close>, each as the call of the store it makes.

  A call is a route with the values of its path and its body, where \<open>None\<close> is a body that does
  not decode. The store in which a request begins may differ from the one its last transaction
  finds: \<open>hw_gate\<close> is the store the gate reads, \<open>hw_before\<close> the one the handler reads before its
  last transaction, and the argument \<open>s\<close> the one of that transaction.
\<close>

section \<open>Errors\<close>

definition http_status :: "go_error \<Rightarrow> nat" where
  "http_status e =
     (case e of
        ErrUnauthorized \<Rightarrow> 401
      | ErrForbidden \<Rightarrow> 403
      | ErrInvalid \<Rightarrow> 400
      | InputError _ _ \<Rightarrow> 400
      | ErrConflict \<Rightarrow> 409
      | ErrIdentityConflict \<Rightarrow> 409
      | ErrRateLimited \<Rightarrow> 429
      | ErrIdentityUnavailable \<Rightarrow> 503
      | _ \<Rightarrow> 500)"

text \<open>The \<^verbatim>\<open>code\<close> and \<^verbatim>\<open>field\<close> of the body of \<^verbatim>\<open>httpError\<close>.\<close>

definition error_code :: "go_error \<Rightarrow> string option" where
  "error_code e = (case e of InputError code _ \<Rightarrow> Some code | ErrIdentityConflict \<Rightarrow> Some ''identity_conflict'' | _ \<Rightarrow> None)"

definition error_field :: "go_error \<Rightarrow> string option" where
  "error_field e = (case e of InputError _ field \<Rightarrow> Some field | _ \<Rightarrow> None)"

section \<open>Limits\<close>

text \<open>The attempts of an address: how many, and until when they count.\<close>

type_synonym attempts = "(string \<times> nat \<times> time) list"

definition live_attempts :: "time \<Rightarrow> attempts \<Rightarrow> attempts" where
  "live_attempts now as = filter (\<lambda>(_, _, until). now < until) as"

definition attempt_count :: "attempts \<Rightarrow> string \<Rightarrow> nat" where
  "attempt_count as ip = (case map_of as ip of None \<Rightarrow> 0 | Some (n, _) \<Rightarrow> n)"

definition attempt_until :: "attempts \<Rightarrow> string \<Rightarrow> time" where
  "attempt_until as ip = (case map_of as ip of None \<Rightarrow> zero_time | Some (_, t) \<Rightarrow> t)"

definition set_attempt :: "string \<Rightarrow> nat \<Rightarrow> time \<Rightarrow> attempts \<Rightarrow> attempts" where
  "set_attempt ip n until as = (ip, n, until) # filter (\<lambda>(k, _). k \<noteq> ip) as"

text \<open>The address of the peer without its port, if it has one.\<close>

definition peer :: "(string \<times> string) option \<Rightarrow> string \<Rightarrow> string" where
  "peer split remote = (case split of None \<Rightarrow> remote | Some (host, _) \<Rightarrow> host)"

definition allowNodeAttempt :: "string \<Rightarrow> time \<Rightarrow> attempts \<Rightarrow> bool \<times> attempts" where
  "allowNodeAttempt ip now as =
     (let live = live_attempts now as; n = attempt_count live ip
      in if 30 \<le> n \<or> n = 0 \<and> 1024 \<le> length live then (False, live)
         else (True, set_attempt ip (n + 1) (if n = 0 then now + 60 * second else attempt_until live ip) live))"

definition allow_login :: "string \<Rightarrow> time \<Rightarrow> attempts \<Rightarrow> bool \<times> attempts" where
  "allow_login ip now as =
     (let live = live_attempts now as; n = attempt_count live ip
      in if 5 \<le> n \<or> 1024 \<le> length live then (False, live)
         else (True, set_attempt ip (n + 1) (now + 60 * second) live))"

section \<open>Calls and replies\<close>

datatype payload =
    OkReply | SetupReply bool | TokenReply string string | SessionReply actor string string | UserReply actor | UsersReply "actor list"
  | TailnetReply tailnet | TailnetsReply "tailnet list" | NodeReply node | NodesReply "node list" | CreatedReply node enrollment
  | EnrollmentReply enrollment | ChallengeReply node_challenge | NodeSessionReply node_session | HeartbeatReply node_heartbeat
  | GrantReply grant | GrantsReply "grant list" | DerpMapReply "nat \<rightharpoonup> derp_region" | QoSReply qos_policy | SummaryReply relay_summary
  | ProbesReply node_probes | EventsReply "event_row list" | AuditReply "(audit_row \<times> string) list" | StatusReply node_status
  | RetentionsReply retentions

text \<open>
  What serving a request meets besides the store: the times of its transactions, fresh random
  texts, the identity source, whether the domain was verified, the probe, and the role of the server.
\<close>

record http_world =
  hw_gate :: store
  hw_before :: store
  hw_role :: string
  hw_now :: time
  hw_now' :: time
  hw_token :: string
  hw_code :: string
  hw_salt :: string
  hw_nonce :: string
  hw_api :: api_replies
  hw_verified :: bool
  hw_probeFull :: bool
  hw_probe :: "string \<Rightarrow> int \<Rightarrow> int \<Rightarrow> node_probes"
  hw_timeout :: "go_error option"

type_synonym outcome = "payload result \<times> store"

definition with_body :: "'b option \<Rightarrow> store \<Rightarrow> ('b \<Rightarrow> outcome) \<Rightarrow> outcome" where
  "with_body body s f = (case body of None \<Rightarrow> (Inl ErrInvalid, s) | Some b \<Rightarrow> f b)"

definition answer :: "('a \<Rightarrow> payload) \<Rightarrow> 'a result \<Rightarrow> store \<Rightarrow> outcome" where
  "answer f r s = (case r of Inl e \<Rightarrow> Inl e | Inr x \<Rightarrow> Inr (f x), s)"

definition commit :: "store result \<Rightarrow> store \<Rightarrow> outcome" where
  "commit r s = (case r of Inl e \<Rightarrow> (Inl e, s) | Inr s' \<Rightarrow> (Inr OkReply, s'))"

definition commit_answer :: "('a \<Rightarrow> payload) \<Rightarrow> ('a \<times> store) result \<Rightarrow> store \<Rightarrow> outcome" where
  "commit_answer f r s = (case r of Inl e \<Rightarrow> (Inl e, s) | Inr (x, s') \<Rightarrow> (Inr (f x), s'))"

definition answer_store :: "('a \<Rightarrow> payload) \<Rightarrow> 'a result \<times> store \<Rightarrow> outcome" where
  "answer_store f r = (case r of (Inl e, s) \<Rightarrow> (Inl e, s) | (Inr x, s) \<Rightarrow> (Inr (f x), s))"

definition zero_actor :: actor where
  "zero_actor = \<lparr>ac_ID = [], ac_Username = [], ac_Role = [], ac_Enabled = False\<rparr>"

definition actor_of :: "env \<Rightarrow> http_world \<Rightarrow> string \<Rightarrow> actor" where
  "actor_of E w cookie = (case Authenticate E (hw_before w) cookie (hw_now w) of Inl _ \<Rightarrow> zero_actor | Inr a \<Rightarrow> a)"

section \<open>Users and sessions\<close>

datatype user_call =
    GetSetup | PostLogout | GetSession | PostUser "(string \<times> string \<times> string) option" | PostRole string "string option" | GetUsers
  | PostPassword string "string option" | PostUserEnabled string "bool option option"

definition actor_row :: "user_row \<Rightarrow> actor" where
  "actor_row u = \<lparr>ac_ID = u_id u, ac_Username = u_username u, ac_Role = u_role u, ac_Enabled = u_enabled u\<rparr>"

fun user_api :: "env \<Rightarrow> http_world \<Rightarrow> string \<Rightarrow> store \<Rightarrow> user_call \<Rightarrow> outcome" where
  "user_api E w cookie s GetSetup = (Inr (SetupReply (\<not> hasAdmin s)), s)"
| "user_api E w cookie s PostLogout =
     (Inr OkReply, s\<lparr>sessions := delete_where (\<lambda>r. se_token_hash r = tokenHash E cookie) (sessions s)\<rparr>)"
| "user_api E w cookie s GetSession =
     answer (\<lambda>a. SessionReply a (csrf_of E cookie) (hw_role w)) (Authenticate E s cookie (hw_now w)) s"
| "user_api E w cookie s (PostUser body) =
     (let a = actor_of E w cookie
      in if ac_Role a \<noteq> ''admin'' then (Inl ErrForbidden, s)
         else with_body body s (\<lambda>(username, password, role).
           commit_answer UserReply (CreateUser E s a username password (if role = [] then ''member'' else role)
             (hw_token w) (hw_salt w) (hw_now w)) s))"
| "user_api E w cookie s (PostRole uid body) =
     (if ac_Role (actor_of E w cookie) \<noteq> ''admin'' then (Inl ErrForbidden, s)
      else with_body body s (\<lambda>role. commit (SetUserRole s (actor_of E w cookie) uid role (hw_now w)) s))"
| "user_api E w cookie s GetUsers =
     (if ac_Role (actor_of E w cookie) \<noteq> ''admin'' then (Inl ErrForbidden, s)
      else (Inr (UsersReply (map actor_row (sort_key (\<lambda>u. nocase (u_username u)) (users s)))), s))"
| "user_api E w cookie s (PostPassword uid body) =
     (let a = actor_of E w cookie
      in case RequireOwner a uid of
           Inl e \<Rightarrow> (Inl e, s)
         | Inr _ \<Rightarrow> with_body body s (\<lambda>password. commit (ChangePassword E s a uid password (hw_salt w) (hw_now w)) s))"
| "user_api E w cookie s (PostUserEnabled uid body) =
     (let a = actor_of E w cookie
      in if ac_Role a \<noteq> ''admin'' then (Inl ErrForbidden, s)
         else with_body body s (\<lambda>en. case en of
             None \<Rightarrow> (Inl ErrInvalid, s)
           | Some b \<Rightarrow> commit (SetUserEnabled E s a uid b (hw_now w)) s))"

section \<open>Tailnets\<close>

datatype tailnet_call =
    GetTailnets | GetTailnet string | PostTailnet "(string \<times> string \<times> oauth_credential) option"
  | PostCredential string "oauth_credential option" | DelCredential string | PostTransfer string "string option"

fun tailnet_api :: "env \<Rightarrow> http_world \<Rightarrow> actor \<Rightarrow> store \<Rightarrow> tailnet_call \<Rightarrow> outcome" where
  "tailnet_api E w a s GetTailnets = answer TailnetsReply (ListTailnets s a) s"
| "tailnet_api E w a s (GetTailnet rid) = answer TailnetReply (Tailnet s a rid) s"
| "tailnet_api E w a s (PostTailnet body) =
     with_body body s (\<lambda>(name, api, c). answer_store TailnetReply (AddTailnet E (hw_api w) s a name api c (hw_token w) (hw_nonce w) (hw_now w)))"
| "tailnet_api E w a s (PostCredential rid body) =
     (case Tailnet (hw_before w) a rid of
        Inl e \<Rightarrow> (Inl e, s)
      | Inr _ \<Rightarrow> with_body body s (\<lambda>c. commit (ReplaceCredential E (hw_api w) (hw_before w) s a rid c (hw_nonce w) (hw_now w)) s))"
| "tailnet_api E w a s (DelCredential rid) = commit (DeleteCredential E s a rid (hw_now w)) s"
| "tailnet_api E w a s (PostTransfer rid body) =
     (if ac_Role a \<noteq> ''admin'' then (Inl ErrForbidden, s)
      else with_body body s (\<lambda>owner. commit (TransferTailnet E s a rid owner (hw_now w)) s))"

section \<open>Nodes\<close>

datatype node_call =
    PostRecover string "string option" | GetNodes | GetNode string | PostNode "(string \<times> string \<times> int \<times> int) option"
  | PostPorts string "(int \<times> int) option" | PostEnrollment string

fun node_api :: "env \<Rightarrow> http_world \<Rightarrow> actor \<Rightarrow> store \<Rightarrow> node_call \<Rightarrow> outcome" where
  "node_api E w a s (PostRecover rid body) = with_body body s (\<lambda>inst. commit (RecoverNodeInstance E s a rid inst (hw_now w)) s)"
| "node_api E w a s GetNodes = answer NodesReply (ListNodes s a) s"
| "node_api E w a s (GetNode rid) = answer NodeReply (Node s a rid) s"
| "node_api E w a s (PostNode body) =
     with_body body s (\<lambda>(name, domain, derpPort, stunPort).
       (case CreateNode E s a name domain derpPort stunPort (hw_token w) (hw_code w) (hw_now w) of
          Inl e \<Rightarrow> (Inl e, s)
        | Inr (n, e, s') \<Rightarrow> (Inr (CreatedReply n e), s')))"
| "node_api E w a s (PostPorts rid body) =
     with_body body s (\<lambda>(derpPort, stunPort). commit (SetNodePorts s a rid derpPort stunPort (hw_now w)) s)"
| "node_api E w a s (PostEnrollment rid) = commit_answer EnrollmentReply (IssueEnrollment E s a rid (hw_code w) (hw_now w)) s"

text \<open>What nodes call themselves; \<open>bearer\<close> is the token of the \<^verbatim>\<open>Authorization\<close> header.\<close>

datatype cluster_call =
    ClusterPorts "(int \<times> int) option" | ClusterLeave | ClusterEnrollChallenge "(string \<times> string \<times> string) option"
  | ClusterEnroll "enrollment_request option" | ClusterSessionChallenge "(string \<times> string) option"
  | ClusterSession "(node_challenge \<times> string) option" | ClusterHeartbeat "node_report option option" | ClusterAck "policy_ack option"

definition nodeBearer :: "string \<Rightarrow> string" where
  "nodeBearer header = (if take 7 header = ''Bearer '' then drop 7 header else [])"

fun cluster_api :: "env \<Rightarrow> http_world \<Rightarrow> string \<Rightarrow> store \<Rightarrow> cluster_call \<Rightarrow> outcome" where
  "cluster_api E w bearer s (ClusterPorts body) =
     with_body body s (\<lambda>(derpPort, stunPort). commit (SetNodeSessionPorts E s bearer derpPort stunPort (hw_now w)) s)"
| "cluster_api E w bearer s ClusterLeave = commit (ReleaseNode E s bearer (hw_now w)) s"
| "cluster_api E w bearer s (ClusterEnrollChallenge body) =
     with_body body s (\<lambda>(code, pub, inst). commit_answer ChallengeReply (EnrollmentChallenge E s code pub inst (hw_nonce w) (hw_now w)) s)"
| "cluster_api E w bearer s (ClusterEnroll body) =
     with_body body s (\<lambda>req. commit_answer NodeSessionReply
       (EnrollNode E (hw_before w) s (hw_verified w) req (hw_token w) (hw_nonce w) (hw_now w) (hw_now' w)) s)"
| "cluster_api E w bearer s (ClusterSessionChallenge body) =
     with_body body s (\<lambda>(rid, inst). commit_answer ChallengeReply (SessionChallenge E s rid inst (hw_nonce w) (hw_now w)) s)"
| "cluster_api E w bearer s (ClusterSession body) =
     with_body body s (\<lambda>(ch, sig). answer_store NodeSessionReply
       (RenewNodeSession E (hw_before w) s (hw_verified w) ch sig (hw_token w) (hw_now w) (hw_now' w)))"
| "cluster_api E w bearer s (ClusterHeartbeat body) =
     with_body body s (\<lambda>report. commit_answer HeartbeatReply (NodeHeartbeat E s bearer report (hw_now w)) s)"
| "cluster_api E w bearer s (ClusterAck body) = with_body body s (\<lambda>ack. commit (AcknowledgePolicy E s bearer ack (hw_now w)) s)"

section \<open>Grants and resources\<close>

definition ListRelays :: "store \<Rightarrow> actor \<Rightarrow> node list result" where
  "ListRelays s actor =
     bindE (RequireOwner actor (ac_ID actor)) (\<lambda>_.
     Inr (map scanNode (sort_key n_display_name (sort_key n_id
       (filter (\<lambda>n. user_enabled s (n_owner_id n) \<and> n_enabled n \<and> serving_state (n_state n)) (nodes s))))))"

datatype grant_call =
    GetRelays | GetGrants | GetGrant string | PostGrant "(string \<times> string \<times> nat \<times> time) option"
  | PostAction string "(nat \<times> grant_action) option" | GetDerpMap string | GetQoS string | PostQoS string "qos_policy option"

fun grant_api :: "env \<Rightarrow> http_world \<Rightarrow> actor \<Rightarrow> store \<Rightarrow> grant_call \<Rightarrow> outcome" where
  "grant_api E w a s GetRelays = answer NodesReply (ListRelays s a) s"
| "grant_api E w a s GetGrants = answer GrantsReply (ListGrants s a (hw_now w)) s"
| "grant_api E w a s (GetGrant rid) = answer GrantReply (Grant s a rid (hw_now w)) s"
| "grant_api E w a s (PostGrant body) =
     with_body body s (\<lambda>(node, tailnet, expected, until).
       commit_answer GrantReply (RequestGrant E s a node tailnet expected until (hw_token w) (hw_now w)) s)"
| "grant_api E w a s (PostAction rid body) =
     with_body body s (\<lambda>(expected, action). commit_answer GrantReply (ApplyGrantAction E s a rid expected action (hw_now w)) s)"
| "grant_api E w a s (GetDerpMap rid) = answer DerpMapReply (BuildDERPMap E s a rid (hw_now w)) s"
| "grant_api E w a s (GetQoS rid) = answer QoSReply (NodeQoS s a rid) s"
| "grant_api E w a s (PostQoS rid body) = with_body body s (\<lambda>q. commit (SetNodeQoS E s a rid q (hw_now w)) s)"

datatype resource_call =
    PostDomain string "string option" | PostTailnetEnabled string "bool option option" | DelTailnet string
  | PostNodeEnabled string "bool option option" | DelNode string

fun resource_api :: "env \<Rightarrow> http_world \<Rightarrow> actor \<Rightarrow> store \<Rightarrow> resource_call \<Rightarrow> outcome" where
  "resource_api E w a s (PostDomain rid body) = with_body body s (\<lambda>domain. commit (ChangeNodeDomain s a rid domain (hw_now w)) s)"
| "resource_api E w a s (PostTailnetEnabled rid body) =
     with_body body s (\<lambda>en. case en of None \<Rightarrow> (Inl ErrInvalid, s) | Some b \<Rightarrow> commit (SetTailnetEnabled E s a rid b (hw_now w)) s)"
| "resource_api E w a s (DelTailnet rid) = commit (DeleteTailnet E s a rid (hw_now w)) s"
| "resource_api E w a s (PostNodeEnabled rid body) =
     with_body body s (\<lambda>en. case en of None \<Rightarrow> (Inl ErrInvalid, s) | Some b \<Rightarrow> commit (SetNodeEnabled E s a rid b (hw_now w)) s)"
| "resource_api E w a s (DelNode rid) = commit (DeleteNode s a rid (hw_now w)) s"

datatype observe_call = GetSummary string | PostProbe string "unit option" | GetEvents | GetAudit | GetStatus string

fun observe_api :: "env \<Rightarrow> http_world \<Rightarrow> actor \<Rightarrow> store \<Rightarrow> observe_call \<Rightarrow> outcome" where
  "observe_api E w a s (GetSummary rid) = answer SummaryReply (RelaySummary s a rid (hw_now w)) s"
| "observe_api E w a s (PostProbe rid body) =
     with_body body s (\<lambda>_. commit_answer ProbesReply
       (ProbeNode (hw_before w) s a rid (hw_probeFull w) (hw_probe w) (hw_timeout w) (hw_now w)) s)"
| "observe_api E w a s GetEvents = answer EventsReply (Events s a) s"
| "observe_api E w a s GetAudit = answer AuditReply (Audit s a) s"
| "observe_api E w a s (GetStatus rid) = answer StatusReply (NodeStatus E s a rid (hw_now w)) s"

datatype retention_call = GetRetention | PostRetention "retentions option"

fun retention_api :: "env \<Rightarrow> http_world \<Rightarrow> actor \<Rightarrow> store \<Rightarrow> retention_call \<Rightarrow> outcome" where
  "retention_api E w a s GetRetention = answer RetentionsReply (Retentions s) s"
| "retention_api E w a s (PostRetention body) = with_body body s (\<lambda>r. commit (SetRetentions E s a r (hw_now w)) s)"

section \<open>Routes\<close>

datatype call =
    User user_call | Tailnets tailnet_call | Nodes node_call | Grants grant_call | Resources resource_call | Observe observe_call
  | Settings retention_call | Login "(string \<times> string) option" | Setup "(string \<times> string) option" | Cluster cluster_call

fun user_path :: "user_call \<Rightarrow> string" where
  "user_path GetSetup = ''/api/v1/setup''"
| "user_path PostLogout = ''/api/v1/logout''"
| "user_path GetSession = ''/api/v1/session''"
| "user_path (PostUser _) = ''/api/v1/users''"
| "user_path (PostRole uid _) = ''/api/v1/users/'' @ uid @ ''/role''"
| "user_path GetUsers = ''/api/v1/users''"
| "user_path (PostPassword uid _) = ''/api/v1/users/'' @ uid @ ''/password''"
| "user_path (PostUserEnabled uid _) = ''/api/v1/users/'' @ uid @ ''/enabled''"

fun cluster_path :: "cluster_call \<Rightarrow> string" where
  "cluster_path (ClusterPorts _) = ''/cluster/v1/node/ports''"
| "cluster_path ClusterLeave = ''/cluster/v1/node/leave''"
| "cluster_path (ClusterEnrollChallenge _) = ''/cluster/v1/enroll/challenge''"
| "cluster_path (ClusterEnroll _) = ''/cluster/v1/enroll''"
| "cluster_path (ClusterSessionChallenge _) = ''/cluster/v1/session/challenge''"
| "cluster_path (ClusterSession _) = ''/cluster/v1/session''"
| "cluster_path (ClusterHeartbeat _) = ''/cluster/v1/heartbeat''"
| "cluster_path (ClusterAck _) = ''/cluster/v1/ack''"

fun tailnet_path :: "tailnet_call \<Rightarrow> string" where
  "tailnet_path GetTailnets = ''/api/v1/tailnets''"
| "tailnet_path (GetTailnet rid) = ''/api/v1/tailnets/'' @ rid"
| "tailnet_path (PostTailnet _) = ''/api/v1/tailnets''"
| "tailnet_path (PostCredential rid _) = ''/api/v1/tailnets/'' @ rid @ ''/credential''"
| "tailnet_path (DelCredential rid) = ''/api/v1/tailnets/'' @ rid @ ''/credential''"
| "tailnet_path (PostTransfer rid _) = ''/api/v1/tailnets/'' @ rid @ ''/transfer''"

fun node_path :: "node_call \<Rightarrow> string" where
  "node_path (PostRecover rid _) = ''/api/v1/nodes/'' @ rid @ ''/recover''"
| "node_path GetNodes = ''/api/v1/nodes''"
| "node_path (GetNode rid) = ''/api/v1/nodes/'' @ rid"
| "node_path (PostNode _) = ''/api/v1/nodes''"
| "node_path (PostPorts rid _) = ''/api/v1/nodes/'' @ rid @ ''/ports''"
| "node_path (PostEnrollment rid) = ''/api/v1/nodes/'' @ rid @ ''/enrollment''"

fun grant_path :: "grant_call \<Rightarrow> string" where
  "grant_path GetRelays = ''/api/v1/relays''"
| "grant_path GetGrants = ''/api/v1/grants''"
| "grant_path (GetGrant rid) = ''/api/v1/grants/'' @ rid"
| "grant_path (PostGrant _) = ''/api/v1/grants''"
| "grant_path (PostAction rid _) = ''/api/v1/grants/'' @ rid @ ''/actions''"
| "grant_path (GetDerpMap rid) = ''/api/v1/tailnets/'' @ rid @ ''/derpmap''"
| "grant_path (GetQoS rid) = ''/api/v1/nodes/'' @ rid @ ''/qos''"
| "grant_path (PostQoS rid _) = ''/api/v1/nodes/'' @ rid @ ''/qos''"

fun resource_path :: "resource_call \<Rightarrow> string" where
  "resource_path (PostDomain rid _) = ''/api/v1/nodes/'' @ rid @ ''/domain''"
| "resource_path (PostTailnetEnabled rid _) = ''/api/v1/tailnets/'' @ rid @ ''/enabled''"
| "resource_path (DelTailnet rid) = ''/api/v1/tailnets/'' @ rid"
| "resource_path (PostNodeEnabled rid _) = ''/api/v1/nodes/'' @ rid @ ''/enabled''"
| "resource_path (DelNode rid) = ''/api/v1/nodes/'' @ rid"

fun observe_path :: "observe_call \<Rightarrow> string" where
  "observe_path (GetSummary rid) = ''/api/v1/nodes/'' @ rid @ ''/summary''"
| "observe_path (PostProbe rid _) = ''/api/v1/nodes/'' @ rid @ ''/probe''"
| "observe_path GetEvents = ''/api/v1/events''"
| "observe_path GetAudit = ''/api/v1/audit''"
| "observe_path (GetStatus rid) = ''/api/v1/nodes/'' @ rid @ ''/status''"

fun call_path :: "call \<Rightarrow> string" where
  "call_path (User c) = user_path c"
| "call_path (Tailnets c) = tailnet_path c"
| "call_path (Nodes c) = node_path c"
| "call_path (Grants c) = grant_path c"
| "call_path (Resources c) = resource_path c"
| "call_path (Observe c) = observe_path c"
| "call_path (Settings _) = ''/api/v1/settings/retention''"
| "call_path (Login _) = ''/api/v1/login''"
| "call_path (Setup _) = ''/api/v1/setup''"
| "call_path (Cluster c) = cluster_path c"

text \<open>The calls whose method is \<^verbatim>\<open>GET\<close>; the others are \<^verbatim>\<open>POST\<close> or \<^verbatim>\<open>DELETE\<close>.\<close>

fun is_read :: "call \<Rightarrow> bool" where
  "is_read (User c) = (case c of GetSetup \<Rightarrow> True | GetSession \<Rightarrow> True | GetUsers \<Rightarrow> True | _ \<Rightarrow> False)"
| "is_read (Tailnets c) = (case c of GetTailnets \<Rightarrow> True | GetTailnet _ \<Rightarrow> True | _ \<Rightarrow> False)"
| "is_read (Nodes c) = (case c of GetNodes \<Rightarrow> True | GetNode _ \<Rightarrow> True | _ \<Rightarrow> False)"
| "is_read (Grants c) = (case c of PostGrant _ \<Rightarrow> False | PostAction _ _ \<Rightarrow> False | PostQoS _ _ \<Rightarrow> False | _ \<Rightarrow> True)"
| "is_read (Observe c) = (case c of PostProbe _ _ \<Rightarrow> False | _ \<Rightarrow> True)"
| "is_read (Settings c) = (case c of GetRetention \<Rightarrow> True | _ \<Rightarrow> False)"
| "is_read _ = False"

section \<open>The gate\<close>

record request =
  rq_call :: call
  rq_cookie :: "string option"
  rq_csrf :: string
  rq_authorization :: string
  rq_peer :: string
  rq_origin :: string
  rq_host :: string
  rq_mediaType :: "string option"

record server =
  sv_store :: store
  sv_attempts :: attempts
  sv_nodeAttempts :: attempts

datatype http_reply = NotFound | TooMany | Replied "payload result"

definition with_store :: "server \<Rightarrow> outcome \<Rightarrow> http_reply \<times> server" where
  "with_store sv o1 = (Replied (fst o1), sv\<lparr>sv_store := snd o1\<rparr>)"

definition mux :: "env \<Rightarrow> http_world \<Rightarrow> string \<Rightarrow> store \<Rightarrow> call \<Rightarrow> outcome" where
  "mux E w cookie s c =
     (let a = actor_of E w cookie
      in case c of
           User u \<Rightarrow> user_api E w cookie s u
         | Tailnets t \<Rightarrow> tailnet_api E w a s t
         | Nodes n \<Rightarrow> node_api E w a s n
         | Grants g \<Rightarrow> grant_api E w a s g
         | Resources r \<Rightarrow> resource_api E w a s r
         | Observe q \<Rightarrow> observe_api E w a s q
         | Settings q \<Rightarrow> retention_api E w a s q
         | _ \<Rightarrow> (Inl ErrNoRows, s))"

text \<open>
  \<^verbatim>\<open>login\<close>, which is also the first set-up: the administrator it creates stays even when the login
  after it fails.
\<close>

definition setup_refused :: "request \<Rightarrow> store \<Rightarrow> go_error option" where
  "setup_refused r s =
     (if hasAdmin s then Some ErrConflict
      else if rq_origin r \<noteq> ''https://'' @ rq_host r \<and> rq_origin r \<noteq> ''http://'' @ rq_host r \<or> rq_mediaType r \<noteq> Some ''application/json''
      then Some ErrForbidden else None)"

definition login_store :: "env \<Rightarrow> http_world \<Rightarrow> bool \<Rightarrow> string \<Rightarrow> string \<Rightarrow> store \<Rightarrow> outcome" where
  "login_store E w initial username password s =
     (case (if initial then (case InitializeAdmin E s username password (hw_token w) (hw_salt w) (hw_now w) of Inl e \<Rightarrow> Inl e | Inr (_, s1) \<Rightarrow> Inr s1)
            else Inr s) of
        Inl e \<Rightarrow> (Inl e, s)
      | Inr s1 \<Rightarrow>
          (case login E s1 s1 username password (hw_code w) (hw_now w) of
             Inl e \<Rightarrow> (Inl e, s1)
           | Inr ((token, csrf), s2) \<Rightarrow> (Inr (TokenReply csrf token), s2)))"

definition login_handler :: "env \<Rightarrow> http_world \<Rightarrow> bool \<Rightarrow> (string \<times> string) option \<Rightarrow> request \<Rightarrow> server \<Rightarrow> http_reply \<times> server" where
  "login_handler E w initial body r sv =
     (case (if initial then setup_refused r (hw_gate w) else None) of
        Some e \<Rightarrow> (Replied (Inl e), sv)
      | None \<Rightarrow>
          (case allow_login (rq_peer r) (hw_now w) (sv_attempts sv) of
             (False, as) \<Rightarrow> (TooMany, sv\<lparr>sv_attempts := as\<rparr>)
           | (True, as) \<Rightarrow>
               (case body of
                  None \<Rightarrow> (Replied (Inl ErrInvalid), sv\<lparr>sv_attempts := as\<rparr>)
                | Some (username, password) \<Rightarrow>
                    (case login_store E w initial username password (sv_store sv) of
                       (Inl e, s) \<Rightarrow> (Replied (Inl e), sv\<lparr>sv_attempts := as, sv_store := s\<rparr>)
                     | (Inr p, s) \<Rightarrow> (Replied (Inr p), sv\<lparr>sv_attempts := filter (\<lambda>(k, _). k \<noteq> rq_peer r) as, sv_store := s\<rparr>)))))"

definition member_path :: "actor \<Rightarrow> string \<Rightarrow> bool" where
  "member_path a path \<longleftrightarrow> path = ''/api/v1/session'' \<or> path = ''/api/v1/logout'' \<or> take 14 path = ''/api/v1/local/''
     \<or> path = ''/api/v1/users/'' @ ac_ID a @ ''/password''"

definition serve_api :: "env \<Rightarrow> http_world \<Rightarrow> request \<Rightarrow> server \<Rightarrow> http_reply \<times> server" where
  "serve_api E w r sv =
     (case rq_cookie r of
        None \<Rightarrow> (Replied (Inl ErrUnauthorized), sv)
      | Some cookie \<Rightarrow>
          (case Authenticate E (hw_gate w) cookie (hw_now w) of
             Inl e \<Rightarrow> (Replied (Inl e), sv)
           | Inr a \<Rightarrow>
               if hw_role w \<noteq> ''controller'' \<and> \<not> member_path a (call_path (rq_call r)) then (NotFound, sv)
               else (case (if is_read (rq_call r) then Inr () else checkCSRF E (hw_gate w) cookie (rq_csrf r)) of
                   Inl e \<Rightarrow> (Replied (Inl e), sv)
                 | Inr _ \<Rightarrow> with_store sv (mux E w cookie (sv_store sv) (rq_call r)))))"

definition limited :: "string \<Rightarrow> bool" where
  "limited path \<longleftrightarrow> path = ''/cluster/v1/enroll/challenge'' \<or> path = ''/cluster/v1/enroll'' \<or> path = ''/cluster/v1/session/challenge''
     \<or> path = ''/cluster/v1/session''"

definition serve_cluster :: "env \<Rightarrow> http_world \<Rightarrow> request \<Rightarrow> cluster_call \<Rightarrow> server \<Rightarrow> http_reply \<times> server" where
  "serve_cluster E w r c sv =
     (if hw_role w \<noteq> ''controller'' then (NotFound, sv)
      else case (if limited (cluster_path c) then allowNodeAttempt (rq_peer r) (hw_now w) (sv_nodeAttempts sv) else (True, sv_nodeAttempts sv)) of
        (False, as) \<Rightarrow> (TooMany, sv\<lparr>sv_nodeAttempts := as\<rparr>)
      | (True, as) \<Rightarrow> with_store (sv\<lparr>sv_nodeAttempts := as\<rparr>) (cluster_api E w (nodeBearer (rq_authorization r)) (sv_store sv) c))"

definition ServeHTTP :: "env \<Rightarrow> http_world \<Rightarrow> request \<Rightarrow> server \<Rightarrow> http_reply \<times> server" where
  "ServeHTTP E w r sv =
     (case rq_call r of
        Cluster c \<Rightarrow> serve_cluster E w r c sv
      | Login body \<Rightarrow> login_handler E w (call_path (Login body) = ''/api/v1/setup'') body r sv
      | Setup body \<Rightarrow> login_handler E w (call_path (Setup body) = ''/api/v1/setup'') body r sv
      | User GetSetup \<Rightarrow> with_store sv (user_api E w [] (sv_store sv) GetSetup)
      | _ \<Rightarrow> serve_api E w r sv)"

section \<open>Consistency\<close>

lemma answer_store_snd: "snd (answer f r s) = s"
  by (simp add: answer_def)

lemma with_body_cases: "with_body body s f = (Inl ErrInvalid, s) \<or> (\<exists>b. body = Some b \<and> with_body body s f = f b)"
  by (simp add: with_body_def split: option.split)

text \<open>What every handler keeps, if the operation it calls does.\<close>

lemma keeps_rules:
  "P s \<Longrightarrow> P (snd (answer f r s))"
  "P s \<Longrightarrow> (\<And>b. body = Some b \<Longrightarrow> P (snd (g b))) \<Longrightarrow> P (snd (with_body body s g))"
  "P s \<Longrightarrow> (\<And>s'. r0 = Inr s' \<Longrightarrow> P s') \<Longrightarrow> P (snd (commit r0 s))"
  "P s \<Longrightarrow> (\<And>x s'. r1 = Inr (x, s') \<Longrightarrow> P s') \<Longrightarrow> P (snd (commit_answer f1 r1 s))"
  "P (snd r2) \<Longrightarrow> P (snd (answer_store f2 r2))"
  by (auto simp: answer_def with_body_def commit_def commit_answer_def answer_store_def split: option.split sum.split prod.split)

text \<open>The random texts of a request are not the name of the local administrator.\<close>

definition fresh_texts :: "http_world \<Rightarrow> bool" where
  "fresh_texts w \<longleftrightarrow> length (hw_token w) = 64"

lemma fresh_token: "fresh_texts w \<Longrightarrow> hw_token w \<noteq> ''local''"
  by (auto simp: fresh_texts_def)

lemmas db_keeps = keeps_rules [where P = "db_inv E" for E]

lemma user_api_inv:
  assumes s: "db_inv E s" and w: "fresh_texts w"
  shows "db_inv E (snd (user_api E w cookie s c))"
proof (cases c)
  case (PostUser body)
  have "db_inv E (snd (commit_answer UserReply (CreateUser E s a username password role (hw_token w) salt now) s))" for a username password role salt now
    by (rule db_keeps(4) [OF s]) (rule CreateUser_inv [OF _ fresh_token [OF w] s])
  with s show ?thesis unfolding PostUser by (auto simp: Let_def intro: db_keeps(2))
next
  case (PostRole uid body)
  have "db_inv E (snd (commit (SetUserRole s a uid role now) s))" for a role now
    by (rule db_keeps(3) [OF s]) (rule SetUserRole_inv [OF _ s])
  with s show ?thesis unfolding PostRole by (auto intro: db_keeps(2))
next
  case (PostPassword uid body)
  have "db_inv E (snd (commit (ChangePassword E s a uid password salt now) s))" for a password salt now
    by (rule db_keeps(3) [OF s]) (rule ChangePassword_inv [OF _ s])
  with s show ?thesis unfolding PostPassword by (auto simp: Let_def intro: db_keeps(2) split: sum.split)
next
  case (PostUserEnabled uid body)
  have "db_inv E (snd (commit (SetUserEnabled E s a uid b now) s))" for a b now
    by (rule db_keeps(3) [OF s]) (rule SetUserEnabled_inv [OF _ s])
  with s show ?thesis unfolding PostUserEnabled by (auto simp: Let_def intro!: db_keeps(2) split: option.split)
qed (use s in \<open>auto simp: answer_def intro: db_inv_sessions_delete\<close>)

lemma tailnet_api_inv:
  assumes "db_inv E s" "np_roundtrip E"
  shows "db_inv E (snd (tailnet_api E w a s c))"
proof (cases c)
  case (PostTailnet body)
  have "db_inv E (snd (AddTailnet E api s a name raw cr rid nonce now))" for api name raw cr rid nonce now
    using AddTailnet_inv [OF _ assms] by (metis surj_pair snd_conv)
  with PostTailnet assms show ?thesis by (auto intro!: db_keeps split: prod.split)
qed (use assms in \<open>auto intro!: db_keeps split: sum.split intro: ReplaceCredential_inv DeleteCredential_inv TransferTailnet_inv\<close>)

lemma node_api_inv: "db_inv E s \<Longrightarrow> db_inv E (snd (node_api E w a s c))"
  by (cases c) (auto intro!: db_keeps split: sum.split prod.split
      intro: RecoverNodeInstance_inv CreateNode_inv SetNodePorts_inv IssueEnrollment_inv)

lemma cluster_api_inv:
  assumes "db_inv E s"
  shows "db_inv E (snd (cluster_api E w bearer s c))"
proof (cases c)
  case (ClusterSession body)
  have "db_inv E (snd (RenewNodeSession E s0 s v ch sig token now now'))" for s0 v ch sig token now now'
    using RenewNodeSession_inv [OF _ assms] by (metis surj_pair snd_conv)
  with ClusterSession assms show ?thesis by (auto intro!: db_keeps split: prod.split)
qed (use assms in \<open>auto intro!: db_keeps split: prod.split intro: SetNodeSessionPorts_inv ReleaseNode_inv EnrollmentChallenge_inv
      EnrollNode_inv SessionChallenge_inv NodeHeartbeat_inv AcknowledgePolicy_inv\<close>)

lemma grant_api_inv: "db_inv E s \<Longrightarrow> db_inv E (snd (grant_api E w a s c))"
  by (cases c) (auto intro!: db_keeps split: prod.split intro: RequestGrant_inv ApplyGrantAction_inv SetNodeQoS_inv)

lemma resource_api_inv: "db_inv E s \<Longrightarrow> db_inv E (snd (resource_api E w a s c))"
  by (cases c) (auto intro!: db_keeps split: option.split
      intro: ChangeNodeDomain_inv SetTailnetEnabled_inv DeleteTailnet_inv SetNodeEnabled_inv DeleteNode_inv)

lemma observe_api_inv: "db_inv E s \<Longrightarrow> db_inv E (snd (observe_api E w a s c))"
  by (cases c) (auto intro!: db_keeps intro: ProbeNode_inv)

lemma retention_api_inv: "db_inv E s \<Longrightarrow> db_inv E (snd (retention_api E w a s c))"
  by (cases c) (auto intro!: db_keeps intro: SetRetentions_inv)

lemma mux_inv: "db_inv E s \<Longrightarrow> np_roundtrip E \<Longrightarrow> fresh_texts w \<Longrightarrow> db_inv E (snd (mux E w cookie s c))"
  by (cases c) (simp_all add: mux_def Let_def user_api_inv tailnet_api_inv node_api_inv grant_api_inv resource_api_inv observe_api_inv retention_api_inv)

lemma login_store_inv:
  assumes "db_inv E s" "fresh_texts w"
  shows "db_inv E (snd (login_store E w initial username password s))"
proof -
  have l: "db_inv E s2" if "login E s1 s1 username password token now = Inr (x, s2)" "db_inv E s1" for s1 s2 x token now
    using login_inv that by blast
  have i: "db_inv E s1" if "InitializeAdmin E s username password (hw_token w) (hw_salt w) (hw_now w) = Inr (a, s1)" for a s1
    using InitializeAdmin_inv that fresh_token assms by blast
  show ?thesis using assms(1) i l by (auto simp: login_store_def split: sum.split prod.split)
qed

lemma login_handler_inv:
  assumes "db_inv E (sv_store sv)" "fresh_texts w"
  shows "db_inv E (sv_store (snd (login_handler E w initial body r sv)))"
proof -
  have "db_inv E s" if "login_store E w initial u p (sv_store sv) = (res, s)" for u p res s
    using login_store_inv [OF assms, of initial u p] that by simp
  with assms(1) show ?thesis by (auto simp: login_handler_def split: option.split prod.split sum.split bool.split)
qed

lemma serve_cluster_inv: "db_inv E (sv_store sv) \<Longrightarrow> db_inv E (sv_store (snd (serve_cluster E w r c sv)))"
  by (auto simp: serve_cluster_def with_store_def cluster_api_inv split: prod.split bool.split)

lemma serve_api_inv:
  "db_inv E (sv_store sv) \<Longrightarrow> np_roundtrip E \<Longrightarrow> fresh_texts w \<Longrightarrow> db_inv E (sv_store (snd (serve_api E w r sv)))"
  by (auto simp: serve_api_def with_store_def mux_inv split: option.split sum.split)

lemma ServeHTTP_inv:
  assumes "db_inv E (sv_store sv)" "np_roundtrip E" "fresh_texts w"
  shows "db_inv E (sv_store (snd (ServeHTTP E w r sv)))"
  using assms serve_api_inv [OF assms, of r] login_handler_inv serve_cluster_inv
  by (auto simp: ServeHTTP_def with_store_def split: call.split user_call.split)

section \<open>Who may change the store\<close>

lemma read_keeps: "is_read c \<Longrightarrow> snd (mux E w cookie s c) = s"
proof (cases c)
  case (User u)
  moreover assume "is_read c"
  ultimately show ?thesis by (cases u) (simp_all add: mux_def answer_def)
next
  case (Tailnets u)
  moreover assume "is_read c"
  ultimately show ?thesis by (cases u) (simp_all add: mux_def answer_def Let_def)
next
  case (Nodes u)
  moreover assume "is_read c"
  ultimately show ?thesis by (cases u) (simp_all add: mux_def answer_def Let_def)
next
  case (Grants u)
  moreover assume "is_read c"
  ultimately show ?thesis by (cases u) (simp_all add: mux_def answer_def Let_def)
next
  case (Observe u)
  moreover assume "is_read c"
  ultimately show ?thesis by (cases u) (simp_all add: mux_def answer_def Let_def)
next
  case (Settings u)
  moreover assume "is_read c"
  ultimately show ?thesis by (cases u) (simp_all add: mux_def answer_def Let_def)
qed simp_all

text \<open>A request of the console that passed the gate: a live session, and the session's own token against forgery.\<close>

definition passed_gate :: "env \<Rightarrow> http_world \<Rightarrow> request \<Rightarrow> string \<Rightarrow> actor \<Rightarrow> bool" where
  "passed_gate E w r cookie a \<longleftrightarrow> rq_cookie r = Some cookie \<and> Authenticate E (hw_gate w) cookie (hw_now w) = Inr a
     \<and> checkCSRF E (hw_gate w) cookie (rq_csrf r) = Inr () \<and> (hw_role w = ''controller'' \<or> member_path a (call_path (rq_call r)))"

lemma serve_api_changes:
  assumes "sv_store (snd (serve_api E w r sv)) \<noteq> sv_store sv"
  shows "\<exists>cookie a. passed_gate E w r cookie a"
  using assms read_keeps
  by (auto simp: serve_api_def passed_gate_def with_store_def split: option.splits sum.splits if_splits)

section \<open>The limits hold\<close>

text \<open>A table of attempts: one entry for an address, at most 1024 of them, none above the limit.\<close>

definition attempts_ok :: "nat \<Rightarrow> attempts \<Rightarrow> bool" where
  "attempts_ok limit as \<longleftrightarrow> distinct (map fst as) \<and> length as \<le> 1024 \<and> (\<forall>x\<in>set as. fst (snd x) \<le> limit)"

lemma attempts_filter: "attempts_ok limit as \<Longrightarrow> attempts_ok limit (filter P as)"
  by (auto simp: attempts_ok_def distinct_map_filter intro: le_trans [OF length_filter_le])

lemma attempts_set:
  assumes "attempts_ok limit as" "n \<le> limit" "length as < 1024 \<or> ip \<in> fst ` set as"
  shows "attempts_ok limit (set_attempt ip n until as)"
proof -
  have "length (filter (\<lambda>(k, _). k \<noteq> ip) as) < length as" if "ip \<in> fst ` set as"
    using that by (auto intro: length_filter_less)
  with assms have "length (filter (\<lambda>(k, _). k \<noteq> ip) as) < 1024"
    using length_filter_le [of "\<lambda>(k, _). k \<noteq> ip" as] unfolding attempts_ok_def by linarith
  with assms attempts_filter [OF assms(1), of "\<lambda>(k, _). k \<noteq> ip"] show ?thesis by (auto simp: attempts_ok_def set_attempt_def)
qed

lemma attempt_known: "0 < attempt_count as ip \<Longrightarrow> ip \<in> fst ` set as"
  by (auto simp: attempt_count_def split: option.splits dest: map_of_SomeD intro: rev_image_eqI)

lemma allowNodeAttempt_ok: "attempts_ok 30 as \<Longrightarrow> attempts_ok 30 (snd (allowNodeAttempt ip now as))"
  using attempts_filter [of 30 as "\<lambda>(_, _, until). now < until"] attempt_known [of "live_attempts now as" ip]
  by (auto simp: allowNodeAttempt_def Let_def live_attempts_def intro!: attempts_set)

lemma allow_login_ok: "attempts_ok 5 as \<Longrightarrow> attempts_ok 5 (snd (allow_login ip now as))"
  using attempts_filter [of 5 as "\<lambda>(_, _, until). now < until"]
  by (auto simp: allow_login_def Let_def live_attempts_def intro!: attempts_set)

lemma ServeHTTP_ok:
  assumes "attempts_ok 5 (sv_attempts sv)" "attempts_ok 30 (sv_nodeAttempts sv)"
  shows "attempts_ok 5 (sv_attempts (snd (ServeHTTP E w r sv))) \<and> attempts_ok 30 (sv_nodeAttempts (snd (ServeHTTP E w r sv)))"
proof -
  have "attempts_ok 5 (sv_attempts (snd (serve_api E w r sv))) \<and> attempts_ok 30 (sv_nodeAttempts (snd (serve_api E w r sv)))"
    using assms by (simp add: serve_api_def with_store_def split: option.split sum.split)
  moreover have "attempts_ok 5 (sv_attempts (snd (serve_cluster E w r c sv))) \<and> attempts_ok 30 (sv_nodeAttempts (snd (serve_cluster E w r c sv)))" for c
    using assms allowNodeAttempt_ok [OF assms(2), of "rq_peer r" "hw_now w"]
    by (auto simp: serve_cluster_def with_store_def split: prod.split bool.split)
  moreover have "attempts_ok 5 (sv_attempts (snd (login_handler E w i b r sv))) \<and> attempts_ok 30 (sv_nodeAttempts (snd (login_handler E w i b r sv)))" for i b
    using assms allow_login_ok [OF assms(1), of "rq_peer r" "hw_now w"]
    by (auto simp: login_handler_def attempts_filter split: option.split prod.split bool.split sum.split)
  ultimately show ?thesis
    using assms by (simp add: ServeHTTP_def with_store_def split: call.split user_call.split)
qed

section \<open>Properties\<close>

text \<open>C40: Nothing changes the store without a proof of identity. If serving a request changes the store, then the request is
  a node's call to a controller, a login, a first set-up of a store that had no administrator, or a call whose cookie
  belongs to a live session of an enabled user, whose token against forgery is that session's, and which the role of the
  server allows; reading never changes it.\<close>

theorem store_changes_authorised:
  assumes "ServeHTTP E w r sv = (reply, sv')" and "sv_store sv' \<noteq> sv_store sv"
  shows "(\<exists>c. rq_call r = Cluster c) \<and> hw_role w = ''controller'' \<or> (\<exists>body. rq_call r = Login body)
    \<or> (\<exists>body. rq_call r = Setup body) \<and> \<not> hasAdmin (hw_gate w)
    \<or> \<not> is_read (rq_call r) \<and> (\<exists>cookie a. passed_gate E w r cookie a)"
proof -
  have api: "\<not> is_read (rq_call r) \<and> (\<exists>cookie a. passed_gate E w r cookie a)" if "sv_store (snd (serve_api E w r sv)) \<noteq> sv_store sv"
    using that serve_api_changes [OF that] read_keeps by (auto simp: serve_api_def with_store_def split: option.splits sum.splits)
  have cluster: "hw_role w = ''controller''" if "sv_store (snd (serve_cluster E w r c sv)) \<noteq> sv_store sv" for c
    using that by (auto simp: serve_cluster_def split: if_splits)
  have first: "\<not> hasAdmin (hw_gate w)" if "sv_store (snd (login_handler E w True b r sv)) \<noteq> sv_store sv" for b
    using that by (auto simp: login_handler_def setup_refused_def split: if_splits)
  have eq: "sv_store (snd (ServeHTTP E w r sv)) \<noteq> sv_store sv" using assms by simp
  show ?thesis
  proof (cases "rq_call r")
    case (User u)
    then show ?thesis using eq api by (cases u) (auto simp: ServeHTTP_def with_store_def)
  next
    case (Cluster c)
    then show ?thesis using eq cluster by (simp add: ServeHTTP_def)
  next
    case (Setup b)
    then show ?thesis using eq first by (simp add: ServeHTTP_def)
  qed (use eq api in \<open>auto simp: ServeHTTP_def\<close>)
qed

definition sample_http :: http_world where
  "sample_http = \<lparr>hw_gate = sample_logged_in, hw_before = sample_logged_in, hw_role = ''controller'', hw_now = unix_time 400, hw_now' = unix_time 400,
     hw_token = sample_token, hw_code = [], hw_salt = [], hw_nonce = [], hw_api = \<lparr>ap_slot = False, ap_token = (\<lambda>_ _. None), ap_devices = (\<lambda>_ _. None)\<rparr>, hw_verified = False, hw_probeFull = False,
     hw_probe = (\<lambda>_ _ _. probe_both (Inr ()) (unix_time 400) (Inr ()) (unix_time 400)), hw_timeout = None\<rparr>"

definition sample_logout :: request where
  "sample_logout = \<lparr>rq_call = User PostLogout, rq_cookie = Some sample_token, rq_csrf = csrf_of sample_env sample_token, rq_authorization = [],
     rq_peer = ''192.0.2.1'', rq_origin = [], rq_host = [], rq_mediaType = None\<rparr>"

definition sample_server :: server where
  "sample_server = \<lparr>sv_store = sample_logged_in, sv_attempts = [], sv_nodeAttempts = []\<rparr>"

theorem store_changes_authorised_witness:
  "sv_store (snd (ServeHTTP sample_env sample_http sample_logout sample_server)) \<noteq> sv_store sample_server
   \<and> (\<exists>cookie a. passed_gate sample_env sample_http sample_logout cookie a)"
proof -
  have csrf: "checkCSRF sample_env sample_logged_in sample_token (csrf_of sample_env sample_token) = Inr ()"
    by (simp add: checkCSRF_def sample_logged_in_def sample_token_def sample_env_def csrf_of_def hex_encode_def failIf_def)
  have "sessions (sv_store (snd (ServeHTTP sample_env sample_http sample_logout sample_server))) = []"
    using sample_auth csrf
    by (simp add: ServeHTTP_def serve_api_def sample_http_def sample_logout_def sample_server_def with_store_def mux_def)
      (simp add: sample_logged_in_def sample_env_def delete_where_def)
  then have ne: "sv_store (snd (ServeHTTP sample_env sample_http sample_logout sample_server)) \<noteq> sv_store sample_server"
    by (auto simp: sample_server_def sample_logged_in_def)
  obtain reply sv' where r: "ServeHTTP sample_env sample_http sample_logout sample_server = (reply, sv')" by (metis surj_pair)
  from store_changes_authorised [OF r] ne r show ?thesis by (simp add: sample_logout_def)
qed

end
