(* ===== verification/Controller.thy ===== *)
theory Controller
  imports Http ControlClient
begin

text \<open>
  The controller as a whole, and the controller and a node together: every way the running
  controller changes its store as one step relation, and what a node makes of the answers and of
  the policies it is sent.
\<close>

section \<open>Everything that changes the store\<close>

text \<open>A database that was just created, \<^verbatim>\<open>OpenStore\<close>, and the server before its first request.\<close>

definition new_store :: store where
  "new_store = \<lparr>users = [], sessions = [], tailnets = [], credentials = [], identity_snapshots = [], nodes = [], enrollments = [],
     node_sessions = [], grants = [], node_policies = [], tailnet_rules = [], settings = [], audit = [], events = [],
     node_challenges = [], node_observations = [], clusterID = [], credentialAEAD = False, policyStreams = []\<rparr>"

definition new_server :: "store \<Rightarrow> server" where
  "new_server s = \<lparr>sv_store = s, sv_attempts = [], sv_nodeAttempts = []\<rparr>"

text \<open>
  Requests, the start-up of the controller, the local creation and recovery of an administrator, the identity
  synchroniser with its two transactions, the expiry events, and the control streams. A refresh
  commits what the identity source answered at some earlier store.
\<close>

inductive controller_step :: "env \<Rightarrow> server \<Rightarrow> server \<Rightarrow> bool" for E where
  request: "fresh_texts w \<Longrightarrow> controller_step E sv (snd (ServeHTTP E w r sv))"
| enable: "EnableIdentity (sv_store sv) keyFile file fresh write_error chmod_error = Inr (key, s) \<Longrightarrow> controller_step E sv (sv\<lparr>sv_store := s\<rparr>)"
| configure: "ConfigureNodes (sv_store sv) allowedCIDRs token = Inr (ps, s) \<Longrightarrow> controller_step E sv (sv\<lparr>sv_store := s\<rparr>)"
| initialize: "InitializeAdmin E (sv_store sv) username password token salt now = Inr (a, s) \<Longrightarrow> token \<noteq> ''local''
    \<Longrightarrow> controller_step E sv (sv\<lparr>sv_store := s\<rparr>)"
| recover: "controller_step E sv (sv\<lparr>sv_store := snd (RecoverAdmin E (sv_store sv) uid password salt now)\<rparr>)"
| refresh: "refresh_begin (sv_store sv) rid = Inr (x, s) \<Longrightarrow> controller_step E sv (sv\<lparr>sv_store := s\<rparr>)"
| refreshed: "controller_step E sv (sv\<lparr>sv_store := snd (refresh_commit E (sv_store sv) rid revision seq
    (bindE (openCredential E s0 rid encrypted) (\<lambda>c. fetchIdentity E api s0 apiID c now)) now')\<rparr>)"
| expiry: "refreshExpiryEvents E (sv_store sv) now = Inr s \<Longrightarrow> controller_step E sv (sv\<lparr>sv_store := s\<rparr>)"
| stream_opened: "controller_step E sv (sv\<lparr>sv_store := register_stream rid sid (sv_store sv)\<rparr>)"
| stream_told: "controller_step E sv (sv\<lparr>sv_store := take_signal st (sv_store sv)\<rparr>)"
| stream_closed: "controller_step E sv (sv\<lparr>sv_store := unregister_stream rid sid (sv_store sv)\<rparr>)"
| restart: "controller_step E sv (new_server ((sv_store sv)\<lparr>clusterID := [], credentialAEAD := False, policyStreams := []\<rparr>))"

lemma streams_inv:
  assumes "db_inv E s"
  shows "db_inv E (register_stream rid sid s)" "db_inv E (take_signal st s)" "db_inv E (unregister_stream rid sid s)"
proof -
  have "unique st_node (policyStreams s)" using assms by (simp add: db_inv_def)
  then show "db_inv E (register_stream rid sid s)" "db_inv E (take_signal st s)" "db_inv E (unregister_stream rid sid s)"
    unfolding register_stream_def take_signal_def unregister_stream_def
    by (auto intro!: db_inv_streams [OF assms] simp: unique_append unique_delete_where unique_update_where)
qed

lemma RecoverAdmin_inv: "db_inv E s \<Longrightarrow> db_inv E (snd (RecoverAdmin E s uid password salt now))"
  by (auto simp: RecoverAdmin_def bindE_Inr_iff split: sum.split intro: ChangePassword_inv SetUserEnabled_inv)

lemma refreshed_inv:
  assumes "db_inv E s" "np_roundtrip E"
  shows "db_inv E (snd (refresh_commit E s rid revision seq
    (bindE (openCredential E s0 rid encrypted) (\<lambda>c. fetchIdentity E api s0 apiID c now)) now'))"
proof -
  obtain r s' where r: "refresh_commit E s rid revision seq
      (bindE (openCredential E s0 rid encrypted) (\<lambda>c. fetchIdentity E api s0 apiID c now)) now' = (r, s')" by (metis surj_pair)
  have "db_inv E s'"
    by (rule refresh_commit_inv [OF r assms(1)]) (auto simp: bindE_Inr_iff intro: fetchIdentity_keys [OF assms(2)])
  with r show ?thesis by simp
qed

definition server_inv :: "env \<Rightarrow> server \<Rightarrow> bool" where
  "server_inv E sv \<longleftrightarrow> db_inv E (sv_store sv) \<and> attempts_ok 5 (sv_attempts sv) \<and> attempts_ok 30 (sv_nodeAttempts sv)"

lemma controller_step_inv:
  assumes "controller_step E sv sv'" "server_inv E sv" "np_roundtrip E"
  shows "server_inv E sv'"
proof -
  have s: "db_inv E (sv_store sv)" and a: "attempts_ok 5 (sv_attempts sv)" "attempts_ok 30 (sv_nodeAttempts sv)"
    using assms(2) by (simp_all add: server_inv_def)
  from assms(1) show ?thesis
  proof (cases rule: controller_step.cases)
    case (request w r)
    with ServeHTTP_inv [OF s assms(3)] ServeHTTP_ok [OF a] show ?thesis by (simp add: server_inv_def)
  next
    case (enable keyFile kf fresh write_error chmod_error key s1)
    then have "s1 = (sv_store sv)\<lparr>credentialAEAD := True\<rparr>"
      by (auto simp: EnableIdentity_def bindE_Inr_iff split: option.splits)
    with enable(1) s a show ?thesis by (simp add: server_inv_def)
  next
    case (configure allowedCIDRs token ps s1)
    with ConfigureNodes_inv s a show ?thesis by (auto simp: server_inv_def)
  next
    case (initialize username password token salt now a0 s1)
    with InitializeAdmin_inv s a show ?thesis by (auto simp: server_inv_def)
  next
    case (recover uid password salt now)
    with RecoverAdmin_inv s a show ?thesis by (simp add: server_inv_def)
  next
    case (refresh rid x s1)
    with refresh_begin_inv s a show ?thesis by (auto simp: server_inv_def)
  next
    case (refreshed rid revision seq s0 encrypted api apiID now now')
    with refreshed_inv [OF s assms(3)] a show ?thesis by (simp add: server_inv_def)
  next
    case (expiry now s1)
    with refreshExpiryEvents_inv s a show ?thesis by (auto simp: server_inv_def)
  next
    case restart
    with s show ?thesis by (simp add: server_inv_def new_server_def attempts_ok_def db_inv_def db_sets unique_def)
  qed (use streams_inv [OF s] a in \<open>auto simp: server_inv_def\<close>)
qed

lemma controller_steps_inv:
  assumes "(controller_step E)\<^sup>*\<^sup>* sv sv'" "server_inv E sv" "np_roundtrip E"
  shows "server_inv E sv'"
  using assms by (induction rule: rtranclp_induct) (auto intro: controller_step_inv)

lemma new_server_inv: "server_inv E (new_server new_store)"
  by (simp add: server_inv_def new_server_def new_store_def attempts_ok_def db_inv_def db_sets users_inv_def sessions_inv_def tailnets_inv_def
      credentials_inv_def identities_inv_def nodes_inv_def enrollments_inv_def node_sessions_inv_def grants_inv_def policies_inv_def
      rules_inv_def challenges_inv_def observations_inv_def refs_def unique_def)

section \<open>What a node makes of an answer\<close>

text \<open>
  An answer of the server on the wire, as \<^verbatim>\<open>EnrollmentClient.post\<close> meets it: the status, the
  length of the body (\<open>None\<close> if reading it failed), what the body decodes to, and the code in the body of an error.
\<close>

definition wire :: "(payload \<Rightarrow> 'a option) \<Rightarrow> nat option \<Rightarrow> http_reply \<Rightarrow> 'a reply" where
  "wire decode len reply =
     (case reply of
        NotFound \<Rightarrow> Reply 404 len None None
      | TooMany \<Rightarrow> Reply 429 len None None
      | Replied (Inl e) \<Rightarrow> Reply (http_status e) len None (error_code e)
      | Replied (Inr x) \<Rightarrow> Reply 200 len (decode x) None)"

lemma http_status_conflict:
  "http_status e = 409 \<and> error_code e = Some ''identity_conflict'' \<longleftrightarrow> e = ErrIdentityConflict"
  by (cases e) (simp_all add: http_status_def error_code_def)

lemma http_status_error: "http_status e \<noteq> 200"
  by (cases e) (simp_all add: http_status_def)

lemma rejection_conflict:
  "rejection path token status len code = ErrIdentityConflict \<longleftrightarrow>
     path = ''/cluster/v1/session'' \<and> status = 409 \<and> len \<noteq> None \<and> the len \<le> 4096 \<and> code = Some ''identity_conflict''"
  by (auto simp: rejection_def ErrEnrollmentCodeRejected_def errEnrollmentProofRejected_def errNodeSessionRejected_def)

lemma post_conflict:
  "post path token (wire decode len reply) = Inl ErrIdentityConflict \<longleftrightarrow>
     path = ''/cluster/v1/session'' \<and> reply = Replied (Inl ErrIdentityConflict) \<and> len \<noteq> None \<and> the len \<le> 4096"
proof (cases reply)
  case (Replied r)
  then show ?thesis
    using http_status_conflict http_status_error by (cases r) (auto simp: post_def wire_def rejection_conflict split: option.splits)
qed (simp_all add: post_def wire_def rejection_conflict)

lemma session_path: "cluster_path c = ''/cluster/v1/session'' \<longleftrightarrow> (\<exists>body. c = ClusterSession body)"
  by (cases c) simp_all

text \<open>No other part of a renewal fails with the error that stands for a conflict.\<close>

lemmas not_Inl = bindE_Inl_iff failIf_Inl_iff

lemma scan_unique_not_Inl: "e' \<noteq> e \<Longrightarrow> scan_unique k bad e' xs seen \<noteq> Inl e"
  by (induction xs arbitrary: seen) auto

lemma validate_keys_not_Inl: "(\<And>m. e \<noteq> ErrMsg m) \<Longrightarrow> validate_keys E ks keys \<noteq> Inl e"
  by (induction E ks keys rule: validate_keys.induct) (auto split: option.splits)

lemma validate_grants_not_Inl:
  assumes "\<And>m. e \<noteq> ErrMsg m"
  shows "validate_grants E gs ts is keys \<noteq> Inl e"
proof (induction E gs ts "is" keys rule: validate_grants.induct)
  case (2 E g gs tailnets grants keys)
  then show ?case using assms [symmetric] validate_keys_not_Inl [OF assms] by (auto simp: not_Inl)
qed simp

lemma ValidatePolicy_not_Inl:
  assumes "\<And>m. e \<noteq> ErrMsg m"
  shows "ValidatePolicy E p cid rid \<noteq> Inl e"
  unfolding ValidatePolicy_def ValidateQoS_def
  using validate_grants_not_Inl [OF assms] by (auto simp: not_Inl scan_unique_not_Inl assms assms [symmetric] split: prod.splits if_splits)

lemma mapE_not_Inl: "(\<And>x. f x \<noteq> Inl e) \<Longrightarrow> mapE f xs \<noteq> Inl e"
  by (induction xs) (auto simp: not_Inl)

lemma policy_loop_not_Inl: "e \<noteq> ErrInvalid \<Longrightarrow> policy_loop owner rt all conflicts rows \<noteq> Inl e"
  by (induction owner rt all conflicts rows rule: policy_loop.induct) (auto simp: not_Inl split: option.splits)

lemma query_row_not_Inl: "e \<noteq> ErrNoRows \<Longrightarrow> query_row P xs \<noteq> Inl e"
  by (simp add: query_row_def split: option.split)

lemma identitySnapshots_not_conflict: "identitySnapshots s \<noteq> Inl ErrIdentityConflict"
  unfolding identitySnapshots_def by (rule mapE_not_Inl) (simp split: option.split)

lemma readRetentions_not_conflict: "readRetentions s \<noteq> Inl ErrIdentityConflict"
  by (simp add: readRetentions_def Let_def split: option.split)

lemmas not_conflict = query_row_not_Inl policy_loop_not_Inl identitySnapshots_not_conflict readRetentions_not_conflict ValidatePolicy_not_Inl

lemma policy_content_not_conflict: "policy_content s rid \<noteq> Inl ErrIdentityConflict"
  by (auto simp: policy_content_def node_and_owner_def not_Inl not_conflict split: if_splits)

lemma buildPolicy_not_conflict: "buildPolicy E s rid now \<noteq> Inl ErrIdentityConflict"
  by (auto simp: buildPolicy_def publish_policy_def Let_def not_Inl not_conflict policy_content_not_conflict split: option.splits sum.splits if_splits)

lemma checkNodeChallenge_not_conflict: "checkNodeChallenge E s c sig purpose now \<noteq> Inl ErrIdentityConflict"
  by (auto simp: checkNodeChallenge_def not_Inl split: option.splits)

lemma renew_commit_conflict:
  assumes "renew_commit E s c sig token now = (Inl ErrIdentityConflict, s')"
  obtains n where "checkNodeChallenge E s c sig (ch_Purpose c) now = Inr ()" "renewable s c = Some n"
    "n_instance_id n \<noteq> ch_InstanceID c" "unix now < n_lease_until n" "renew_conflict E s c n now = Inr s'"
proof -
  have conflict: "renew_conflict E s c n now \<noteq> Inl ErrIdentityConflict" for n
    by (auto simp: renew_conflict_def Let_def not_Inl buildPolicy_not_conflict)
  have grant: "renew_grant E s c n token now \<noteq> Inl ErrIdentityConflict" for n
    by (auto simp: renew_grant_def mintNodeSession_def Let_def insert_row_def not_Inl split: if_splits)
  from assms checkNodeChallenge_not_conflict [of E s c sig "ch_Purpose c" now] conflict grant that show thesis
    by (auto simp: renew_commit_def split: sum.splits option.splits if_splits)
qed

section \<open>A policy on its way\<close>

definition received_ack :: "policy \<Rightarrow> policy_ack" where
  "received_ack p = \<lparr>ack_Revision = p_Revision p, ack_State = AckReceived, ack_Usable = False, ack_Error = []\<rparr>"

definition applied_ack :: "policy \<Rightarrow> bool \<Rightarrow> policy_ack" where
  "applied_ack p usable = \<lparr>ack_Revision = p_Revision p, ack_State = AckApplied, ack_Usable = usable, ack_Error = []\<rparr>"

text \<open>What the node needs: a cache that takes the policy, a relay that applies it, and answers to its acknowledgements.\<close>

definition node_ready :: "env \<Rightarrow> string \<Rightarrow> message_world \<Rightarrow> node_session \<Rightarrow> policy \<Rightarrow> policy_application \<Rightarrow> link \<Rightarrow> bool" where
  "node_ready E path w session p result l \<longleftrightarrow>
     (\<exists>fs fs'. saveCacheAt E path p (mw_saveNow w) (mw_w1 w) (mw_w2 w) (lk_files l) = (Inr (), fs)
        \<and> mw_apply w p fs = ((result, Inr ()), fs'))
     \<and> pa_Revision result = p_Revision p
     \<and> (\<forall>ack\<in>{received_ack p, applied_ack p (pa_Usable result)}.
          post ''/cluster/v1/ack'' (ses_Token session) (mw_ack w ack) = Inr True)"

lemma handle_policy_ready:
  assumes "ValidatePolicy E p (ses_ClusterID session) (ses_NodeID session) = Inr ()" and "node_ready E path w session p result l"
  shows "lk_acks (snd (handle_policy E path w session p l)) = lk_acks l @ [received_ack p, applied_ack p (pa_Usable result)]
    \<and> lk_applied (snd (handle_policy E path w session p l)) = lk_applied l @ [p] \<and> fst (handle_policy E path w session p l) = None"
  using assms
  by (auto simp: node_ready_def handle_policy_def accept_policy_def send_ack_def apply_message_def Let_def received_ack_def applied_ack_def
      split: prod.splits)

lemma nodeSession_frame:
  assumes "users s' = users s" "nodes s' = nodes s" "node_sessions s' = node_sessions s" "clusterID s' = clusterID s"
  shows "nodeSession E s' token t = nodeSession E s token t"
  unfolding nodeSession_def live_session_def user_enabled_def assms ..

lemma acks_accepted:
  assumes "db_inv E s" "currentPolicy E s rid = Inr p"
    and "nodeSession E s token t = Inr who" "ses_NodeID who = rid" "nodeSession E s token t' = Inr who'" "ses_NodeID who' = rid"
  shows "\<exists>s1 s2 row. AcknowledgePolicy E s token (received_ack p) t = Inr s1
    \<and> AcknowledgePolicy E s1 token (applied_ack p usable) t' = Inr s2
    \<and> row \<in> set (node_policies s2) \<and> pr_node_id row = rid \<and> pr_desired_revision row = p_Revision p
    \<and> pr_received_revision row = p_Revision p \<and> pr_applied_revision row = p_Revision p
    \<and> pr_derper_usable row = (usable \<and> live_keys t' p)"
proof -
  from assms(2) obtain r where q: "query_row (\<lambda>r. pr_node_id r = rid) (node_policies s) = Inr r"
    and body: "pr_policy r = Some (Some p)" and p: "policy_valid E p (clusterID s) rid" "policy_size p \<le> MaxPolicyBytes"
    unfolding currentPolicy_def bindE_Inr_iff by (auto simp: DecodePolicy_Inr body_len_def split: option.splits)
  from query_row_InrD [OF q] have r: "r \<in> set (node_policies s)" "pr_node_id r = rid" by auto
  with assms(1) have "policy_row_ok E (setting ''cluster_id'' s) r" unfolding db_inv_def policies_inv_def list_all_iff by blast
  with body have ok: "pr_desired_revision r = p_Revision p" "pr_received_revision r \<le> p_Revision p" "p_Revision p \<le> MaxInt64"
    "pr_applied_revision r \<le> pr_received_revision r" by (auto simp: policy_row_ok_def)
  have rev: "p_Revision p \<noteq> 0" using p(1) by (simp add: policy_valid_def)
  from nodeSession_node [OF assms(3)] assms(4) have "find (\<lambda>n. n_id n = rid) (nodes s) \<noteq> None" by (simp add: find_None_image node_ids_def)
  then obtain n where n: "select_node s rid = Inr n" by (auto simp: select_node_def query_row_def)
  define s1 where "s1 = update_policy_row rid (\<lambda>r. r\<lparr>pr_received_revision := p_Revision p\<rparr>) s"
  have ack1: "AcknowledgePolicy E s token (received_ack p) t = Inr s1"
    using assms(3,4) q n ok rev r by (simp add: AcknowledgePolicy_def ack_ok_def received_ack_def ack_received_def s1_def)
  let ?r1 = "r\<lparr>pr_received_revision := p_Revision p\<rparr>"
  have q1: "query_row (\<lambda>r. pr_node_id r = rid) (node_policies s1) = Inr ?r1"
    using q by (auto simp: s1_def update_policy_row_def query_row_def find_update_where split: option.splits)
  have ses: "nodeSession E s1 token t' = Inr who'" "select_node s1 rid = Inr n" "clusterID s1 = clusterID s"
    using assms(5) n nodeSession_frame [of s1 s E token t'] by (simp_all add: s1_def update_policy_row_def select_node_def)
  have cur: "currentPolicy E s1 rid = Inr p"
    using q1 body p ses(3) by (simp add: currentPolicy_def DecodePolicy_Inr body_len_def)
  have ack2: "AcknowledgePolicy E s1 token (applied_ack p usable) t' = Inr (mark_applied rid (p_Revision p) (usable \<and> live_keys t' p) t' s1)"
    using assms(6) ses q1 cur ok rev r by (simp add: AcknowledgePolicy_def ack_ok_def applied_ack_def ack_applied_def)
  have "?r1\<lparr>pr_applied_revision := p_Revision p, pr_derper_usable := usable \<and> live_keys t' p\<rparr>
      \<in> set (node_policies (mark_applied rid (p_Revision p) (usable \<and> live_keys t' p) t' s1))"
    using query_row_InrD [OF q1] by (auto simp: mark_applied_def resolve_events_def update_node_def update_policy_row_def update_where_def intro: rev_image_eqI)
  with ack1 ack2 ok r show ?thesis by (intro exI conjI) (assumption | simp)+
qed

section \<open>Properties\<close>

text \<open>C0: Whatever the controller does, its store stays consistent. From an empty database, along every interleaving of
  requests, restarts, set-up, recovery, refreshes of identities, expiry events and control streams, every row refers
  to rows that exist, keys are unique, revisions are ordered, every stored policy is valid for its node, and neither
  table of attempts has more than 1024 addresses or an address above its limit.\<close>

theorem controller_consistent:
  assumes "(controller_step E)\<^sup>*\<^sup>* (new_server new_store) sv" and "np_roundtrip E"
  shows "db_inv E (sv_store sv) \<and> attempts_ok 5 (sv_attempts sv) \<and> attempts_ok 30 (sv_nodeAttempts sv)"
  using controller_steps_inv [OF assms(1) new_server_inv assms(2)] by (simp add: server_inv_def)

text \<open>C0: A node gives up its identity only for a reason: if the answer to a request of a node means an identity conflict to it,
  then the request was a proof for a session that the controller accepted as a proof, from another instance than the
  one whose lease still ran, and from then on no session of the node is accepted and the node is in conflict.\<close>

theorem conflict_reaches_node:
  assumes "ServeHTTP E w r sv = (reply, sv')" and "rq_call r = Cluster c"
    and "post (cluster_path c) token (wire decode len reply) = Inl ErrIdentityConflict"
  shows "\<exists>ch sig n. c = ClusterSession (Some (ch, sig)) \<and> n \<in> set (nodes (sv_store sv)) \<and> n_id n = ch_NodeID ch
    \<and> checkNodeChallenge E (sv_store sv) ch sig (ch_Purpose ch) (hw_now' w) = Inr ()
    \<and> n_instance_id n \<noteq> ch_InstanceID ch \<and> unix (hw_now' w) < n_lease_until n
    \<and> no_session E (sv_store sv') (ch_NodeID ch)
    \<and> (\<exists>n'. find_node (sv_store sv') (ch_NodeID ch) = Some n' \<and> n_state n' = IdentityConflict)"
proof -
  from assms(3) obtain body where c: "c = ClusterSession body" and reply: "reply = Replied (Inl ErrIdentityConflict)"
    unfolding post_conflict session_path by blast
  with assms(1,2) have "cluster_api E w (nodeBearer (rq_authorization r)) (sv_store sv) c = (Inl ErrIdentityConflict, sv_store sv')"
    by (auto simp: ServeHTTP_def serve_cluster_def with_store_def prod_eq_iff split: if_splits prod.splits bool.splits)
  then obtain ch sig where body: "body = Some (ch, sig)"
    and renew: "RenewNodeSession E (hw_before w) (sv_store sv) (hw_verified w) ch sig (hw_token w) (hw_now w) (hw_now' w)
      = (Inl ErrIdentityConflict, sv_store sv')"
    unfolding c by (auto simp: with_body_def answer_store_def split: option.splits prod.splits sum.splits)
  have "renew_check E s ch sig t \<noteq> Inl ErrIdentityConflict" for s t
    by (simp add: renew_check_def not_Inl checkNodeChallenge_not_conflict)
  with renew have "renew_commit E (sv_store sv) ch sig (hw_token w) (hw_now' w) = (Inl ErrIdentityConflict, sv_store sv')"
    by (auto simp: RenewNodeSession_def split: if_splits sum.splits)
  then obtain n where n: "checkNodeChallenge E (sv_store sv) ch sig (ch_Purpose ch) (hw_now' w) = Inr ()" "renewable (sv_store sv) ch = Some n"
    "n_instance_id n \<noteq> ch_InstanceID ch" "unix (hw_now' w) < n_lease_until n" "renew_conflict E (sv_store sv) ch n (hw_now' w) = Inr (sv_store sv')"
    by (rule renew_commit_conflict)
  have "find_node (sv_store sv) (ch_NodeID ch) \<noteq> None"
    using renewable_Some(6) [OF n(2)] by (simp add: find_node_def find_None_image node_ids_def)
  then obtain n0 where "find_node (sv_store sv) (ch_NodeID ch) = Some n0" by blast
  from renew_conflict_locked [OF n(5) this] renewable_Some(1,2) [OF n(2)] n(1,3,4) c body show ?thesis by blast
qed

text \<open>C0: A policy the controller has for a node reaches the relay and is known to have reached it. If the node's session is
  accepted, its cache takes the policy, its relay applies it and its requests are answered, then the node accepts the
  stored policy as valid for it, hands it to the relay, and sends two acknowledgements; the controller accepts both,
  and then holds the policy's revision as received and applied, and the relay as usable exactly if the relay said so
  and a key of the policy is still live.\<close>

theorem policy_reaches_relay:
  assumes "db_inv E s" and "currentPolicy E s (ses_NodeID session) = Inr p" and "ses_ClusterID session = clusterID s"
    and "nodeSession E s (ses_Token session) t = Inr who" "ses_NodeID who = ses_NodeID session"
    and "nodeSession E s (ses_Token session) t' = Inr who'" "ses_NodeID who' = ses_NodeID session"
    and "node_ready E path w session p result l"
  shows "\<exists>s1 s2 row. lk_applied (snd (handle_policy E path w session p l)) = lk_applied l @ [p]
    \<and> lk_acks (snd (handle_policy E path w session p l)) = lk_acks l @ [received_ack p, applied_ack p (pa_Usable result)]
    \<and> AcknowledgePolicy E s (ses_Token session) (received_ack p) t = Inr s1
    \<and> AcknowledgePolicy E s1 (ses_Token session) (applied_ack p (pa_Usable result)) t' = Inr s2
    \<and> row \<in> set (node_policies s2) \<and> pr_node_id row = ses_NodeID session \<and> pr_desired_revision row = p_Revision p
    \<and> pr_received_revision row = p_Revision p \<and> pr_applied_revision row = p_Revision p
    \<and> pr_derper_usable row = (pa_Usable result \<and> live_keys t' p)"
proof -
  have "ValidatePolicy E p (ses_ClusterID session) (ses_NodeID session) = Inr ()"
    using assms(2,3) by (auto simp: currentPolicy_def bindE_Inr_iff DecodePolicy_Inr ValidatePolicy_valid split: option.splits)
  from handle_policy_ready [OF this assms(8)] acks_accepted [OF assms(1,2,4-7)] show ?thesis by blast
qed

subsection \<open>Instances\<close>

definition first_key :: string where
  "first_key = replicate 32 CHR ''k''"

lemma sample_started:
  "\<exists>s. (controller_step sample_env)\<^sup>*\<^sup>* (new_server new_store) (new_server s) \<and> credentialAEAD s \<and> clusterID s = sample_code"
proof -
  let ?s1 = "new_store\<lparr>credentialAEAD := True\<rparr>"
  let ?s2 = "?s1\<lparr>settings := [(''cluster_id'', sample_code), (''identity_retention_seconds'', ''86400''), (''control_retention_seconds'', ''86400'')],
    clusterID := sample_code\<rparr>"
  have "EnableIdentity (sv_store (new_server new_store)) ''k'' KeyMissing first_key None None = Inr (first_key, ?s1)"
    by (simp add: EnableIdentity_def key_content_def sealed_rows_def new_server_def new_store_def first_key_def)
  then have "controller_step sample_env (new_server new_store) ((new_server new_store)\<lparr>sv_store := ?s1\<rparr>)" by (rule enable)
  moreover have "ConfigureNodes (sv_store (new_server ?s1)) [] sample_code = Inr ([], ?s2)"
    by (simp add: ConfigureNodes_def default_settings_def insert_setting_def setting_def new_server_def new_store_def)
  then have "controller_step sample_env (new_server ?s1) ((new_server ?s1)\<lparr>sv_store := ?s2\<rparr>)" by (rule configure)
  ultimately have "(controller_step sample_env)\<^sup>*\<^sup>* (new_server new_store) (new_server ?s2)"
    by (simp add: new_server_def)
  then show ?thesis by (intro exI [of _ ?s2]) simp
qed

theorem controller_consistent_witness:
  "\<exists>s. (controller_step sample_env)\<^sup>*\<^sup>* (new_server new_store) (new_server s) \<and> clusterID s \<noteq> [] \<and> db_inv sample_env s"
proof -
  from sample_started obtain s where s: "(controller_step sample_env)\<^sup>*\<^sup>* (new_server new_store) (new_server s)" "clusterID s = sample_code" by blast
  from controller_consistent [OF s(1) sample_np_roundtrip] have "db_inv sample_env s" by (simp add: new_server_def)
  with s show ?thesis by (auto simp: sample_code_def)
qed

definition sample_proof :: request where
  "sample_proof = sample_logout\<lparr>rq_call := Cluster (ClusterSession (Some (sample_rival, ed_sign sample_env (ch_PublicKey sample_rival) sample_rival)))\<rparr>"

definition sample_clash :: http_world where
  "sample_clash = sample_http\<lparr>hw_now := unix_time 300, hw_now' := unix_time 300\<rparr>"

lemma sample_clash_renewed:
  "\<exists>s'. RenewNodeSession sample_env s0 sample_rivals v sample_rival (ed_sign sample_env (ch_PublicKey sample_rival) sample_rival)
     token t (unix_time 300) = (Inl ErrIdentityConflict, s')"
proof -
  let ?sig = "ed_sign sample_env (ch_PublicKey sample_rival) sample_rival"
  let ?n = "sample_node\<lparr>n_public_key := Some (ch_PublicKey sample_challenge), n_lease_until := 390\<rparr>"
  have c: "ch_NodeID sample_rival = ''n''" "ch_Purpose sample_rival = ''session''" by (simp_all add: sample_rival_def sample_challenge_def)
  have check: "checkNodeChallenge sample_env sample_rivals sample_rival ?sig ''session'' (unix_time 300) = Inr ()"
    by (simp add: checkNodeChallenge_def sample_rivals_def sample_rival_def sample_challenge_def sample_store_def sample_env_def
        unix_time_def unix_def second_def)
  have n: "renewable sample_rivals sample_rival = Some ?n"
    by (simp add: renewable_def sample_rivals_def sample_rival_def sample_challenge_def sample_node_def sample_store_defs serving_state_def user_enabled_def)
  have "\<exists>s'. renew_conflict sample_env sample_rivals sample_rival ?n (unix_time 300) = Inr s'"
    unfolding renew_conflict_def Let_def c
    by (subst sample_serves_nothing [where n = "?n\<lparr>n_state := IdentityConflict, n_last_error := ''node identity is active on another instance''\<rparr>" and a = 4 and b = 3])
      (simp_all add: sample_rivals_def writeAudit_def insert_event_def use_challenge_def update_node_def update_where_def sample_store_defs serving_state_def)
  with check n c show ?thesis
    by (auto simp: RenewNodeSession_def renew_commit_def sample_rival_def sample_node_def unix_time_def unix_def second_def)
qed

theorem conflict_reaches_node_witness:
  "\<exists>reply sv'. ServeHTTP sample_env sample_clash sample_proof (new_server sample_rivals) = (reply, sv')
    \<and> post ''/cluster/v1/session'' [] (wire (\<lambda>_. None :: node_session option) (Some 60) reply) = Inl ErrIdentityConflict
    \<and> no_session sample_env (sv_store sv') ''n''"
proof -
  obtain reply sv' where r: "ServeHTTP sample_env sample_clash sample_proof (new_server sample_rivals) = (reply, sv')" by (metis surj_pair)
  have c: "rq_call sample_proof = Cluster (ClusterSession (Some (sample_rival, ed_sign sample_env (ch_PublicKey sample_rival) sample_rival)))"
    by (simp add: sample_proof_def)
  have w: "hw_role sample_clash = ''controller''" "hw_now' sample_clash = unix_time 300" by (simp_all add: sample_clash_def sample_http_def)
  have "\<exists>as. allowNodeAttempt (rq_peer sample_proof) (hw_now sample_clash) [] = (True, as)"
    by (simp add: allowNodeAttempt_def Let_def live_attempts_def attempt_count_def)
  then have "reply = Replied (Inl ErrIdentityConflict)"
    using r sample_clash_renewed [of "hw_before sample_clash" "hw_verified sample_clash" "hw_token sample_clash" "hw_now sample_clash"]
    by (auto simp: ServeHTTP_def c serve_cluster_def w new_server_def with_store_def with_body_def answer_store_def
        split: prod.splits bool.splits if_splits)
  then have p: "post ''/cluster/v1/session'' [] (wire (\<lambda>_. None :: node_session option) (Some 60) reply) = Inl ErrIdentityConflict"
    by (simp add: post_conflict)
  from conflict_reaches_node [OF r c, of "[]" "\<lambda>_. None :: node_session option" "Some 60"] p
  have "no_session sample_env (sv_store sv') ''n''" by (auto simp: sample_rival_def sample_challenge_def)
  with r p show ?thesis by blast
qed

definition sample_applied :: policy_application where
  "sample_applied = \<lparr>pa_LocalMaxBudgetBPS = None, pa_EffectiveBudgetBPS = 0, pa_Revision = p_Revision sample_built, pa_Usable = True,
     pa_Traffic = [], pa_TrafficObservedAt = unix_time 301, pa_ActiveConnections = 0\<rparr>"

definition sample_delivery :: message_world where
  "sample_delivery = sample_message\<lparr>mw_apply := (\<lambda>_ fs. ((sample_applied, Inr ()), fs))\<rparr>"

theorem policy_reaches_relay_witness:
  "\<exists>s1 s2. AcknowledgePolicy sample_env (store_policy sample_built ''n'' sample_store) sample_node_token (received_ack sample_built) (unix_time 300) = Inr s1
    \<and> AcknowledgePolicy sample_env s1 sample_node_token (applied_ack sample_built True) (unix_time 300) = Inr s2
    \<and> (\<exists>row\<in>set (node_policies s2). pr_applied_revision row = 5)"
proof -
  let ?s = "store_policy sample_built ''n'' sample_store" and ?session = "sample_node_session\<lparr>ses_Token := sample_node_token\<rparr>"
  have inv: "db_inv sample_env ?s" by (rule buildPolicy_inv [OF sample_build sample_store_inv])
  have eq: "users ?s = users sample_store" "nodes ?s = nodes sample_store" "node_sessions ?s = node_sessions sample_store" "clusterID ?s = ''c''"
    by (simp_all add: store_policy_def update_policy_row_def) (simp add: sample_store_def)
  have ses: "nodeSession sample_env ?s (ses_Token ?session) (unix_time 300) = Inr sample_node_session"
    using sample_authenticated [OF eq] by simp
  have ids: "ses_NodeID ?session = ''n''" "ses_ClusterID ?session = clusterID ?s" "ses_NodeID sample_node_session = ''n''"
    using eq by (simp_all add: sample_node_session_def)
  have cur: "currentPolicy sample_env ?s (ses_NodeID ?session) = Inr sample_built" unfolding ids by (rule sample_current [OF refl eq(4)])
  have b: "p_ClusterID sample_built = ''c''" "p_NodeID sample_built = ''n''" "p_Revision sample_built = 5" by (simp_all add: sample_built_def)
  have "ValidatePolicy sample_env sample_built ''c'' ''n'' = Inr ()" using sample_built_valid by (simp add: ValidatePolicy_valid)
  then have "\<exists>fs. saveCacheAt sample_env ''p'' sample_built (unix_time 300) Written Written sample_files = (Inr (), fs)"
    using sample_built_size b
    by (simp add: saveCacheAt_def next_watermark_def readCacheWatermark_def sample_files_def writeCacheFile_def
        unix_time_def zero_time_def second_def)
  then have ready: "node_ready sample_env ''p'' sample_delivery ?session sample_built sample_applied sample_link"
    by (simp add: node_ready_def sample_delivery_def sample_message_def sample_link_def sample_applied_def post_def)
  from policy_reaches_relay [OF inv cur ids(2) ses _ ses _ ready] ids b show ?thesis by (auto simp: sample_applied_def)
qed

end
