(* ===== verification/Spec2Isabelle.thy ===== *)
theory Spec2Isabelle
  imports Prelude Protocol Cache Database Consistency Identity PolicyBuild Auth Grants Domain Nodes Sessions Guard Resources Credentials IdentitySync ControlStream Status NetText Config Derper Admin NodeClient ControlClient Http Controller
begin

text \<open>
  A verification development for UniDERP, a controller and its DERP relay nodes.
\<close>

end
